(* ===== verification/CL_Prelude.thy ===== *)
theory CL_Prelude
  imports
    Main
    "HOL-Library.State_Monad"
    "HOL-Library.Char_ord"
    "HOL-Library.List_Lexorder"
    "HOL-Library.Sublist"
begin

text \<open>
  Shared vocabulary of the development. Go values are modelled as follows.

  \<^item> A Go \<^verbatim>\<open>string\<close> or \<^verbatim>\<open>[]byte\<close> is a HOL \<^typ>\<open>string\<close>: a \<^typ>\<open>char\<close> is one byte, and the
    order on strings (theory List_Lexorder over Char_ord) is Go's bytewise order.
  \<^item> \<^verbatim>\<open>time.Time\<close> is the number of nanoseconds since the zero time, \<^verbatim>\<open>time.Duration\<close> a signed
    64-bit number of nanoseconds; multiplications of a duration wrap (\<open>wrap64\<close>), and
    \<^verbatim>\<open>Time.Sub\<close> saturates (\<open>timeSub\<close>).
  \<^item> A Go \<^verbatim>\<open>error\<close> is a tree \<open>err\<close>: leaves with a text and the identities that \<^verbatim>\<open>errors.Is\<close> and
    \<^verbatim>\<open>errors.As\<close> look for, \<^verbatim>\<open>fmt.Errorf\<close> with \<^verbatim>\<open>%w\<close>, and \<^verbatim>\<open>errors.Join\<close>. A function that returns
    \<^verbatim>\<open>error\<close> returns \<open>err option\<close>, one that returns a value and an error returns \<open>err + 'a\<close>.
  \<^item> A function with effects is a \<open>State_Monad\<close> program over an abstract world; the effects it
    can have are exactly the interface methods it is given. \<open>wp\<close> and \<open>keeps\<close> are the two
    judgements every effect proof of the library uses.
\<close>

named_theorems wp_simps \<open>weakest preconditions of the monad's combinators\<close>
named_theorems keeps_intros \<open>rules that carry an invariant through a program\<close>

section \<open>Integers, times and durations\<close>

type_synonym time = int
type_synonym duration = int

definition wrap64 :: "int \<Rightarrow> int" where
  "wrap64 x = (x + 2 ^ 63) mod 2 ^ 64 - 2 ^ 63"

definition maxInt64 :: int where
  "maxInt64 = 2 ^ 63 - 1"

definition minInt64 :: int where
  "minInt64 = - (2 ^ 63)"

definition second :: duration where
  "second = 1000000000"

definition minute :: duration where
  "minute = 60 * second"

definition hour :: duration where
  "hour = 60 * minute"

text \<open>\<^verbatim>\<open>time.Duration(n) * time.Second\<close>, as an \<^verbatim>\<open>int64\<close> product.\<close>

definition seconds :: "int \<Rightarrow> duration" where
  "seconds n = wrap64 (n * second)"

text \<open>\<^verbatim>\<open>Time.Sub\<close>: the difference, clamped to the range of a duration.\<close>

definition timeSub :: "time \<Rightarrow> time \<Rightarrow> duration" where
  "timeSub t u = max minInt64 (min maxInt64 (t - u))"

definition zeroTime :: time where
  "zeroTime = 0"

definition IsZero :: "time \<Rightarrow> bool" where
  "IsZero t \<longleftrightarrow> t = zeroTime"

lemma wrap64_id [simp]: "minInt64 \<le> x \<Longrightarrow> x \<le> maxInt64 \<Longrightarrow> wrap64 x = x"
  by (simp add: wrap64_def minInt64_def maxInt64_def)

lemma wrap64_range: "minInt64 \<le> wrap64 x \<and> wrap64 x \<le> maxInt64"
proof -
  have "0 \<le> (x + 2 ^ 63) mod 2 ^ 64" and "(x + 2 ^ 63) mod 2 ^ 64 < (2 ^ 64 :: int)"
    by simp_all
  then show ?thesis by (simp add: wrap64_def minInt64_def maxInt64_def)
qed

lemma seconds_exact: "0 \<le> n \<Longrightarrow> n \<le> 9223372036 \<Longrightarrow> seconds n = n * 1000000000"
  unfolding seconds_def by (subst wrap64_id) (auto simp: second_def minInt64_def maxInt64_def)

section \<open>Strings\<close>

definition HasPrefix :: "string \<Rightarrow> string \<Rightarrow> bool" where
  "HasPrefix s p \<longleftrightarrow> take (length p) s = p"

definition HasSuffix :: "string \<Rightarrow> string \<Rightarrow> bool" where
  "HasSuffix s p \<longleftrightarrow> length p \<le> length s \<and> drop (length s - length p) s = p"

definition TrimPrefix :: "string \<Rightarrow> string \<Rightarrow> string" where
  "TrimPrefix s p = (if HasPrefix s p then drop (length p) s else s)"

definition TrimSuffix :: "string \<Rightarrow> string \<Rightarrow> string" where
  "TrimSuffix s p = (if HasSuffix s p then take (length s - length p) s else s)"

definition CutPrefix :: "string \<Rightarrow> string \<Rightarrow> string \<times> bool" where
  "CutPrefix s p = (if HasPrefix s p then (drop (length p) s, True) else (s, False))"

text \<open>\<^verbatim>\<open>strings.Cut(s, sep)\<close>: around the first occurrence of \<open>sep\<close>.\<close>

fun Cut :: "string \<Rightarrow> string \<Rightarrow> string \<times> string \<times> bool" where
  "Cut [] sep = (if sep = [] then ([], [], True) else ([], [], False))"
| "Cut (c # s) sep =
     (if HasPrefix (c # s) sep then ([], drop (length sep) (c # s), True)
      else case Cut s sep of (before, rest, found) \<Rightarrow> (c # before, rest, found))"

definition Contains :: "string \<Rightarrow> string \<Rightarrow> bool" where
  "Contains s sub \<longleftrightarrow> snd (snd (Cut s sub))"

fun Join :: "string list \<Rightarrow> string \<Rightarrow> string" where
  "Join [] sep = []"
| "Join [x] sep = x"
| "Join (x # y # ys) sep = x @ sep @ Join (y # ys) sep"

text \<open>\<^verbatim>\<open>strings.Split\<close> at a single byte.\<close>

fun SplitChar :: "char \<Rightarrow> string \<Rightarrow> string list" where
  "SplitChar sep [] = [[]]"
| "SplitChar sep (c # s) =
     (if c = sep then [] # SplitChar sep s
      else case SplitChar sep s of [] \<Rightarrow> [[c]] | x # xs \<Rightarrow> (c # x) # xs)"

definition asciiSpace :: "char \<Rightarrow> bool" where
  "asciiSpace c \<longleftrightarrow> c \<in> {CHR 0x09, CHR 0x0A, CHR 0x0B, CHR 0x0C, CHR 0x0D, CHR 0x20}"

text \<open>\<^verbatim>\<open>strings.TrimSpace\<close> on text whose outer white space is ASCII.\<close>

definition TrimSpace :: "string \<Rightarrow> string" where
  "TrimSpace s = rev (dropWhile asciiSpace (rev (dropWhile asciiSpace s)))"

definition byte :: "char \<Rightarrow> nat" where
  "byte c = of_char c"

definition inRange :: "char \<Rightarrow> char \<Rightarrow> char \<Rightarrow> bool" where
  "inRange lo hi c \<longleftrightarrow> lo \<le> c \<and> c \<le> hi"

definition lowerChar :: "char \<Rightarrow> char" where
  "lowerChar c = (if inRange (CHR ''A'') (CHR ''Z'') c then char_of (byte c + 32) else c)"

text \<open>\<^verbatim>\<open>strings.ToLower\<close> on ASCII letters; other bytes are kept.\<close>

definition ToLower :: "string \<Rightarrow> string" where
  "ToLower s = map lowerChar s"

fun natDigits :: "nat \<Rightarrow> string" where
  "natDigits n = (if n < 10 then [char_of (48 + n)] else natDigits (n div 10) @ [char_of (48 + n mod 10)])"

declare natDigits.simps [simp del]

text \<open>Decimal notation, as \<^verbatim>\<open>%d\<close> prints it.\<close>

definition itoa :: "int \<Rightarrow> string" where
  "itoa i = (if i < 0 then CHR ''-'' # natDigits (nat (- i)) else natDigits (nat i))"

text \<open>\<^verbatim>\<open>Duration.String\<close>: \<^verbatim>\<open>fmtFrac\<close> prints the lowest \<open>prec\<close> decimal digits without trailing zeros.\<close>

fun fracDigits :: "nat \<Rightarrow> int \<Rightarrow> string" where
  "fracDigits 0 v = []"
| "fracDigits (Suc prec) v = fracDigits prec (v div 10) @ [char_of (48 + nat (v mod 10))]"

definition fmtFrac :: "nat \<Rightarrow> int \<Rightarrow> string" where
  "fmtFrac prec v = (let ds = rev (dropWhile (\<lambda>c. c = CHR ''0'') (rev (fracDigits prec v)))
     in itoa (v div 10 ^ prec) @ (if ds = [] then [] else CHR ''.'' # ds))"

definition durationMagnitude :: "int \<Rightarrow> string" where
  "durationMagnitude u =
     (if u = 0 then ''0s''
      else if u < 1000 then itoa u @ ''ns''
      else if u < 1000000 then fmtFrac 3 u @ [CHR 0xC2, CHR 0xB5, CHR ''s'']
      else if u < 1000000000 then fmtFrac 6 u @ ''ms''
      else let mins = u div 60000000000; hours = mins div 60; s = fmtFrac 9 (u mod 60000000000) @ ''s''
           in if mins = 0 then s
              else if hours = 0 then itoa mins @ ''m'' @ s
              else itoa hours @ ''h'' @ itoa (mins mod 60) @ ''m'' @ s)"

definition durationString :: "duration \<Rightarrow> string" where
  "durationString d = (if d < 0 then CHR ''-'' # durationMagnitude (- d) else durationMagnitude d)"

text \<open>\<^verbatim>\<open>Duration.Round\<close> for a positive unit: to the nearest multiple, halves away from zero; a result out
  of range is clamped.\<close>

definition roundDuration :: "duration \<Rightarrow> duration \<Rightarrow> duration" where
  "roundDuration d m =
     (let r = \<bar>d\<bar> mod m; lo = \<bar>d\<bar> - r; v = (if r + r < m then lo else lo + m)
      in max minInt64 (min maxInt64 (sgn d * v)))"

text \<open>\<^verbatim>\<open>strconv.Atoi\<close>: an optional sign and decimal digits, in the range of an \<^verbatim>\<open>int64\<close>.\<close>

definition isDigit :: "char \<Rightarrow> bool" where
  "isDigit c \<longleftrightarrow> inRange (CHR ''0'') (CHR ''9'') c"

definition digitsValue :: "string \<Rightarrow> int" where
  "digitsValue s = foldl (\<lambda>n c. 10 * n + (int (byte c) - 48)) 0 s"

definition Atoi :: "string \<Rightarrow> int option" where
  "Atoi s =
     (let neg = HasPrefix s ''-''; ds = (if neg \<or> HasPrefix s ''+'' then tl s else s);
          v = (if neg then - digitsValue ds else digitsValue ds)
      in if ds \<noteq> [] \<and> list_all isDigit ds \<and> minInt64 \<le> v \<and> v \<le> maxInt64 then Some v else None)"

text \<open>\<^verbatim>\<open>%q\<close> on text without invalid or unprintable runes beyond ASCII.\<close>

definition hexDigit :: "nat \<Rightarrow> char" where
  "hexDigit n = ''0123456789abcdef'' ! (n mod 16)"

definition quoteChar :: "char \<Rightarrow> string" where
  "quoteChar c =
     (if c = CHR 0x22 then [CHR 0x5C, CHR 0x22]
      else if c = CHR 0x5C then [CHR 0x5C, CHR 0x5C]
      else if c = CHR 0x07 then CHR 0x5C # ''a''
      else if c = CHR 0x08 then CHR 0x5C # ''b''
      else if c = CHR 0x0C then CHR 0x5C # ''f''
      else if c = CHR 0x0A then CHR 0x5C # ''n''
      else if c = CHR 0x0D then CHR 0x5C # ''r''
      else if c = CHR 0x09 then CHR 0x5C # ''t''
      else if c = CHR 0x0B then CHR 0x5C # ''v''
      else if byte c < 32 \<or> byte c = 127
        then CHR 0x5C # ''x'' @ [hexDigit (byte c div 16), hexDigit (byte c)]
      else [c])"

definition Quote :: "string \<Rightarrow> string" where
  "Quote s = CHR 0x22 # concat (map quoteChar s) @ [CHR 0x22]"

text \<open>
  UTF-8 as \<^verbatim>\<open>range\<close> over a string decodes it: the width of the first rune, 1 for a byte that starts
  no valid sequence, and \<^verbatim>\<open>utf8.RuneStart\<close>.
\<close>

definition cont :: "nat \<Rightarrow> bool" where
  "cont b \<longleftrightarrow> 0x80 \<le> b \<and> b \<le> 0xBF"

fun runeWidth :: "nat list \<Rightarrow> nat" where
  "runeWidth (a # b # c # d # _) =
     (if 0xC2 \<le> a \<and> a \<le> 0xDF \<and> cont b then 2
      else if (a = 0xE0 \<and> 0xA0 \<le> b \<and> b \<le> 0xBF \<or> (0xE1 \<le> a \<and> a \<le> 0xEC \<or> a = 0xEE \<or> a = 0xEF) \<and> cont b
               \<or> a = 0xED \<and> 0x80 \<le> b \<and> b \<le> 0x9F) \<and> cont c then 3
      else if (a = 0xF0 \<and> 0x90 \<le> b \<and> b \<le> 0xBF \<or> 0xF1 \<le> a \<and> a \<le> 0xF3 \<and> cont b
               \<or> a = 0xF4 \<and> 0x80 \<le> b \<and> b \<le> 0x8F) \<and> cont c \<and> cont d then 4
      else 1)"
| "runeWidth [a, b, c] =
     (if 0xC2 \<le> a \<and> a \<le> 0xDF \<and> cont b then 2
      else if (a = 0xE0 \<and> 0xA0 \<le> b \<and> b \<le> 0xBF \<or> (0xE1 \<le> a \<and> a \<le> 0xEC \<or> a = 0xEE \<or> a = 0xEF) \<and> cont b
               \<or> a = 0xED \<and> 0x80 \<le> b \<and> b \<le> 0x9F) \<and> cont c then 3
      else 1)"
| "runeWidth [a, b] = (if 0xC2 \<le> a \<and> a \<le> 0xDF \<and> cont b then 2 else 1)"
| "runeWidth _ = 1"

lemma runeWidth_pos: "0 < runeWidth bs"
  by (induction bs rule: runeWidth.induct) auto

function runes :: "string \<Rightarrow> string list" where
  "runes s = (if s = [] then [] else take (runeWidth (map byte s)) s # runes (drop (runeWidth (map byte s)) s))"
  by pat_completeness auto
termination
  by (relation "measure length") (auto simp: runeWidth_pos)

declare runes.simps [simp del]

definition RuneStart :: "char \<Rightarrow> bool" where
  "RuneStart c \<longleftrightarrow> \<not> cont (byte c)"

text \<open>The loop that moves a cut position back to the start of a rune.\<close>

fun runeCut :: "string \<Rightarrow> nat \<Rightarrow> nat" where
  "runeCut s 0 = 0"
| "runeCut s (Suc k) = (if RuneStart (s ! Suc k) then Suc k else runeCut s k)"

lemma runeCut_le: "runeCut s k \<le> k"
  by (induction k) auto

lemma runeCut_start: "runeCut s k = 0 \<or> RuneStart (s ! runeCut s k)"
  by (induction k) auto

lemma runeCut_maximal: "runeCut s k < j \<Longrightarrow> j \<le> k \<Longrightarrow> \<not> RuneStart (s ! j)"
  by (induction k) (auto split: if_splits simp: le_Suc_eq)

lemma HasPrefix_iff: "HasPrefix s p \<longleftrightarrow> prefix p s"
  by (metis HasPrefix_def append_eq_conv_conj prefixI take_is_prefix prefix_def)

lemma HasPrefix_append [simp]: "HasPrefix (p @ s) p"
  by (simp add: HasPrefix_def)

lemma HasPrefix_Nil [simp]: "HasPrefix s []"
  by (simp add: HasPrefix_def)

lemma TrimPrefix_append [simp]: "TrimPrefix (p @ s) p = s"
  by (simp add: TrimPrefix_def)

lemma HasSuffix_iff: "HasSuffix s p \<longleftrightarrow> (\<exists>q. s = q @ p)"
  unfolding HasSuffix_def
  by (metis append_eq_conv_conj append_take_drop_id length_append le_add2 add_diff_cancel_right' drop_append
      append_Nil diff_self_eq_0 drop_0 drop_all order_refl)

lemma Cut_split: "Cut s sep = (a, b, True) \<Longrightarrow> s = a @ sep @ b"
proof (induction s sep arbitrary: a b rule: Cut.induct)
  case (2 c s sep)
  show ?case
  proof (cases "HasPrefix (c # s) sep")
    case True
    with "2.prems" show ?thesis
      by (auto simp: HasPrefix_def) (metis append_take_drop_id)
  next
    case False
    with "2.prems" obtain a' where "Cut s sep = (a', b, True)" and "a = c # a'"
      by (auto split: prod.splits)
    with "2.IH" False show ?thesis by auto
  qed
qed (auto split: if_splits)

lemma Cut_none: "Cut s sep = (a, b, False) \<Longrightarrow> a = s \<and> b = []"
  by (induction s sep arbitrary: a b rule: Cut.induct) (auto split: if_splits prod.splits)

lemma SplitChar_nonempty [simp]: "SplitChar c s \<noteq> []"
  by (cases s) (auto split: list.splits)

lemma Join_SplitChar: "Join (SplitChar c s) [c] = s"
proof (induction s)
  case (Cons d s)
  then show ?case by (cases "SplitChar c s") (auto, (metis SplitChar_nonempty neq_Nil_conv Join.simps(2,3) append_Cons append_Nil)+)
qed simp

section \<open>Errors\<close>

text \<open>
  What \<^verbatim>\<open>errors.Is\<close>, \<^verbatim>\<open>errors.As\<close> and the predicates of the Docker packages recognise in a leaf of
  an error tree. \<open>NetErr b\<close> is an error whose type implements \<^verbatim>\<open>net.Error\<close>, with \<^verbatim>\<open>Timeout()\<close>
  equal to \<open>b\<close>.
\<close>

datatype errKind =
    Plain
  | DeadlineExceeded
  | Canceled
  | ErrRegistryUnavailable
  | ConnectionFailed
  | ECONNREFUSED
  | ECONNRESET
  | EPIPE
  | NetErr bool
  | ErrNotExist
  | ErrNoStacks
  | ErrDegraded
  | NotFound
  | InvalidArgument
  | Unauthorized
  | PermissionDenied
  | OutOfFuel

datatype err =
    Leaf errKind string
  | Wrap string err string
  | Wrap2 string err string err string
  | Joined "err list"

fun errText :: "err \<Rightarrow> string" where
  "errText (Leaf k s) = s"
| "errText (Wrap pre e post) = pre @ errText e @ post"
| "errText (Wrap2 pre e mid e' post) = pre @ errText e @ mid @ errText e' @ post"
| "errText (Joined es) = Join (map errText es) [CHR 0x0A]"

text \<open>The leaves in the order in which \<^verbatim>\<open>errors.Is\<close> and \<^verbatim>\<open>errors.As\<close> visit them.\<close>

fun errLeaves :: "err \<Rightarrow> errKind list" where
  "errLeaves (Leaf k s) = [k]"
| "errLeaves (Wrap pre e post) = errLeaves e"
| "errLeaves (Wrap2 pre e mid e' post) = errLeaves e @ errLeaves e'"
| "errLeaves (Joined es) = concat (map errLeaves es)"

definition errIs :: "err \<Rightarrow> errKind \<Rightarrow> bool" where
  "errIs e k \<longleftrightarrow> k \<in> set (errLeaves e)"

text \<open>\<^verbatim>\<open>errors.New\<close> and \<^verbatim>\<open>fmt.Errorf\<close> without \<^verbatim>\<open>%w\<close>; \<^verbatim>\<open>fmt.Errorf("pre%w", e)\<close>.\<close>

definition errorf :: "string \<Rightarrow> err" where
  "errorf s = Leaf Plain s"

definition wrapf :: "string \<Rightarrow> err \<Rightarrow> err" where
  "wrapf pre e = Wrap pre e []"

text \<open>\<^verbatim>\<open>errors.Join\<close>: nil errors are dropped, and nothing left is nil.\<close>

definition errJoin :: "err option list \<Rightarrow> err option" where
  "errJoin es = (let xs = concat (map (\<lambda>e. case e of None \<Rightarrow> [] | Some x \<Rightarrow> [x]) es)
     in if xs = [] then None else Some (Joined xs))"

lemma errIs_wrapf [simp]: "errIs (wrapf pre e) k = errIs e k"
  by (simp add: errIs_def wrapf_def)

lemma errIs_errorf [simp]: "errIs (errorf s) k \<longleftrightarrow> k = Plain"
  by (auto simp: errIs_def errorf_def)

lemma errJoin_None_iff: "errJoin es = None \<longleftrightarrow> (\<forall>e \<in> set es. e = None)"
  by (auto simp: errJoin_def Let_def split: option.splits)

section \<open>Programs with effects\<close>

text \<open>
  The context of a call. The caller's context can be cancelled by a signal at any time; the
  derived ones say how a callee's cancellation relates to it.
\<close>

datatype ctx = CallerCtx | WithCancel ctx bool | WithTimeout ctx duration | WithoutCancel ctx

abbreviation ret :: "'a \<Rightarrow> ('w, 'a) state" where
  "ret \<equiv> State_Monad.return"

text \<open>A loop over a slice that threads a value, and one that stops at the first error.\<close>

fun foldM :: "('a \<Rightarrow> 'b \<Rightarrow> ('w, 'b) state) \<Rightarrow> 'a list \<Rightarrow> 'b \<Rightarrow> ('w, 'b) state" where
  "foldM f [] b = ret b"
| "foldM f (x # xs) b = do { b' \<leftarrow> f x b; foldM f xs b' }"

fun tryEach :: "('a \<Rightarrow> ('w, 'e + 'b) state) \<Rightarrow> 'a list \<Rightarrow> ('w, 'e + 'b list) state" where
  "tryEach f [] = ret (Inr [])"
| "tryEach f (x # xs) = do {
     r \<leftarrow> f x;
     case r of
       Inl e \<Rightarrow> ret (Inl e)
     | Inr y \<Rightarrow> do {
         r' \<leftarrow> tryEach f xs;
         case r' of Inl e \<Rightarrow> ret (Inl e) | Inr ys \<Rightarrow> ret (Inr (y # ys))
       }
   }"

definition wp :: "('w, 'a) state \<Rightarrow> ('a \<Rightarrow> 'w \<Rightarrow> bool) \<Rightarrow> 'w \<Rightarrow> bool" where
  "wp m Q w = (case run_state m w of (a, w') \<Rightarrow> Q a w')"

definition keeps :: "('w \<Rightarrow> bool) \<Rightarrow> ('w, 'a) state \<Rightarrow> bool" where
  "keeps I m \<longleftrightarrow> (\<forall>w. I w \<longrightarrow> I (snd (run_state m w)))"

lemma wp_return [wp_simps]: "wp (ret a) Q w = Q a w"
  by (simp add: wp_def)

lemma wp_bind [wp_simps]: "wp (m \<bind> f) Q w = wp m (\<lambda>a. wp (f a) Q) w"
  by (simp add: wp_def split: prod.splits)

lemma wp_mono: "wp m Q w \<Longrightarrow> (\<And>a w'. Q a w' \<Longrightarrow> R a w') \<Longrightarrow> wp m R w"
  by (auto simp: wp_def split: prod.splits)

lemma wp_conj: "wp m Q w \<Longrightarrow> wp m R w \<Longrightarrow> wp m (\<lambda>a w'. Q a w' \<and> R a w') w"
  by (auto simp: wp_def split: prod.splits)

lemma wp_trivial: "(\<And>a w'. Q a w') \<Longrightarrow> wp m Q w"
  by (auto simp: wp_def split: prod.splits)

lemma wpD: "wp m Q w \<Longrightarrow> run_state m w = (a, w') \<Longrightarrow> Q a w'"
  by (simp add: wp_def)

lemma wpI: "(\<And>a w'. run_state m w = (a, w') \<Longrightarrow> Q a w') \<Longrightarrow> wp m Q w"
  by (auto simp: wp_def split: prod.splits)

lemma keepsI: "(\<And>w a w'. I w \<Longrightarrow> run_state m w = (a, w') \<Longrightarrow> I w') \<Longrightarrow> keeps I m"
  unfolding keeps_def by (metis prod.collapse)

lemma keepsD: "keeps I m \<Longrightarrow> I w \<Longrightarrow> run_state m w = (a, w') \<Longrightarrow> I w'"
  by (force simp: keeps_def)

lemma keeps_wp: "keeps I m \<Longrightarrow> I w \<Longrightarrow> wp m (\<lambda>_. I) w"
  by (auto simp: keeps_def wp_def split: prod.splits)

lemma keeps_return [keeps_intros]: "keeps I (ret a)"
  by (simp add: keeps_def)

lemma keeps_bind [keeps_intros]: "keeps I m \<Longrightarrow> (\<And>a. keeps I (f a)) \<Longrightarrow> keeps I (m \<bind> f)"
  by (auto simp: keeps_def split: prod.splits)

lemma keeps_if [keeps_intros]: "(b \<Longrightarrow> keeps I m) \<Longrightarrow> (\<not> b \<Longrightarrow> keeps I n) \<Longrightarrow> keeps I (if b then m else n)"
  by simp

lemma keeps_bool [keeps_intros]:
  "(b \<Longrightarrow> keeps I m) \<Longrightarrow> (\<not> b \<Longrightarrow> keeps I n) \<Longrightarrow> keeps I (case b of True \<Rightarrow> m | False \<Rightarrow> n)"
  by (cases b) simp_all

lemma keeps_option [keeps_intros]:
  "(x = None \<Longrightarrow> keeps I m) \<Longrightarrow> (\<And>y. x = Some y \<Longrightarrow> keeps I (f y)) \<Longrightarrow>
     keeps I (case x of None \<Rightarrow> m | Some y \<Rightarrow> f y)"
  by (cases x) auto

lemma keeps_sum [keeps_intros]:
  "(\<And>y. x = Inl y \<Longrightarrow> keeps I (f y)) \<Longrightarrow> (\<And>y. x = Inr y \<Longrightarrow> keeps I (g y)) \<Longrightarrow>
     keeps I (case x of Inl y \<Rightarrow> f y | Inr y \<Rightarrow> g y)"
  by (cases x) auto

lemma keeps_prod [keeps_intros]:
  "(\<And>y z. x = (y, z) \<Longrightarrow> keeps I (f y z)) \<Longrightarrow> keeps I (case x of (y, z) \<Rightarrow> f y z)"
  by (cases x) auto

lemma keeps_list [keeps_intros]:
  "(x = [] \<Longrightarrow> keeps I m) \<Longrightarrow> (\<And>y ys. x = y # ys \<Longrightarrow> keeps I (f y ys)) \<Longrightarrow>
     keeps I (case x of [] \<Rightarrow> m | y # ys \<Rightarrow> f y ys)"
  by (cases x) auto

lemma keeps_Let [keeps_intros]: "(\<And>y. y = x \<Longrightarrow> keeps I (f y)) \<Longrightarrow> keeps I (let y = x in f y)"
  by simp

lemma keeps_foldM [keeps_intros]: "(\<And>x b. x \<in> set xs \<Longrightarrow> keeps I (f x b)) \<Longrightarrow> keeps I (foldM f xs b)"
  by (induction xs arbitrary: b) (auto intro!: keeps_intros)

lemma keeps_tryEach [keeps_intros]: "(\<And>x. x \<in> set xs \<Longrightarrow> keeps I (f x)) \<Longrightarrow> keeps I (tryEach f xs)"
  by (induction xs) (auto intro!: keeps_intros)

lemma tryEach_length: "run_state (tryEach f xs) w = (Inr ys, w') \<Longrightarrow> length ys = length xs"
  by (induction xs arbitrary: ys w) (auto split: prod.splits sum.splits)

text \<open>The same judgement as introduction rules: \<open>intro wp_intros\<close> walks through a program.\<close>

lemma wp_bindI: "wp m (\<lambda>a. wp (f a) Q) w \<Longrightarrow> wp (m \<bind> f) Q w"
  by (simp add: wp_bind)

lemma wp_returnI: "Q a w \<Longrightarrow> wp (ret a) Q w"
  by (simp add: wp_return)

lemma wp_ifI: "(b \<Longrightarrow> wp m Q w) \<Longrightarrow> (\<not> b \<Longrightarrow> wp n Q w) \<Longrightarrow> wp (if b then m else n) Q w"
  by simp

lemma wp_optionI:
  "(x = None \<Longrightarrow> wp m Q w) \<Longrightarrow> (\<And>y. x = Some y \<Longrightarrow> wp (f y) Q w) \<Longrightarrow> wp (case x of None \<Rightarrow> m | Some y \<Rightarrow> f y) Q w"
  by (cases x) auto

lemma wp_sumI:
  "(\<And>y. x = Inl y \<Longrightarrow> wp (f y) Q w) \<Longrightarrow> (\<And>y. x = Inr y \<Longrightarrow> wp (g y) Q w) \<Longrightarrow>
     wp (case x of Inl y \<Rightarrow> f y | Inr y \<Rightarrow> g y) Q w"
  by (cases x) auto

lemma wp_prodI: "(\<And>y z. x = (y, z) \<Longrightarrow> wp (f y z) Q w) \<Longrightarrow> wp (case x of (y, z) \<Rightarrow> f y z) Q w"
  by (cases x) auto

lemma wp_LetI: "(\<And>y. y = x \<Longrightarrow> wp (f y) Q w) \<Longrightarrow> wp (let y = x in f y) Q w"
  by simp

lemmas wp_intros = wp_bindI wp_returnI wp_ifI wp_optionI wp_sumI wp_prodI wp_LetI

lemma wp_keepsI: "keeps I m \<Longrightarrow> I w \<Longrightarrow> (\<And>a w'. I w' \<Longrightarrow> Q a w') \<Longrightarrow> wp m Q w"
  by (auto simp: keeps_def wp_def split: prod.splits)

lemma keeps_wpI: "(\<And>w. I w \<Longrightarrow> wp m (\<lambda>_. I) w) \<Longrightarrow> keeps I m"
  by (rule keepsI) (blast dest: wpD)

end
