(* ===== verification/StateFile.thy ===== *)
theory StateFile
  imports CL_Prelude
begin

text \<open>
  The persisted deployment state: \<^verbatim>\<open>internal/state/state.go\<close>. The record \<open>State\<close> and its operations
  (failed-commit memory, pause, history, pending deployment), its JSON document, and the two
  stores: \<open>FileStore\<close> over a small model of a disk whose write path can fail at each system
  call, and \<open>MemStore\<close>. Locale \<open>state_store\<close> is the contract of the Go interface
  \<^verbatim>\<open>state.Store\<close>; both stores interpret it. Locale \<open>capped_log\<close> is what the two bounded lists
  (failed commits, history) share.

  Slices are lists: an empty and a nil slice are not distinguished, which only the presence of
  an empty array in the JSON document depends on.
\<close>

section \<open>The state record\<close>

definition schemaVersion :: int where
  "schemaVersion = 2"

definition maxFailedCommits :: nat where
  "maxFailedCommits = 16"

definition maxHistory :: nat where
  "maxHistory = 20"

datatype StateResult =
    ResultNone
  | ResultSuccess
  | ResultFailedGit
  | ResultFailedPreflight
  | ResultSkippedKnownBad
  | ResultFailedApply
  | ResultReverted
  | ResultDegraded
  | ResultOther string

record Deployment =
  d_At :: time
  d_Commit :: string
  d_Result :: StateResult
  d_RolledBackTo :: string
  d_Error :: string
  d_Repeats :: int

record State =
  SchemaVersion :: int
  LastHealthyCommit :: string
  LastHealthyAt :: time
  LastHealthyStacks :: "string list"
  LastCheckoutCommit :: string
  LastFailedCommit :: string
  LastFailedAt :: time
  FailedCommits :: "string list"
  PreflightBlocks :: int
  LastResult :: StateResult
  LastAttemptCommit :: string
  LastAttemptAt :: time
  PendingCommit :: string
  PendingSince :: time
  PendingAttempts :: int
  PendingStacks :: "string list"
  PendingRevert :: bool
  PausedAt :: time
  PausedUntil :: time
  PauseReason :: string
  History :: "Deployment list"

definition zeroState :: State where
  "zeroState = \<lparr>SchemaVersion = 0, LastHealthyCommit = [], LastHealthyAt = zeroTime,
     LastHealthyStacks = [], LastCheckoutCommit = [], LastFailedCommit = [], LastFailedAt = zeroTime,
     FailedCommits = [], PreflightBlocks = 0, LastResult = ResultNone, LastAttemptCommit = [],
     LastAttemptAt = zeroTime, PendingCommit = [], PendingSince = zeroTime, PendingAttempts = 0,
     PendingStacks = [], PendingRevert = False, PausedAt = zeroTime, PausedUntil = zeroTime,
     PauseReason = [], History = []\<rparr>"

definition New :: State where
  "New = zeroState\<lparr>SchemaVersion := schemaVersion\<rparr>"

section \<open>Operations on the state\<close>

definition Pending :: "State \<Rightarrow> bool" where
  "Pending s \<longleftrightarrow> PendingCommit s \<noteq> [] \<or> PendingRevert s"

definition RevertInProgress :: "State \<Rightarrow> bool" where
  "RevertInProgress s \<longleftrightarrow>
     PendingRevert s \<or> (PendingCommit s \<noteq> [] \<and> PendingCommit s = LastFailedCommit s)"

definition IsKnownBad :: "State \<Rightarrow> string \<Rightarrow> bool" where
  "IsKnownBad s commit \<longleftrightarrow>
     (if commit = [] then False else commit = LastFailedCommit s \<or> commit \<in> set (FailedCommits s))"

text \<open>The last \<open>n\<close> elements of a slice: \<^verbatim>\<open>xs[len(xs)-n:]\<close> when it is longer than \<open>n\<close>.\<close>

definition lastN :: "nat \<Rightarrow> 'a list \<Rightarrow> 'a list" where
  "lastN n xs = (if n < length xs then drop (length xs - n) xs else xs)"

definition MarkFailed :: "State \<Rightarrow> string \<Rightarrow> time \<Rightarrow> State" where
  "MarkFailed s commit at =
     (let s' = s\<lparr>LastFailedCommit := commit, LastFailedAt := at\<rparr>
      in if commit = [] then s'
         else let kept = filter (\<lambda>c. c \<noteq> commit) (FailedCommits s') @ [commit]
              in s'\<lparr>FailedCommits := lastN maxFailedCommits kept\<rparr>)"

definition ForgetFailed :: "State \<Rightarrow> string \<Rightarrow> State" where
  "ForgetFailed s commit =
     (let s' = (if LastFailedCommit s = commit
                then s\<lparr>LastFailedCommit := [], LastFailedAt := zeroTime\<rparr> else s)
      in if commit \<notin> set (FailedCommits s') then s'
         else s'\<lparr>FailedCommits := filter (\<lambda>c. c \<noteq> commit) (FailedCommits s')\<rparr>)"

definition ForgetAllFailed :: "State \<Rightarrow> State" where
  "ForgetAllFailed s = s\<lparr>LastFailedCommit := [], LastFailedAt := zeroTime, FailedCommits := []\<rparr>"

definition Paused :: "State \<Rightarrow> time \<Rightarrow> bool" where
  "Paused s now \<longleftrightarrow> \<not> IsZero (PausedAt s) \<and> (IsZero (PausedUntil s) \<or> now < PausedUntil s)"

definition Pause :: "State \<Rightarrow> time \<Rightarrow> time \<Rightarrow> string \<Rightarrow> State" where
  "Pause s at until reason = s\<lparr>PausedAt := at, PausedUntil := until, PauseReason := reason\<rparr>"

definition Resume :: "State \<Rightarrow> State" where
  "Resume s = s\<lparr>PausedAt := zeroTime, PausedUntil := zeroTime, PauseReason := []\<rparr>"

definition Record :: "State \<Rightarrow> Deployment \<Rightarrow> State" where
  "Record s d =
     (let history = History s;
          history' = (if history \<noteq> [] \<and> d_Commit (last history) = d_Commit d
                        \<and> d_Result (last history) = d_Result d
                      then butlast history @ [d\<lparr>d_Repeats := d_Repeats (last history) + 1\<rparr>]
                      else history @ [d])
      in s\<lparr>History := lastN maxHistory history'\<rparr>)"

definition ExpectedCheckout :: "State \<Rightarrow> string" where
  "ExpectedCheckout s =
     (if LastCheckoutCommit s \<noteq> [] then LastCheckoutCommit s else LastHealthyCommit s)"

section \<open>Well-formedness\<close>

text \<open>What every operation keeps: the failed-commit memory is a bounded set of commit ids that
  holds the latest failure, and the history is bounded.\<close>

definition wfState :: "State \<Rightarrow> bool" where
  "wfState s \<longleftrightarrow> distinct (FailedCommits s) \<and> [] \<notin> set (FailedCommits s)
     \<and> length (FailedCommits s) \<le> maxFailedCommits
     \<and> (LastFailedCommit s = [] \<or> LastFailedCommit s \<in> set (FailedCommits s))
     \<and> length (History s) \<le> maxHistory"

lemma length_lastN [simp]: "length (lastN n xs) = min n (length xs)"
  by (auto simp: lastN_def)

lemma set_lastN: "set (lastN n xs) \<subseteq> set xs"
  by (auto simp: lastN_def dest: in_set_dropD)

lemma lastN_snoc: "0 < n \<Longrightarrow> lastN n (xs @ [x]) = lastN (n - 1) xs @ [x]"
  by (auto simp: lastN_def)

lemma last_lastN [simp]: "0 < n \<Longrightarrow> xs \<noteq> [] \<Longrightarrow> last (lastN n xs) = last xs"
  by (auto simp: lastN_def)

lemma distinct_lastN: "distinct xs \<Longrightarrow> distinct (lastN n xs)"
  by (auto simp: lastN_def)

lemma suffix_lastN: "suffix (lastN n xs) xs"
  by (auto simp: lastN_def suffix_drop)

lemma FailedCommits_MarkFailed [simp]:
  "commit \<noteq> [] \<Longrightarrow>
   FailedCommits (MarkFailed s commit at) =
     lastN maxFailedCommits (filter (\<lambda>c. c \<noteq> commit) (FailedCommits s) @ [commit])"
  by (simp add: MarkFailed_def Let_def)

lemma MarkFailed_known_bad: "commit \<noteq> [] \<Longrightarrow> IsKnownBad (MarkFailed s commit at) commit"
  by (simp add: IsKnownBad_def MarkFailed_def Let_def)

lemma MarkFailed_frame [simp]:
  "LastHealthyCommit (MarkFailed s c at) = LastHealthyCommit s"
  "LastHealthyStacks (MarkFailed s c at) = LastHealthyStacks s"
  "LastCheckoutCommit (MarkFailed s c at) = LastCheckoutCommit s"
  "PreflightBlocks (MarkFailed s c at) = PreflightBlocks s"
  "LastResult (MarkFailed s c at) = LastResult s"
  "PendingCommit (MarkFailed s c at) = PendingCommit s"
  "PendingStacks (MarkFailed s c at) = PendingStacks s"
  "PendingRevert (MarkFailed s c at) = PendingRevert s"
  "PendingAttempts (MarkFailed s c at) = PendingAttempts s"
  "PendingSince (MarkFailed s c at) = PendingSince s"
  "History (MarkFailed s c at) = History s"
  "LastFailedCommit (MarkFailed s c at) = c"
  "SchemaVersion (MarkFailed s c at) = SchemaVersion s"
  by (simp_all add: MarkFailed_def Let_def)

lemma wfState_MarkFailed: "wfState s \<Longrightarrow> wfState (MarkFailed s commit at)"
  by (cases "commit = []")
    (auto simp: wfState_def MarkFailed_def Let_def maxFailedCommits_def lastN_snoc
      dest!: set_lastN [THEN subsetD] intro!: distinct_lastN)

lemma wfState_ForgetFailed: "wfState s \<Longrightarrow> wfState (ForgetFailed s commit)"
  by (auto simp: wfState_def ForgetFailed_def Let_def
      intro: order_trans [OF length_filter_le])

lemma wfState_ForgetAllFailed: "wfState s \<Longrightarrow> wfState (ForgetAllFailed s)"
  by (simp add: wfState_def ForgetAllFailed_def)

lemma wfState_Record: "wfState s \<Longrightarrow> wfState (Record s d)"
  by (simp add: wfState_def Record_def Let_def)

lemma wfState_Pause: "wfState s \<Longrightarrow> wfState (Pause s at until reason)"
  by (simp add: wfState_def Pause_def)

lemma wfState_Resume: "wfState s \<Longrightarrow> wfState (Resume s)"
  by (simp add: wfState_def Resume_def)

lemma wfState_New: "wfState New"
  by (simp add: wfState_def New_def zeroState_def)


section \<open>Bounded logs\<close>

text \<open>
  Both lists of the state are append-only logs with a cap: adding puts the entry last, and what
  was there before survives unless it is the entry itself or the cap pushes it out.
\<close>

locale capped_log =
  fixes add :: "'l \<Rightarrow> 'e \<Rightarrow> 'l"
    and entries :: "'l \<Rightarrow> 'k list"
    and key :: "'e \<Rightarrow> 'k"
    and admissible :: "'e \<Rightarrow> bool"
    and cap :: nat
  assumes cap_pos: "0 < cap"
    and add_entries: "admissible e \<Longrightarrow>
      \<exists>kept. (kept = filter (\<lambda>k. k \<noteq> key e) (entries l) \<or> kept = entries l
               \<or> (entries l \<noteq> [] \<and> last (entries l) = key e \<and> kept = butlast (entries l)))
        \<and> entries (add l e) = lastN cap (kept @ [key e])"
begin

lemma add_bounded: "admissible e \<Longrightarrow> length (entries (add l e)) \<le> cap"
  using add_entries [of e l] by auto

lemma add_newest: "admissible e \<Longrightarrow> entries (add l e) \<noteq> [] \<and> last (entries (add l e)) = key e"
proof -
  assume "admissible e"
  then obtain kept where eq: "entries (add l e) = lastN cap (kept @ [key e])"
    using add_entries [of e l] by blast
  show ?thesis using cap_pos by (simp add: eq lastN_snoc)
qed

lemma add_old: "admissible e \<Longrightarrow> set (entries (add l e)) \<subseteq> insert (key e) (set (entries l))"
proof -
  assume "admissible e"
  then obtain kept where "kept = filter (\<lambda>k. k \<noteq> key e) (entries l) \<or> kept = entries l \<or> kept = butlast (entries l)"
    and eq: "entries (add l e) = lastN cap (kept @ [key e])"
    using add_entries [of e l] by blast
  then have "set kept \<subseteq> set (entries l)"
    by (auto dest: in_set_butlastD)
  then show ?thesis using eq set_lastN [of cap "kept @ [key e]"] by auto
qed

lemma adds_bounded:
  "list_all admissible es \<Longrightarrow> length (entries l) \<le> cap \<Longrightarrow> length (entries (foldl add l es)) \<le> cap"
  by (induction es arbitrary: l) (auto simp: add_bounded)

lemma adds_newest:
  "list_all admissible es \<Longrightarrow> es \<noteq> [] \<Longrightarrow>
     entries (foldl add l es) \<noteq> [] \<and> last (entries (foldl add l es)) = key (last es)"
  by (cases es rule: rev_cases) (auto simp: add_newest)

end

interpretation failed_log: capped_log
  "\<lambda>s (c, at). MarkFailed s c at" FailedCommits fst "\<lambda>(c, at). c \<noteq> []" maxFailedCommits
  by unfold_locales (auto simp: maxFailedCommits_def)

definition historyKey :: "Deployment \<Rightarrow> string \<times> StateResult" where
  "historyKey d = (d_Commit d, d_Result d)"

interpretation history_log: capped_log
  Record "\<lambda>s. map historyKey (History s)" historyKey "\<lambda>_. True" maxHistory
proof unfold_locales
  fix e :: Deployment and l :: State
  have lastN_map: "map f (lastN n xs) = lastN n (map f xs)" for f :: "Deployment \<Rightarrow> string \<times> StateResult" and n xs
    by (simp add: lastN_def drop_map)
  show "\<exists>kept. (kept = filter (\<lambda>k. k \<noteq> historyKey e) (map historyKey (History l))
        \<or> kept = map historyKey (History l)
        \<or> (map historyKey (History l) \<noteq> [] \<and> last (map historyKey (History l)) = historyKey e
            \<and> kept = butlast (map historyKey (History l))))
      \<and> map historyKey (History (Record l e)) = lastN maxHistory (kept @ [historyKey e])"
    by (cases "History l \<noteq> [] \<and> historyKey (last (History l)) = historyKey e")
      (auto simp: Record_def Let_def lastN_map historyKey_def last_map map_butlast)
qed (simp add: maxHistory_def)

text \<open>
  The memory of failed commits is exactly the last \<open>maxFailedCommits\<close> different commits that
  failed, oldest first: \<^const>\<open>remdups\<close> keeps the last occurrence of each.
\<close>

lemma lastN_filter_remove1:
  "distinct xs \<Longrightarrow> lastN n (filter (\<lambda>c. c \<noteq> a) (lastN (Suc n) xs)) = lastN n (filter (\<lambda>c. c \<noteq> a) xs)"
proof (induction xs arbitrary: n rule: rev_induct)
  case Nil
  then show ?case by (simp add: lastN_def)
next
  case (snoc x xs)
  show ?case
  proof (cases "x = a")
    case True
    with snoc.prems have "filter (\<lambda>c. c \<noteq> a) xs = xs" and "filter (\<lambda>c. c \<noteq> a) (lastN n xs) = lastN n xs"
      using set_lastN [of n xs] by (auto simp: filter_id_conv)
    with True show ?thesis by (auto simp: lastN_snoc lastN_def)
  next
    case False
    with snoc show ?thesis by (cases n) (auto simp: lastN_snoc lastN_def [of 0])
  qed
qed

lemma remdups_snoc: "remdups (xs @ [x]) = filter (\<lambda>c. c \<noteq> x) (remdups xs) @ [x]"
  by (induction xs) auto

lemma FailedCommits_marks:
  assumes "[] \<notin> fst ` set marks" and "FailedCommits s = []"
  shows "FailedCommits (foldl (\<lambda>s (c, at). MarkFailed s c at) s marks) =
           lastN maxFailedCommits (remdups (map fst marks))"
  using assms
proof (induction marks rule: rev_induct)
  case Nil
  then show ?case by (simp add: lastN_def)
next
  case (snoc m marks)
  obtain c at where m: "m = (c, at)" by (cases m)
  have "lastN 15 (filter (\<lambda>x. x \<noteq> c) (lastN (Suc 15) (remdups (map fst marks)))) =
        lastN 15 (filter (\<lambda>x. x \<noteq> c) (remdups (map fst marks)))"
    by (rule lastN_filter_remove1) simp
  with snoc m show ?case
    by (auto simp: maxFailedCommits_def lastN_snoc remdups_snoc eval_nat_numeral)
qed

section \<open>The JSON document\<close>

text \<open>
  The value level of \<^verbatim>\<open>encoding/json\<close>: the object that \<^verbatim>\<open>MarshalIndent\<close> prints and \<^verbatim>\<open>Unmarshal\<close>
  reads. A time is a JSON string in RFC 3339, kept as \<open>JTime\<close>. \<open>omitzero\<close> drops a field whose
  value is the zero value of its type.
\<close>

datatype json = JNull | JBool bool | JInt int | JString string | JTime time
  | JArray "json list" | JObject "(string \<times> json) list"

fun resultString :: "StateResult \<Rightarrow> string" where
  "resultString ResultNone = []"
| "resultString ResultSuccess = ''success''"
| "resultString ResultFailedGit = ''failed_git''"
| "resultString ResultFailedPreflight = ''failed_preflight''"
| "resultString ResultSkippedKnownBad = ''skipped_known_bad''"
| "resultString ResultFailedApply = ''failed_apply''"
| "resultString ResultReverted = ''reverted''"
| "resultString ResultDegraded = ''degraded''"
| "resultString (ResultOther s) = s"

definition parseResult :: "string \<Rightarrow> StateResult" where
  "parseResult s =
     (if s = [] then ResultNone
      else if s = ''success'' then ResultSuccess
      else if s = ''failed_git'' then ResultFailedGit
      else if s = ''failed_preflight'' then ResultFailedPreflight
      else if s = ''skipped_known_bad'' then ResultSkippedKnownBad
      else if s = ''failed_apply'' then ResultFailedApply
      else if s = ''reverted'' then ResultReverted
      else if s = ''degraded'' then ResultDegraded
      else ResultOther s)"

definition omitzero :: "'a \<Rightarrow> ('a \<Rightarrow> json) \<Rightarrow> string \<Rightarrow> 'a \<Rightarrow> (string \<times> json) list" where
  "omitzero zero enc name v = (if v = zero then [] else [(name, enc v)])"

definition encodeStrings :: "string list \<Rightarrow> json" where
  "encodeStrings xs = JArray (map JString xs)"

definition encodeDeployment :: "Deployment \<Rightarrow> json" where
  "encodeDeployment d = JObject
     ([(''at'', JTime (d_At d))]
      @ omitzero [] JString ''commit'' (d_Commit d)
      @ [(''result'', JString (resultString (d_Result d)))]
      @ omitzero [] JString ''rolled_back_to'' (d_RolledBackTo d)
      @ omitzero [] JString ''error'' (d_Error d)
      @ omitzero 0 JInt ''repeats'' (d_Repeats d))"

definition stateFields :: "State \<Rightarrow> (string \<times> json) list" where
  "stateFields s =
     ([(''schema_version'', JInt (SchemaVersion s)),
       (''last_healthy_commit'', JString (LastHealthyCommit s))]
      @ omitzero zeroTime JTime ''last_healthy_at'' (LastHealthyAt s)
      @ omitzero [] encodeStrings ''last_healthy_stacks'' (LastHealthyStacks s)
      @ omitzero [] JString ''last_checkout_commit'' (LastCheckoutCommit s)
      @ [(''last_failed_commit'', JString (LastFailedCommit s))]
      @ omitzero zeroTime JTime ''last_failed_at'' (LastFailedAt s)
      @ omitzero [] encodeStrings ''failed_commits'' (FailedCommits s)
      @ omitzero 0 JInt ''preflight_blocks'' (PreflightBlocks s)
      @ [(''last_result'', JString (resultString (LastResult s))),
         (''last_attempt_commit'', JString (LastAttemptCommit s))]
      @ omitzero zeroTime JTime ''last_attempt_at'' (LastAttemptAt s)
      @ [(''pending_commit'', JString (PendingCommit s))]
      @ omitzero zeroTime JTime ''pending_since'' (PendingSince s)
      @ omitzero 0 JInt ''pending_attempts'' (PendingAttempts s)
      @ omitzero [] encodeStrings ''pending_stacks'' (PendingStacks s)
      @ omitzero False JBool ''pending_revert'' (PendingRevert s)
      @ omitzero zeroTime JTime ''paused_at'' (PausedAt s)
      @ omitzero zeroTime JTime ''paused_until'' (PausedUntil s)
      @ omitzero [] JString ''pause_reason'' (PauseReason s)
      @ omitzero [] (\<lambda>ds. JArray (map encodeDeployment ds)) ''history'' (History s))"

definition encodeState :: "State \<Rightarrow> json" where
  "encodeState s = JObject (stateFields s)"

text \<open>Reading: keys match the names of fields whatever their case, a missing or null field keeps the zero
  value, a repeated one takes its last value that is not null, and a value of another type is an
  error (\<^const>\<open>None\<close>).\<close>

definition foldKeys :: "(string \<times> json) list \<Rightarrow> (string \<times> json) list" where
  "foldKeys kvs = map (apfst ToLower) (filter (\<lambda>(_, v). v \<noteq> JNull) kvs)"

fun jlookup :: "string \<Rightarrow> (string \<times> json) list \<Rightarrow> json option" where
  "jlookup k [] = None"
| "jlookup k ((k', v) # kvs) =
     (case jlookup k kvs of Some x \<Rightarrow> Some x | None \<Rightarrow> if k = k' then Some v else None)"

fun decInt :: "json option \<Rightarrow> int option" where
  "decInt None = Some 0"
| "decInt (Some JNull) = Some 0"
| "decInt (Some (JInt i)) = Some i"
| "decInt (Some _) = None"

fun decBool :: "json option \<Rightarrow> bool option" where
  "decBool None = Some False"
| "decBool (Some JNull) = Some False"
| "decBool (Some (JBool b)) = Some b"
| "decBool (Some _) = None"

fun decString :: "json option \<Rightarrow> string option" where
  "decString None = Some []"
| "decString (Some JNull) = Some []"
| "decString (Some (JString s)) = Some s"
| "decString (Some _) = None"

fun decTime :: "json option \<Rightarrow> time option" where
  "decTime None = Some zeroTime"
| "decTime (Some JNull) = Some zeroTime"
| "decTime (Some (JTime t)) = Some t"
| "decTime (Some _) = None"

definition decResult :: "json option \<Rightarrow> StateResult option" where
  "decResult j = map_option parseResult (decString j)"

fun decAll :: "(json option \<Rightarrow> 'a option) \<Rightarrow> json list \<Rightarrow> 'a list option" where
  "decAll f [] = Some []"
| "decAll f (j # js) = do { x \<leftarrow> f (Some j); xs \<leftarrow> decAll f js; Some (x # xs) }"

fun decList :: "(json option \<Rightarrow> 'a option) \<Rightarrow> json option \<Rightarrow> 'a list option" where
  "decList f None = Some []"
| "decList f (Some JNull) = Some []"
| "decList f (Some (JArray js)) = decAll f js"
| "decList f (Some _) = None"

definition zeroDeployment :: Deployment where
  "zeroDeployment = \<lparr>d_At = zeroTime, d_Commit = [], d_Result = ResultNone, d_RolledBackTo = [],
     d_Error = [], d_Repeats = 0\<rparr>"

fun decodeDeployment :: "json option \<Rightarrow> Deployment option" where
  "decodeDeployment None = Some zeroDeployment"
| "decodeDeployment (Some JNull) = Some zeroDeployment"
| "decodeDeployment (Some (JObject kvs0)) = (let kvs = foldKeys kvs0 in do {
       v0 \<leftarrow> decTime (jlookup ''at'' kvs);
       v1 \<leftarrow> decString (jlookup ''commit'' kvs);
       v2 \<leftarrow> decResult (jlookup ''result'' kvs);
       v3 \<leftarrow> decString (jlookup ''rolled_back_to'' kvs);
       v4 \<leftarrow> decString (jlookup ''error'' kvs);
       v5 \<leftarrow> decInt (jlookup ''repeats'' kvs);
       Some \<lparr>d_At = v0, d_Commit = v1, d_Result = v2, d_RolledBackTo = v3, d_Error = v4, d_Repeats = v5\<rparr>
     })"
| "decodeDeployment (Some _) = None"

fun decodeState :: "json \<Rightarrow> State option" where
  "decodeState JNull = Some zeroState"
| "decodeState (JObject kvs0) = (let kvs = foldKeys kvs0 in do {
       v0 \<leftarrow> decInt (jlookup ''schema_version'' kvs);
       v1 \<leftarrow> decString (jlookup ''last_healthy_commit'' kvs);
       v2 \<leftarrow> decTime (jlookup ''last_healthy_at'' kvs);
       v3 \<leftarrow> decList decString (jlookup ''last_healthy_stacks'' kvs);
       v4 \<leftarrow> decString (jlookup ''last_checkout_commit'' kvs);
       v5 \<leftarrow> decString (jlookup ''last_failed_commit'' kvs);
       v6 \<leftarrow> decTime (jlookup ''last_failed_at'' kvs);
       v7 \<leftarrow> decList decString (jlookup ''failed_commits'' kvs);
       v8 \<leftarrow> decInt (jlookup ''preflight_blocks'' kvs);
       v9 \<leftarrow> decResult (jlookup ''last_result'' kvs);
       v10 \<leftarrow> decString (jlookup ''last_attempt_commit'' kvs);
       v11 \<leftarrow> decTime (jlookup ''last_attempt_at'' kvs);
       v12 \<leftarrow> decString (jlookup ''pending_commit'' kvs);
       v13 \<leftarrow> decTime (jlookup ''pending_since'' kvs);
       v14 \<leftarrow> decInt (jlookup ''pending_attempts'' kvs);
       v15 \<leftarrow> decList decString (jlookup ''pending_stacks'' kvs);
       v16 \<leftarrow> decBool (jlookup ''pending_revert'' kvs);
       v17 \<leftarrow> decTime (jlookup ''paused_at'' kvs);
       v18 \<leftarrow> decTime (jlookup ''paused_until'' kvs);
       v19 \<leftarrow> decString (jlookup ''pause_reason'' kvs);
       v20 \<leftarrow> decList decodeDeployment (jlookup ''history'' kvs);
       Some \<lparr>SchemaVersion = v0, LastHealthyCommit = v1, LastHealthyAt = v2, LastHealthyStacks = v3,
          LastCheckoutCommit = v4, LastFailedCommit = v5, LastFailedAt = v6, FailedCommits = v7,
          PreflightBlocks = v8, LastResult = v9, LastAttemptCommit = v10, LastAttemptAt = v11,
          PendingCommit = v12, PendingSince = v13, PendingAttempts = v14, PendingStacks = v15,
          PendingRevert = v16, PausedAt = v17, PausedUntil = v18, PauseReason = v19, History = v20\<rparr>
     })"
| "decodeState _ = None"

lemma foldKeys_simps [simp]:
  "foldKeys [] = []" "foldKeys (xs @ ys) = foldKeys xs @ foldKeys ys"
  "foldKeys ((k, v) # kvs) = (if v = JNull then foldKeys kvs else (ToLower k, v) # foldKeys kvs)"
  by (simp_all add: foldKeys_def)

lemma foldKeys_omitzero [simp]:
  "(\<And>v. enc v \<noteq> JNull) \<Longrightarrow> ToLower name = name \<Longrightarrow> foldKeys (omitzero zero enc name v) = omitzero zero enc name v"
  by (simp add: omitzero_def)

lemma fieldNames_lower:
  "ToLower ''at'' = ''at''"
  "ToLower ''commit'' = ''commit''"
  "ToLower ''result'' = ''result''"
  "ToLower ''rolled_back_to'' = ''rolled_back_to''"
  "ToLower ''error'' = ''error''"
  "ToLower ''repeats'' = ''repeats''"
  "ToLower ''schema_version'' = ''schema_version''"
  "ToLower ''last_healthy_commit'' = ''last_healthy_commit''"
  "ToLower ''last_healthy_at'' = ''last_healthy_at''"
  "ToLower ''last_healthy_stacks'' = ''last_healthy_stacks''"
  "ToLower ''last_checkout_commit'' = ''last_checkout_commit''"
  "ToLower ''last_failed_commit'' = ''last_failed_commit''"
  "ToLower ''last_failed_at'' = ''last_failed_at''"
  "ToLower ''failed_commits'' = ''failed_commits''"
  "ToLower ''preflight_blocks'' = ''preflight_blocks''"
  "ToLower ''last_result'' = ''last_result''"
  "ToLower ''last_attempt_commit'' = ''last_attempt_commit''"
  "ToLower ''last_attempt_at'' = ''last_attempt_at''"
  "ToLower ''pending_commit'' = ''pending_commit''"
  "ToLower ''pending_since'' = ''pending_since''"
  "ToLower ''pending_attempts'' = ''pending_attempts''"
  "ToLower ''pending_stacks'' = ''pending_stacks''"
  "ToLower ''pending_revert'' = ''pending_revert''"
  "ToLower ''paused_at'' = ''paused_at''"
  "ToLower ''paused_until'' = ''paused_until''"
  "ToLower ''pause_reason'' = ''pause_reason''"
  "ToLower ''history'' = ''history''"
  by code_simp+

lemma foldKeys_stateFields [simp]: "foldKeys (stateFields s) = stateFields s"
  by (simp add: stateFields_def fieldNames_lower encodeStrings_def)

lemma jlookup_append:
  "jlookup k (xs @ ys) = (case jlookup k ys of Some v \<Rightarrow> Some v | None \<Rightarrow> jlookup k xs)"
  by (induction xs) (auto split: option.splits)

lemma jlookup_omitzero:
  "jlookup k (omitzero zero enc name v) = (if k = name \<and> v \<noteq> zero then Some (enc v) else None)"
  by (simp add: omitzero_def)

lemma dec_omitted [simp]:
  "decInt (if i = 0 then None else Some (JInt i)) = Some i"
  "decBool (if b then Some (JBool b) else None) = Some b"
  "decString (if x = [] then None else Some (JString x)) = Some x"
  "decTime (if t = zeroTime then None else Some (JTime t)) = Some t"
  by simp_all

lemma parseResult_resultString [simp]:
  "(\<forall>x. r \<noteq> ResultOther x) \<Longrightarrow> parseResult (resultString r) = r"
  by (cases r) (simp_all add: parseResult_def)

lemma decAll_strings [simp]: "decAll decString (map JString xs) = Some xs"
  by (induction xs) auto

lemma decList_strings [simp]:
  "decList decString (if xs = [] then None else Some (encodeStrings xs)) = Some xs"
  by (simp add: encodeStrings_def)

text \<open>What a text of a result is read as: a foreign one that spells a result of the program is that result.\<close>

definition normalDeployment :: "Deployment \<Rightarrow> Deployment" where
  "normalDeployment d = d\<lparr>d_Result := parseResult (resultString (d_Result d))\<rparr>"

definition normalState :: "State \<Rightarrow> State" where
  "normalState s = s\<lparr>LastResult := parseResult (resultString (LastResult s)), History := map normalDeployment (History s)\<rparr>"

lemma decodeDeployment_encode: "decodeDeployment (Some (encodeDeployment d)) = Some (normalDeployment d)"
  by (simp add: encodeDeployment_def normalDeployment_def fieldNames_lower jlookup_append jlookup_omitzero decResult_def)

lemma decAll_deployments: "decAll decodeDeployment (map encodeDeployment ds) = Some (map normalDeployment ds)"
  by (induction ds) (auto simp: decodeDeployment_encode)

lemma decList_deployments:
  "decList decodeDeployment (if ds = [] then None else Some (JArray (map encodeDeployment ds))) = Some (map normalDeployment ds)"
  by (simp add: decAll_deployments)

text \<open>The results a state holds are the constants of the program, not foreign strings of a file.\<close>

definition ownResults :: "State \<Rightarrow> bool" where
  "ownResults s \<longleftrightarrow> (\<forall>r \<in> set (LastResult s # map d_Result (History s)).
     case r of ResultOther _ \<Rightarrow> False | _ \<Rightarrow> True)"

lemmas jlookup_field = stateFields_def jlookup_append jlookup_omitzero

lemma jlookup_stateFields:
  "jlookup ''schema_version'' (stateFields s) = Some (JInt (SchemaVersion s))"
  "jlookup ''last_healthy_commit'' (stateFields s) = Some (JString (LastHealthyCommit s))"
  "jlookup ''last_healthy_at'' (stateFields s) = (if LastHealthyAt s = zeroTime then None else Some (JTime (LastHealthyAt s)))"
  "jlookup ''last_healthy_stacks'' (stateFields s) = (if LastHealthyStacks s = [] then None else Some (encodeStrings (LastHealthyStacks s)))"
  "jlookup ''last_checkout_commit'' (stateFields s) = (if LastCheckoutCommit s = [] then None else Some (JString (LastCheckoutCommit s)))"
  "jlookup ''last_failed_commit'' (stateFields s) = Some (JString (LastFailedCommit s))"
  "jlookup ''last_failed_at'' (stateFields s) = (if LastFailedAt s = zeroTime then None else Some (JTime (LastFailedAt s)))"
  "jlookup ''failed_commits'' (stateFields s) = (if FailedCommits s = [] then None else Some (encodeStrings (FailedCommits s)))"
  "jlookup ''preflight_blocks'' (stateFields s) = (if PreflightBlocks s = 0 then None else Some (JInt (PreflightBlocks s)))"
  "jlookup ''last_result'' (stateFields s) = Some (JString (resultString (LastResult s)))"
  "jlookup ''last_attempt_commit'' (stateFields s) = Some (JString (LastAttemptCommit s))"
  "jlookup ''last_attempt_at'' (stateFields s) = (if LastAttemptAt s = zeroTime then None else Some (JTime (LastAttemptAt s)))"
  "jlookup ''pending_commit'' (stateFields s) = Some (JString (PendingCommit s))"
  "jlookup ''pending_since'' (stateFields s) = (if PendingSince s = zeroTime then None else Some (JTime (PendingSince s)))"
  "jlookup ''pending_attempts'' (stateFields s) = (if PendingAttempts s = 0 then None else Some (JInt (PendingAttempts s)))"
  "jlookup ''pending_stacks'' (stateFields s) = (if PendingStacks s = [] then None else Some (encodeStrings (PendingStacks s)))"
  "jlookup ''pending_revert'' (stateFields s) = (if PendingRevert s then Some (JBool (PendingRevert s)) else None)"
  "jlookup ''paused_at'' (stateFields s) = (if PausedAt s = zeroTime then None else Some (JTime (PausedAt s)))"
  "jlookup ''paused_until'' (stateFields s) = (if PausedUntil s = zeroTime then None else Some (JTime (PausedUntil s)))"
  "jlookup ''pause_reason'' (stateFields s) = (if PauseReason s = [] then None else Some (JString (PauseReason s)))"
  "jlookup ''history'' (stateFields s) = (if History s = [] then None else Some (JArray (map encodeDeployment (History s))))"
  by (simp_all add: jlookup_field)

lemma decodeState_encode: "decodeState (encodeState s) = Some (normalState s)"
  by (simp only: encodeState_def decodeState.simps Let_def foldKeys_stateFields jlookup_stateFields dec_omitted decInt.simps
      decString.simps decResult_def decList_strings decList_deployments option.map bind.bind_lunit) (simp add: normalState_def)

lemma normalState_own: "ownResults s \<Longrightarrow> normalState s = s"
proof -
  assume "ownResults s"
  then have "\<forall>x. LastResult s \<noteq> ResultOther x" and "\<forall>d \<in> set (History s). \<forall>x. d_Result d \<noteq> ResultOther x"
    by (auto simp: ownResults_def split: StateResult.splits)
  then show ?thesis by (simp add: normalState_def normalDeployment_def map_idI)
qed

lemma decodeState_encodeState: "ownResults s \<Longrightarrow> decodeState (encodeState s) = Some s"
  by (simp add: decodeState_encode normalState_own)

section \<open>The file store\<close>

text \<open>
  A disk holds documents by path. \<open>faults\<close> is what the operating system does to the coming
  saves, one entry per save: it lets it through or fails one of its system calls; \<open>unreadable\<close>
  says which reads fail, and \<open>past\<close> lists the contents the files have gone through. \<open>Torn\<close> is the content of a file whose writing was cut short: no proper
  prefix of a JSON object is JSON.
\<close>

datatype fileData = Document json | Torn

datatype saveFault =
    NoFault
  | FailCreate err
  | FailWrite err
  | FailSync err
  | FailClose err
  | FailRename err
  | FailSyncDir err

record disk =
  files :: "string \<Rightarrow> fileData option"
  faults :: "saveFault list"
  unreadable :: "string \<Rightarrow> err option"
  past :: "(string \<Rightarrow> fileData option) list"

definition Load :: "string \<Rightarrow> disk \<Rightarrow> err + State" where
  "Load path d =
     (case unreadable d path of
        Some e \<Rightarrow> Inl (Wrap (''reading state file '' @ path @ '': '') e [])
      | None \<Rightarrow>
          (case files d path of
             None \<Rightarrow> Inr New
           | Some Torn \<Rightarrow> Inl (errorf (''parsing state file '' @ path))
           | Some (Document j) \<Rightarrow>
               (case decodeState j of
                  None \<Rightarrow> Inl (errorf (''parsing state file '' @ path))
                | Some st \<Rightarrow>
                    if SchemaVersion st > schemaVersion
                    then Inl (errorf (''state file '' @ path @ '' has schema_version '' @ itoa (SchemaVersion st)
                           @ '', this build understands '' @ itoa schemaVersion @ '': upgrade composelock''))
                    else Inr (st\<lparr>SchemaVersion := schemaVersion\<rparr>))))"

text \<open>
  One save writes, fsyncs and closes a fresh temporary file beside the destination, renames it
  over the destination and fsyncs the directory. \<open>Save\<close> is that sequence as the list of disk
  contents it goes through, ending with the value it returns; the deferred \<^verbatim>\<open>os.Remove\<close> of the
  temporary file is the last content of every path through it. A crash leaves one of the listed
  contents behind.
\<close>

definition Save :: "string \<Rightarrow> string \<Rightarrow> State \<Rightarrow> disk \<Rightarrow> err option \<times> (string \<Rightarrow> fileData option) list" where
  "Save tmp path st d =
     (let f0 = files d;
          fault = (case faults d of [] \<Rightarrow> NoFault | x # _ \<Rightarrow> x);
          created = f0(tmp \<mapsto> Torn);
          written = f0(tmp \<mapsto> Document (encodeState st));
          renamed = (f0(path \<mapsto> Document (encodeState st)))(tmp := None)
      in case fault of
           FailCreate e \<Rightarrow> (Some (Wrap ''creating temp state file: '' e []), [f0])
         | FailWrite e \<Rightarrow> (Some (Wrap ''writing temp state file: '' e []), [f0, created, created(tmp := None)])
         | FailSync e \<Rightarrow> (Some (Wrap ''fsync temp state file: '' e []),
             [f0, created, written, written(tmp := None)])
         | FailClose e \<Rightarrow> (Some (Wrap ''closing temp state file: '' e []),
             [f0, created, written, written(tmp := None)])
         | FailRename e \<Rightarrow> (Some (Wrap ''renaming temp state file into place: '' e []),
             [f0, created, written, written(tmp := None)])
         | FailSyncDir e \<Rightarrow> (Some (Wrap ''fsync state directory: '' e []),
             [f0, created, written, renamed, renamed(tmp := None)])
         | NoFault \<Rightarrow> (None, [f0, created, written, renamed, renamed(tmp := None)]))"

definition CheckWritable :: "string \<Rightarrow> string \<Rightarrow> disk \<Rightarrow> err option \<times> (string \<Rightarrow> fileData option)" where
  "CheckWritable tmp path d =
     (case faults d of
        FailCreate e # _ \<Rightarrow> (Some e, files d)
      | FailClose e # _ \<Rightarrow> (errJoin [Some e, None], (files d)(tmp := None))
      | _ \<Rightarrow> (errJoin [None, None], ((files d)(tmp \<mapsto> Torn))(tmp := None)))"

text \<open>\<^verbatim>\<open>FileStore{Path}\<close>. The temporary name is fresh and differs from the path.\<close>

definition tmpName :: "string \<Rightarrow> string" where
  "tmpName path = path @ ''.state.json.tmp''"

definition FileStore_Load :: "string \<Rightarrow> (disk, err + State) state" where
  "FileStore_Load path = State (\<lambda>d. (Load path d, d))"

definition FileStore_Save :: "string \<Rightarrow> State \<Rightarrow> (disk, err option) state" where
  "FileStore_Save path st = State (\<lambda>d. case Save (tmpName path) path st d of
     (r, fss) \<Rightarrow> (r, d\<lparr>files := last fss, faults := tl (faults d), past := past d @ fss\<rparr>))"

definition FileStore_CheckWritable :: "string \<Rightarrow> (disk, err option) state" where
  "FileStore_CheckWritable path = State (\<lambda>d. case CheckWritable (tmpName path) path d of
     (r, f) \<Rightarrow> (r, d\<lparr>files := f, faults := tl (faults d), past := past d @ (case r of None \<Rightarrow> [(files d)(tmpName path \<mapsto> Torn), f] | Some _ \<Rightarrow> [f])\<rparr>))"

text \<open>\<^verbatim>\<open>MemStore\<close>.\<close>

type_synonym memStore = "State option"

definition MemStore_Load :: "(memStore, err + State) state" where
  "MemStore_Load = State (\<lambda>m. (case m of None \<Rightarrow> Inr New | Some st \<Rightarrow> Inr st, m))"

definition MemStore_Save :: "State \<Rightarrow> (memStore, err option) state" where
  "MemStore_Save st = State (\<lambda>m. (None, Some st))"

lemma tmpName_neq [simp]: "tmpName path \<noteq> path"
  by (simp add: tmpName_def)

lemma Save_result_cases:
  assumes "Save tmp path st d = (r, fss)" and "tmp \<noteq> path"
  shows "last fss path = (if r = None \<or> (\<exists>e. faults d \<noteq> [] \<and> hd (faults d) = FailSyncDir e)
           then Some (Document (encodeState st)) else files d path)"
  using assms by (cases "faults d") (auto simp: Save_def Let_def split: saveFault.splits)

lemma Load_cong: "files d path = files d' path \<Longrightarrow> unreadable d path = unreadable d' path \<Longrightarrow> Load path d = Load path d'"
  unfolding Load_def by (auto split: option.split)

lemma Load_document:
  assumes "ownResults st" and "SchemaVersion st = schemaVersion"
    and "files d path = Some (Document (encodeState st))" and "unreadable d path = None"
  shows "Load path d = Inr st"
  using assms by (simp add: Load_def decodeState_encodeState)

section \<open>The contract of a store\<close>

locale state_store =
  fixes load :: "('w, err + State) state"
    and save :: "State \<Rightarrow> ('w, err option) state"
    and ready :: "'w \<Rightarrow> bool"
  assumes load_stable: "ready w \<Longrightarrow> snd (run_state load w) = w"
    and save_ready: "ready w \<Longrightarrow> ready (snd (run_state (save st) w))"
    and load_after_save: "ready w \<Longrightarrow> ownResults st \<Longrightarrow> SchemaVersion st = schemaVersion \<Longrightarrow>
      run_state (save st) w = (None, w') \<Longrightarrow> fst (run_state load w') = Inr st"
    and load_after_failed_save: "ready w \<Longrightarrow> ownResults st \<Longrightarrow> SchemaVersion st = schemaVersion \<Longrightarrow>
      run_state (save st) w = (Some e, w') \<Longrightarrow>
      fst (run_state load w') = fst (run_state load w) \<or> fst (run_state load w') = Inr st"
begin

text \<open>Load, change, save: what the pause and resume commands do to the state.\<close>

definition modify :: "(State \<Rightarrow> State) \<Rightarrow> ('w, err option) state" where
  "modify change = do {
     r \<leftarrow> load;
     case r of
       Inl e \<Rightarrow> ret (Some (wrapf ''reading state: '' e))
     | Inr st \<Rightarrow> do {
         r' \<leftarrow> save (change st);
         case r' of
           Some e \<Rightarrow> ret (Some (wrapf ''saving state: '' e))
         | None \<Rightarrow> ret None
       }
   }"

lemma modify_success:
  assumes "ready w" and "run_state (modify change) w = (None, w')"
    and "fst (run_state load w) = Inr st"
    and "ownResults (change st)" and "SchemaVersion (change st) = schemaVersion"
  shows "fst (run_state load w') = Inr (change st)"
proof -
  from assms(1,3) have load: "run_state load w = (Inr st, w)"
    using load_stable [OF assms(1)] by (metis prod.collapse)
  with assms(2) have "run_state (save (change st)) w = (None, w')"
    by (auto simp: modify_def split: prod.splits option.splits)
  with assms show ?thesis by (intro load_after_save) auto
qed

lemma modify_never_torn:
  assumes "ready w" and "run_state (modify change) w = (r, w')"
    and "fst (run_state load w) = Inr st"
    and "ownResults (change st)" and "SchemaVersion (change st) = schemaVersion"
  shows "fst (run_state load w') \<in> {Inr st, Inr (change st)}"
proof -
  from assms(1,3) have load: "run_state load w = (Inr st, w)"
    using load_stable [OF assms(1)] by (metis prod.collapse)
  with assms(2) obtain r' where "run_state (save (change st)) w = (r', w')"
    by (auto simp: modify_def split: prod.splits option.splits)
  with assms load show ?thesis
    using load_after_save [of w "change st" w'] load_after_failed_save [of w "change st" _ w']
    by (cases r') auto
qed

end

interpretation mem_store: state_store MemStore_Load MemStore_Save "\<lambda>_. True"
  by unfold_locales (auto simp: MemStore_Load_def MemStore_Save_def)

interpretation file_store: state_store "FileStore_Load path" "FileStore_Save path" "\<lambda>d. unreadable d path = None"
  for path
proof unfold_locales
  fix w w' :: disk and st e
  show "snd (run_state (FileStore_Load path) w) = w"
    by (simp add: FileStore_Load_def)
  show "unreadable w path = None \<Longrightarrow> unreadable (snd (run_state (FileStore_Save path st) w)) path = None"
    by (simp add: FileStore_Save_def split: prod.splits)
  show "unreadable w path = None \<Longrightarrow> ownResults st \<Longrightarrow> SchemaVersion st = schemaVersion \<Longrightarrow>
      run_state (FileStore_Save path st) w = (None, w') \<Longrightarrow> fst (run_state (FileStore_Load path) w') = Inr st"
    by (auto simp: FileStore_Save_def FileStore_Load_def Save_result_cases split: prod.splits intro!: Load_document)
  show "unreadable w path = None \<Longrightarrow> ownResults st \<Longrightarrow> SchemaVersion st = schemaVersion \<Longrightarrow>
      run_state (FileStore_Save path st) w = (Some e, w') \<Longrightarrow>
      fst (run_state (FileStore_Load path) w') = fst (run_state (FileStore_Load path) w)
        \<or> fst (run_state (FileStore_Load path) w') = Inr st"
    by (auto simp: FileStore_Save_def FileStore_Load_def Save_result_cases split: prod.splits if_splits
        intro!: Load_document Load_cong)
qed

lemma wfState_marks: "wfState s \<Longrightarrow> wfState (foldl (\<lambda>s (c, at). MarkFailed s c at) s marks)"
  by (induction marks arbitrary: s) (auto simp: wfState_MarkFailed)

section \<open>Properties\<close>

text \<open>Every operation on the state keeps the well-formedness of the state file: the failed-commit
  memory stays a duplicate-free list of at most 16 commit ids that contains the latest failure, and
  the history stays within 20 entries. The fresh state is well-formed.\<close>

theorem state_operations_keep_wf:
  "wfState New \<and>
   (\<forall>s c c' at until reason d. wfState s \<longrightarrow>
      wfState (MarkFailed s c at) \<and> wfState (ForgetFailed s c') \<and> wfState (ForgetAllFailed s)
      \<and> wfState (Pause s at until reason) \<and> wfState (Resume s) \<and> wfState (Record s d))"
  by (simp add: wfState_New wfState_MarkFailed wfState_ForgetFailed wfState_ForgetAllFailed
      wfState_Pause wfState_Resume wfState_Record)

theorem state_operations_keep_wf_witness: "wfState (MarkFailed New ''abcd'' 7)"
  using state_operations_keep_wf by blast

text \<open>C36: starting from the fresh state, the failed-commit memory after any sequence of failures is
  exactly the last 16 different commits that failed, oldest first, and a commit is known bad
  exactly when it is one of them.\<close>

theorem failed_commit_memory:
  assumes "[] \<notin> fst ` set marks"
  shows "FailedCommits (foldl (\<lambda>s (c, at). MarkFailed s c at) New marks) = lastN 16 (remdups (map fst marks))
    \<and> (\<forall>c. IsKnownBad (foldl (\<lambda>s (c, at). MarkFailed s c at) New marks) c \<longleftrightarrow>
          c \<in> set (lastN 16 (remdups (map fst marks))))"
proof -
  let ?s = "foldl (\<lambda>s (c, at). MarkFailed s c at) New marks"
  have mem: "FailedCommits ?s = lastN 16 (remdups (map fst marks))"
    using FailedCommits_marks [OF assms, of New] by (simp add: New_def zeroState_def maxFailedCommits_def)
  have "wfState ?s"
    by (rule wfState_marks [OF wfState_New])
  then show ?thesis using mem by (auto simp: IsKnownBad_def wfState_def)
qed

theorem failed_commit_memory_witness:
  "FailedCommits (foldl (\<lambda>s (c, at). MarkFailed s c at) New [(''aaaa'', 1), (''bbbb'', 2), (''aaaa'', 3)])
     = [''bbbb'', ''aaaa'']"
proof -
  have "remdups (map fst [(''aaaa'', 1 :: time), (''bbbb'', 2), (''aaaa'', 3)]) = [''bbbb'', ''aaaa'']"
    by simp
  then show ?thesis
    using failed_commit_memory [of "[(''aaaa'', 1), (''bbbb'', 2), (''aaaa'', 3)]", THEN conjunct1]
    by (simp only: lastN_def) simp
qed

text \<open>C37: the state file round trip: decoding the document that encoding a state wrote gives the
  state back, every field included, for every state whose results are ones the program writes. (Strings are the bytes of the
  state; that the JSON text replaces invalid UTF-8 is not modelled.)\<close>

theorem state_round_trip: "ownResults s \<Longrightarrow> decodeState (encodeState s) = Some s"
  by (rule decodeState_encodeState)

theorem state_round_trip_witness:
  "decodeState (encodeState (New\<lparr>PendingRevert := True, History := [zeroDeployment]\<rparr>))
     = Some (New\<lparr>PendingRevert := True, History := [zeroDeployment]\<rparr>)"
proof (rule state_round_trip)
  show "ownResults (New\<lparr>PendingRevert := True, History := [zeroDeployment]\<rparr>)"
    by (simp add: ownResults_def New_def zeroState_def zeroDeployment_def)
qed

text \<open>C34: saving the state is atomic under crashes and failures: whichever of the intermediate disk
  contents a crash or a failing system call leaves behind, loading the state file gives what it gave
  before the save or the saved state, never a torn file; and a save that reports success has
  stored the saved state.\<close>

theorem save_crash_atomic:
  assumes "Save tmp path st d = (r, fss)" and "tmp \<noteq> path"
    and "ownResults st" and "SchemaVersion st = schemaVersion" and "unreadable d path = None"
  shows "(\<forall>f \<in> set fss. Load path (d\<lparr>files := f\<rparr>) \<in> {Load path d, Inr st})
    \<and> (r = None \<longrightarrow> Load path (d\<lparr>files := last fss\<rparr>) = Inr st)"
proof -
  have "f path = files d path \<or> f path = Some (Document (encodeState st))" if "f \<in> set fss" for f
    using that assms(1,2) by (cases "faults d") (auto simp: Save_def Let_def split: saveFault.splits)
  then have "Load path (d\<lparr>files := f\<rparr>) \<in> {Load path d, Inr st}" if "f \<in> set fss" for f
    using that assms Load_cong [of "d\<lparr>files := f\<rparr>" path d] Load_document [of st "d\<lparr>files := f\<rparr>" path] by fastforce
  moreover have "r = None \<longrightarrow> Load path (d\<lparr>files := last fss\<rparr>) = Inr st"
    using assms Save_result_cases [OF assms(1,2)] by (auto intro!: Load_document)
  ultimately show ?thesis by blast
qed

theorem save_crash_atomic_witness:
  "list_all (\<lambda>f. Load ''p'' \<lparr>files = f, faults = [], unreadable = Map.empty, past = []\<rparr> = Inr New)
     (snd (Save ''t'' ''p'' New \<lparr>files = Map.empty, faults = [], unreadable = Map.empty, past = []\<rparr>))"
proof -
  let ?d = "\<lparr>files = Map.empty, faults = [], unreadable = Map.empty, past = []\<rparr>"
  obtain r fss where save: "Save ''t'' ''p'' New ?d = (r, fss)" by fastforce
  have "\<forall>f \<in> set fss. Load ''p'' (?d\<lparr>files := f\<rparr>) \<in> {Load ''p'' ?d, Inr New}"
    using save_crash_atomic [OF save, THEN conjunct1] by (simp add: ownResults_def New_def zeroState_def)
  moreover have "Load ''p'' ?d = Inr New" by (simp add: Load_def)
  ultimately show ?thesis by (simp add: save list_all_iff)
qed

end
