(* ===== verification/Health.thy ===== *)
theory Health
  imports CL_Prelude "HOL-Library.Multiset"
begin

text \<open>
  The health watcher: \<^verbatim>\<open>internal/health/health.go\<close> and the assembly of a snapshot in
  \<^verbatim>\<open>internal/health/snapshotter.go\<close>. A snapshotter and a clock are interfaces, so \<open>Watch\<close> takes them
  as programs over an abstract world. One poll of the watch is the pure function \<open>pollStep\<close>; the
  loop around it is \<open>watchLoop\<close>, with fuel: \<open>watchFuel\<close> polls are enough for every clock that
  advances by the poll interval on each sleep (locale \<open>advancing_clock\<close>).
\<close>

section \<open>Containers and snapshots\<close>

text \<open>States and health values are strings in the code, since Docker may report others.\<close>

definition HealthNone :: string where "HealthNone = ''none''"
definition HealthStarting :: string where "HealthStarting = ''starting''"
definition HealthHealthy :: string where "HealthHealthy = ''healthy''"
definition HealthUnhealthy :: string where "HealthUnhealthy = ''unhealthy''"

definition StateRunning :: string where "StateRunning = ''running''"
definition StateExited :: string where "StateExited = ''exited''"
definition StateRestarting :: string where "StateRestarting = ''restarting''"
definition StateDead :: string where "StateDead = ''dead''"
definition StateRemoving :: string where "StateRemoving = ''removing''"

lemmas health_consts = HealthNone_def HealthStarting_def HealthHealthy_def HealthUnhealthy_def
  StateRunning_def StateExited_def StateRestarting_def StateDead_def StateRemoving_def

record ContainerStatus =
  c_ID :: string
  c_Service :: string
  c_State :: string
  c_Health :: string
  c_RestartCount :: int
  c_ExitCode :: int

record Snapshot =
  Containers :: "ContainerStatus list"
  Taken :: time

definition emptySnapshot :: Snapshot where
  "emptySnapshot = \<lparr>Containers = [], Taken = zeroTime\<rparr>"

definition Completed :: "ContainerStatus \<Rightarrow> bool" where
  "Completed c \<longleftrightarrow> c_State c = StateExited \<and> c_ExitCode c = 0"

section \<open>Judging one snapshot\<close>

fun evaluateContainers :: "ContainerStatus list \<Rightarrow> bool \<Rightarrow> bool \<Rightarrow> bool \<times> string" where
  "evaluateContainers [] tolerateStarting tolerateRestarting = (True, [])"
| "evaluateContainers (c # cs) tolerateStarting tolerateRestarting =
     (if Completed c then evaluateContainers cs tolerateStarting tolerateRestarting
      else if tolerateRestarting \<and> c_State c = StateRestarting
        then evaluateContainers cs tolerateStarting tolerateRestarting
      else if c_State c \<noteq> StateRunning
        then (False, ''not running: '' @ c_Service c @ '' (state='' @ c_State c @ '')'')
      else if tolerateStarting \<and> c_Health c = HealthStarting
        then evaluateContainers cs tolerateStarting tolerateRestarting
      else if c_Health c \<noteq> [] \<and> c_Health c \<noteq> HealthNone \<and> c_Health c \<noteq> HealthHealthy
        then (False, ''not healthy: '' @ c_Service c @ '' (health='' @ c_Health c @ '')'')
      else evaluateContainers cs tolerateStarting tolerateRestarting)"

definition evaluate :: "Snapshot \<Rightarrow> bool \<Rightarrow> bool \<Rightarrow> bool \<times> string" where
  "evaluate snap tolerateStarting tolerateRestarting =
     evaluateContainers (Containers snap) tolerateStarting tolerateRestarting"

definition Evaluate :: "Snapshot \<Rightarrow> bool \<times> string" where
  "Evaluate snap = evaluate snap False False"

definition EvaluatePreflight :: "Snapshot \<Rightarrow> bool \<times> string" where
  "EvaluatePreflight snap = evaluate snap True True"

section \<open>The watch\<close>

datatype Outcome = Unknown | Healthy | Unhealthy

record WatchOptions =
  ProjectName :: string
  WatchDuration :: duration
  PollInterval :: duration
  UnhealthyStreakLimit :: int
  RestartTolerance :: int
  ExpectContainers :: bool

record WatchResult =
  w_Outcome :: Outcome
  w_Reason :: string
  w_Failures :: "string list"
  w_Baseline :: Snapshot

definition zeroResult :: WatchResult where
  "zeroResult = \<lparr>w_Outcome = Unknown, w_Reason = [], w_Failures = [], w_Baseline = emptySnapshot\<rparr>"

definition unhealthyResult :: "Snapshot \<Rightarrow> string \<Rightarrow> WatchResult" where
  "unhealthyResult baseline reason =
     \<lparr>w_Outcome = Unhealthy, w_Reason = reason, w_Failures = [reason], w_Baseline = baseline\<rparr>"

definition restartDelta :: "(string \<rightharpoonup> int) \<Rightarrow> ContainerStatus \<Rightarrow> int" where
  "restartDelta baselineRestarts c =
     (case baselineRestarts (c_ID c) of
        None \<Rightarrow> c_RestartCount c
      | Some base \<Rightarrow> c_RestartCount c - base)"

definition populated :: "Snapshot \<Rightarrow> WatchOptions \<Rightarrow> bool" where
  "populated snap opts \<longleftrightarrow> \<not> ExpectContainers opts \<or> Containers snap \<noteq> []"

definition emptyReason :: "WatchOptions \<Rightarrow> string" where
  "emptyReason opts = ''no containers running for project '' @ ProjectName opts"

definition shortID :: "string \<Rightarrow> string" where
  "shortID i = (if length i > 12 then take 12 i else i)"

text \<open>\<open>m[k]\<close> of a Go map of counters, and the count of a key in a list.\<close>

definition mapGet :: "('k \<rightharpoonup> int) \<Rightarrow> 'k \<Rightarrow> int" where
  "mapGet m k = (case m k of None \<Rightarrow> 0 | Some v \<Rightarrow> v)"

lemma mapGet_upd [simp]:
  "mapGet (m(k \<mapsto> v)) j = (if j = k then v else mapGet m j)"
  "mapGet (m(k := None)) j = (if j = k then 0 else mapGet m j)"
  by (simp_all add: mapGet_def)

definition serviceCounts :: "ContainerStatus list \<Rightarrow> string \<Rightarrow> int" where
  "serviceCounts cs service = int (length (filter (\<lambda>c. c_Service c = service) cs))"

text \<open>
  \<open>missingContainers\<close> walks the baseline ids in sorted order. \<open>baseline\<close> is the list of baseline
  containers; a later container of the same id wins, as in the code's map.
\<close>

definition baselineService :: "ContainerStatus list \<Rightarrow> string \<rightharpoonup> string" where
  "baselineService cs = map_of (rev (map (\<lambda>c. (c_ID c, c_Service c)) cs))"

definition baselineRestarts :: "ContainerStatus list \<Rightarrow> string \<rightharpoonup> int" where
  "baselineRestarts cs = map_of (rev (map (\<lambda>c. (c_ID c, c_RestartCount c)) cs))"

definition sortedIDs :: "ContainerStatus list \<Rightarrow> string list" where
  "sortedIDs cs = sort (remdups (map c_ID cs))"

definition missingContainers :: "ContainerStatus list \<Rightarrow> ContainerStatus list \<Rightarrow> string option" where
  "missingContainers baseline cur =
     (case find (\<lambda>i. i \<notin> set (map c_ID cur)) (sortedIDs baseline) of
        None \<Rightarrow> None
      | Some i \<Rightarrow>
          let service = (case baselineService baseline i of None \<Rightarrow> [] | Some s \<Rightarrow> s);
              got = serviceCounts cur service; want = serviceCounts baseline service
          in Some (if got < want
                   then service @ '' ('' @ itoa got @ '' of '' @ itoa want @ '' replicas)''
                   else service @ '' (container '' @ shortID i @ '' was replaced)''))"

text \<open>The per-container streaks the watch carries from poll to poll.\<close>

record Streaks =
  unhealthyStreaks :: "string \<rightharpoonup> int"
  wedgedStreaks :: "string \<rightharpoonup> int"

definition noStreaks :: Streaks where
  "noStreaks = \<lparr>unhealthyStreaks = Map.empty, wedgedStreaks = Map.empty\<rparr>"

text \<open>
  The body of the loop over the containers of one poll: \<open>Inl reason\<close> is the early return with an
  unhealthy verdict, \<open>Inr\<close> the streaks after the container.
\<close>

definition stepContainer ::
  "WatchOptions \<Rightarrow> (string \<rightharpoonup> int) \<Rightarrow> Streaks \<Rightarrow> ContainerStatus \<Rightarrow> string + Streaks" where
  "stepContainer opts restarts0 st c =
     (if c_State c = StateExited \<and> \<not> Completed c
        then Inl (''container exited: '' @ c_Service c @ '' (exit code '' @ itoa (c_ExitCode c) @ '')'')
      else if c_State c = StateDead \<or> c_State c = StateRemoving
        then Inl (''container '' @ c_State c @ '': '' @ c_Service c)
      else if restartDelta restarts0 c > RestartTolerance opts
        then Inl (''restarted beyond tolerance: '' @ c_Service c @ '' (restarts='' @ itoa (restartDelta restarts0 c)
               @ '', tolerance='' @ itoa (RestartTolerance opts) @ '')'')
      else if Completed c then Inr st
      else if c_State c \<noteq> StateRunning then
        (let n = mapGet (wedgedStreaks st) (c_ID c) + 1
         in if n \<ge> UnhealthyStreakLimit opts then Inl ''container never started''
            else Inr (st\<lparr>wedgedStreaks := (wedgedStreaks st)(c_ID c \<mapsto> n)\<rparr>))
      else
        (let st' = st\<lparr>wedgedStreaks := (wedgedStreaks st)(c_ID c := None)\<rparr>
         in if c_Health c = [] \<or> c_Health c = HealthNone \<or> c_Health c = HealthHealthy
              then Inr (st'\<lparr>unhealthyStreaks := (unhealthyStreaks st')(c_ID c := None)\<rparr>)
            else if c_Health c = HealthStarting then Inr st'
            else let n = mapGet (unhealthyStreaks st') (c_ID c) + 1
                 in if n \<ge> UnhealthyStreakLimit opts then Inl ''healthcheck unhealthy''
                    else Inr (st'\<lparr>unhealthyStreaks := (unhealthyStreaks st')(c_ID c \<mapsto> n)\<rparr>)))"

fun stepContainers ::
  "WatchOptions \<Rightarrow> (string \<rightharpoonup> int) \<Rightarrow> Streaks \<Rightarrow> ContainerStatus list \<Rightarrow> string + Streaks" where
  "stepContainers opts restarts0 st [] = Inr st"
| "stepContainers opts restarts0 st (c # cs) =
     (case stepContainer opts restarts0 st c of
        Inl reason \<Rightarrow> Inl reason
      | Inr st' \<Rightarrow> stepContainers opts restarts0 st' cs)"

text \<open>One poll: the checks of a fresh snapshot against the baseline, in the order of the code.\<close>

definition pollStep :: "WatchOptions \<Rightarrow> Snapshot \<Rightarrow> Streaks \<Rightarrow> Snapshot \<Rightarrow> string + Streaks" where
  "pollStep opts baseline st cur =
     (if \<not> populated cur opts then Inl (emptyReason opts)
      else case missingContainers (Containers baseline) (Containers cur) of
        Some reason \<Rightarrow> Inl (''container disappeared: '' @ reason)
      | None \<Rightarrow> stepContainers opts (baselineRestarts (Containers baseline)) st (Containers cur))"

text \<open>The verdict when the window has closed.\<close>

definition finalVerdict :: "Snapshot \<Rightarrow> Snapshot \<Rightarrow> WatchResult" where
  "finalVerdict baseline latest =
     (case evaluate latest False True of
        (True, _) \<Rightarrow> \<lparr>w_Outcome = Healthy, w_Reason = [], w_Failures = [], w_Baseline = baseline\<rparr>
      | (False, reason) \<Rightarrow> \<lparr>w_Outcome = Unhealthy, w_Reason = reason, w_Failures = [], w_Baseline = baseline\<rparr>)"

text \<open>
  The interfaces of the watch: \<^verbatim>\<open>health.Clock\<close>, \<^verbatim>\<open>health.Snapshotter\<close>, and reading \<^verbatim>\<open>ctx.Err()\<close>.
\<close>

record 'w Clock =
  Now :: "('w, time) state"
  Sleep :: "ctx \<Rightarrow> duration \<Rightarrow> ('w, bool) state"

type_synonym 'w Snapshotter = "ctx \<Rightarrow> string \<Rightarrow> ('w, err + Snapshot) state"
type_synonym 'w CtxErr = "ctx \<Rightarrow> ('w, err option) state"

text \<open>
  The loop of \<open>Watch\<close>: \<open>first\<close> is the code's loop variable, \<open>latest\<close> its variable \<^verbatim>\<open>last\<close>; \<^const>\<open>None\<close> is
  "out of fuel", which no run of the code corresponds to.
\<close>

fun watchLoop ::
  "nat \<Rightarrow> 'w CtxErr \<Rightarrow> 'w Snapshotter \<Rightarrow> 'w Clock \<Rightarrow> ctx \<Rightarrow> WatchOptions \<Rightarrow> Snapshot \<Rightarrow> time \<Rightarrow>
     Streaks \<Rightarrow> bool \<Rightarrow> Snapshot \<Rightarrow> ('w, (err + WatchResult) option) state" where
  "watchLoop 0 ctxErr snap clock c opts baseline deadline st first latest = ret None"
| "watchLoop (Suc fuel) ctxErr snap clock c opts baseline deadline st first latest = do {
     go \<leftarrow> (if first then ret True else do { t \<leftarrow> Now clock; ret (t < deadline) });
     if \<not> go then ret (Some (Inr (finalVerdict baseline latest)))
     else do {
       ok \<leftarrow> Sleep clock c (PollInterval opts);
       if \<not> ok then do {
         e \<leftarrow> ctxErr c;
         ret (Some (case e of Some x \<Rightarrow> Inl x | None \<Rightarrow> Inr zeroResult))
       } else do {
         r \<leftarrow> snap c (ProjectName opts);
         case r of
           Inl e \<Rightarrow> ret (Some (Inl (wrapf ''health snapshot: '' e)))
         | Inr cur \<Rightarrow>
             (case pollStep opts baseline st cur of
                Inl reason \<Rightarrow> ret (Some (Inr (unhealthyResult baseline reason)))
              | Inr st' \<Rightarrow> watchLoop fuel ctxErr snap clock c opts baseline deadline st' False cur)
       }
     }
   }"

definition watchFuel :: "WatchOptions \<Rightarrow> nat" where
  "watchFuel opts = nat (WatchDuration opts div PollInterval opts) + 2"

definition Watch ::
  "'w CtxErr \<Rightarrow> 'w Snapshotter \<Rightarrow> 'w Clock \<Rightarrow> ctx \<Rightarrow> WatchOptions \<Rightarrow> ('w, err + WatchResult) state" where
  "Watch ctxErr snap clock c opts =
     (if WatchDuration opts \<le> 0 then ret (Inr (zeroResult\<lparr>w_Outcome := Healthy\<rparr>))
      else do {
        b \<leftarrow> snap c (ProjectName opts);
        case b of
          Inl e \<Rightarrow> ret (Inl (wrapf ''baseline snapshot: '' e))
        | Inr baseline \<Rightarrow>
            if \<not> populated baseline opts then ret (Inr (unhealthyResult baseline (emptyReason opts)))
            else do {
              now \<leftarrow> Now clock;
              r \<leftarrow> watchLoop (watchFuel opts) ctxErr snap clock c opts baseline (now + WatchDuration opts)
                    noStreaks True baseline;
              ret (case r of Some x \<Rightarrow> x | None \<Rightarrow> Inl (Leaf OutOfFuel ''health watch: out of fuel''))
            }
      })"

section \<open>Comparing snapshots\<close>

definition containerIDs :: "ContainerStatus list \<Rightarrow> string \<Rightarrow> string list" where
  "containerIDs cs service = sort (map c_ID (filter (\<lambda>c. c_Service c = service) cs))"

definition services :: "ContainerStatus list \<Rightarrow> string list" where
  "services cs = remdups (map c_Service cs)"

definition ChangedServices :: "Snapshot \<Rightarrow> Snapshot \<Rightarrow> string list" where
  "ChangedServices before after =
     (let b = Containers before; a = Containers after
      in sort (filter (\<lambda>s. containerIDs a s \<noteq> containerIDs b s) (services a)
               @ filter (\<lambda>s. s \<notin> set (services a)) (services b)))"

definition RestartedServices :: "Snapshot \<Rightarrow> Snapshot \<Rightarrow> string list" where
  "RestartedServices before after =
     remdups_adj (sort (map c_Service
       (filter (\<lambda>c. restartDelta (baselineRestarts (Containers before)) c > 0) (Containers after))))"

section \<open>Building a snapshot\<close>

text \<open>
  \<open>buildSnapshot\<close> inspects every listed container concurrently and keeps the results by index.
  \<open>inspect\<close> is the Docker call; \<open>isNotFound\<close> is the package's predicate on its error. The first
  error in list order stands for the first one the group recorded; theory \<open>Pools\<close> has the goroutines.
\<close>

record ContainerSummary =
  s_ID :: string
  s_Service :: string
  s_State :: string
  s_Health :: string
  s_ExitCode :: int

definition isNotFound :: "err \<Rightarrow> bool" where
  "isNotFound e \<longleftrightarrow> errIs e NotFound"

fun inspectAll :: "(string \<Rightarrow> err + int) \<Rightarrow> ContainerSummary list \<Rightarrow> err + ContainerStatus list" where
  "inspectAll inspect [] = Inr []"
| "inspectAll inspect (cs # rest) =
     (case inspect (s_ID cs) of
        Inl e \<Rightarrow> if isNotFound e then inspectAll inspect rest
                 else Inl (wrapf (''inspecting container '' @ s_ID cs @ '': '') e)
      | Inr restarts \<Rightarrow>
          (case inspectAll inspect rest of
             Inl e \<Rightarrow> Inl e
           | Inr out \<Rightarrow> Inr (\<lparr>c_ID = s_ID cs, c_Service = s_Service cs, c_State = s_State cs,
               c_Health = s_Health cs, c_RestartCount = restarts, c_ExitCode = s_ExitCode cs\<rparr> # out)))"

definition buildSnapshot :: "(string \<Rightarrow> err + int) \<Rightarrow> ContainerSummary list \<Rightarrow> time \<Rightarrow> err + Snapshot" where
  "buildSnapshot inspect summaries now =
     (case inspectAll inspect summaries of
        Inl e \<Rightarrow> Inl e
      | Inr out \<Rightarrow> Inr \<lparr>Containers = out, Taken = now\<rparr>)"

section \<open>The real clock\<close>

text \<open>
  \<^verbatim>\<open>RealClock\<close> over a machine with a wall clock. \<open>wakeups\<close> says what happens to the coming sleeps:
  whether the context ends first, and by how much the timer is late.
\<close>

record machine =
  wall :: time
  wakeups :: "(bool \<times> nat) list"

definition RealClock_Now :: "(machine, time) state" where
  "RealClock_Now = State (\<lambda>m. (wall m, m))"

definition RealClock_Sleep :: "ctx \<Rightarrow> duration \<Rightarrow> (machine, bool) state" where
  "RealClock_Sleep c d = State (\<lambda>m.
     case wakeups m of
       [] \<Rightarrow> (True, m\<lparr>wall := wall m + max 0 d\<rparr>)
     | (cancelled, late) # rest \<Rightarrow>
         if cancelled then (False, m\<lparr>wall := wall m + min (max 0 d) (int late), wakeups := rest\<rparr>)
         else (True, m\<lparr>wall := wall m + max 0 d + int late, wakeups := rest\<rparr>))"

definition RealClock :: "machine Clock" where
  "RealClock = \<lparr>Now = RealClock_Now, Sleep = RealClock_Sleep\<rparr>"

section \<open>One poll and one snapshot\<close>

definition containerOK :: "bool \<Rightarrow> bool \<Rightarrow> ContainerStatus \<Rightarrow> bool" where
  "containerOK tolerateStarting tolerateRestarting c \<longleftrightarrow>
     Completed c
     \<or> (tolerateRestarting \<and> c_State c = StateRestarting)
     \<or> (c_State c = StateRunning
        \<and> ((tolerateStarting \<and> c_Health c = HealthStarting)
            \<or> c_Health c \<in> {[], HealthNone, HealthHealthy}))"

lemma evaluateContainers_iff:
  "fst (evaluateContainers cs a b) \<longleftrightarrow> (\<forall>c \<in> set cs. containerOK a b c)"
  by (induction cs a b rule: evaluateContainers.induct) (auto simp: containerOK_def health_consts)

lemma evaluateContainers_reason:
  "fst (evaluateContainers cs a b) \<longleftrightarrow> snd (evaluateContainers cs a b) = []"
  by (induction cs a b rule: evaluateContainers.induct) auto

lemma evaluate_iff: "fst (evaluate snap a b) \<longleftrightarrow> (\<forall>c \<in> set (Containers snap). containerOK a b c)"
  by (simp add: evaluate_def evaluateContainers_iff)

lemma evaluate_mono:
  "fst (evaluate snap a b) \<Longrightarrow> (a \<longrightarrow> a') \<Longrightarrow> (b \<longrightarrow> b') \<Longrightarrow> fst (evaluate snap a' b')"
  unfolding evaluate_iff containerOK_def by blast

lemma set_sortedIDs [simp]: "set (sortedIDs cs) = c_ID ` set cs"
  by (simp add: sortedIDs_def)

lemma missingContainers_None_iff:
  "missingContainers baseline cur = None \<longleftrightarrow> c_ID ` set baseline \<subseteq> c_ID ` set cur"
  by (auto simp: missingContainers_def Let_def find_None_iff find_Some_iff split: option.splits)
    (metis image_eqI nth_mem set_sortedIDs subsetD)

text \<open>What one poll demands of one container before any streak is looked at.\<close>

definition terminalOK :: "WatchOptions \<Rightarrow> (string \<rightharpoonup> int) \<Rightarrow> ContainerStatus \<Rightarrow> bool" where
  "terminalOK opts restarts0 c \<longleftrightarrow>
     (c_State c = StateExited \<longrightarrow> c_ExitCode c = 0)
     \<and> c_State c \<notin> {StateDead, StateRemoving}
     \<and> restartDelta restarts0 c \<le> RestartTolerance opts"

definition wedged :: "ContainerStatus \<Rightarrow> bool" where
  "wedged c \<longleftrightarrow> \<not> Completed c \<and> c_State c \<noteq> StateRunning"

definition failing :: "ContainerStatus \<Rightarrow> bool" where
  "failing c \<longleftrightarrow> c_State c = StateRunning
     \<and> c_Health c \<notin> {[], HealthNone, HealthHealthy, HealthStarting}"

lemma stepContainer_Inr_terminal:
  "stepContainer opts r0 st c = Inr st' \<Longrightarrow> terminalOK opts r0 c"
  by (auto simp: stepContainer_def terminalOK_def Completed_def Let_def split: if_splits)

lemma stepContainers_Inr_terminal:
  "stepContainers opts r0 st cs = Inr st' \<Longrightarrow> \<forall>c \<in> set cs. terminalOK opts r0 c"
  by (induction cs arbitrary: st) (auto split: sum.splits dest: stepContainer_Inr_terminal)


section \<open>Streaks\<close>

text \<open>
  The counters of a container only move in its own step: the wedged counter counts its wedged
  polls since it last ran, the unhealthy counter its failing polls since it was last well, and
  neither reaches the limit in a watch that goes on.
\<close>

lemma stepContainer_other:
  assumes "stepContainer opts r0 st c = Inr st'" and "c_ID c \<noteq> i"
  shows "wedgedStreaks st' i = wedgedStreaks st i \<and> unhealthyStreaks st' i = unhealthyStreaks st i"
  using assms by (auto simp: stepContainer_def Let_def split: if_splits)

lemma stepContainer_wedged:
  assumes "stepContainer opts r0 st c = Inr st'" and "wedged c"
  shows "mapGet (wedgedStreaks st') (c_ID c) = mapGet (wedgedStreaks st) (c_ID c) + 1
     \<and> mapGet (wedgedStreaks st') (c_ID c) < UnhealthyStreakLimit opts"
  using assms by (auto simp: stepContainer_def wedged_def Let_def mapGet_def split: if_splits)

lemma stepContainer_failing:
  assumes "stepContainer opts r0 st c = Inr st'" and "failing c"
  shows "mapGet (unhealthyStreaks st') (c_ID c) = mapGet (unhealthyStreaks st) (c_ID c) + 1
     \<and> mapGet (unhealthyStreaks st') (c_ID c) < UnhealthyStreakLimit opts"
  using assms
  by (auto simp: stepContainer_def failing_def Completed_def health_consts Let_def mapGet_def split: if_splits)

lemma stepContainers_other:
  "stepContainers opts r0 st cs = Inr st' \<Longrightarrow> i \<notin> c_ID ` set cs \<Longrightarrow>
     wedgedStreaks st' i = wedgedStreaks st i \<and> unhealthyStreaks st' i = unhealthyStreaks st i"
proof (induction cs arbitrary: st)
  case (Cons c cs)
  then obtain st1 where "stepContainer opts r0 st c = Inr st1" and "stepContainers opts r0 st1 cs = Inr st'"
    by (auto split: sum.splits)
  with Cons show ?case using stepContainer_other [of opts r0 st c st1 i] by auto
qed simp

lemma stepContainers_member:
  assumes "stepContainers opts r0 st cs = Inr st'" and "c \<in> set cs" and "distinct (map c_ID cs)"
  shows "\<exists>st1 st2. stepContainer opts r0 st1 c = Inr st2
     \<and> wedgedStreaks st1 (c_ID c) = wedgedStreaks st (c_ID c)
     \<and> unhealthyStreaks st1 (c_ID c) = unhealthyStreaks st (c_ID c)
     \<and> wedgedStreaks st' (c_ID c) = wedgedStreaks st2 (c_ID c)
     \<and> unhealthyStreaks st' (c_ID c) = unhealthyStreaks st2 (c_ID c)"
  using assms
proof (induction cs arbitrary: st)
  case (Cons d cs)
  then obtain sd where d: "stepContainer opts r0 st d = Inr sd" and rest: "stepContainers opts r0 sd cs = Inr st'"
    by (auto split: sum.splits)
  show ?case
  proof (cases "c = d")
    case True
    with Cons.prems d rest show ?thesis
      using stepContainers_other [OF rest, of "c_ID c"] by auto
  next
    case False
    with Cons.prems have "c \<in> set cs" and "c_ID d \<noteq> c_ID c"
      by auto
    with Cons.IH [OF rest] Cons.prems(3) show ?thesis
      using stepContainer_other [OF d, of "c_ID c"] by auto
  qed
qed simp

text \<open>The polls of a watch as a list of snapshots.\<close>

fun runPolls :: "WatchOptions \<Rightarrow> Snapshot \<Rightarrow> Streaks \<Rightarrow> Snapshot list \<Rightarrow> string + Streaks" where
  "runPolls opts baseline st [] = Inr st"
| "runPolls opts baseline st (s # ss) =
     (case pollStep opts baseline st s of
        Inl reason \<Rightarrow> Inl reason
      | Inr st' \<Rightarrow> runPolls opts baseline st' ss)"

lemma runPolls_append:
  "runPolls opts b st (xs @ ys) =
     (case runPolls opts b st xs of Inl r \<Rightarrow> Inl r | Inr st' \<Rightarrow> runPolls opts b st' ys)"
  by (induction xs arbitrary: st) (auto split: sum.splits)

text \<open>A poll that does not end the watch.\<close>

definition pollOK :: "WatchOptions \<Rightarrow> Snapshot \<Rightarrow> Snapshot \<Rightarrow> bool" where
  "pollOK opts baseline cur \<longleftrightarrow> populated cur opts
     \<and> c_ID ` set (Containers baseline) \<subseteq> c_ID ` set (Containers cur)
     \<and> (\<forall>c \<in> set (Containers cur). terminalOK opts (baselineRestarts (Containers baseline)) c)"

lemma pollStep_Inr:
  "pollStep opts baseline st cur = Inr st' \<Longrightarrow> pollOK opts baseline cur
     \<and> stepContainers opts (baselineRestarts (Containers baseline)) st (Containers cur) = Inr st'"
  by (auto simp: pollStep_def pollOK_def missingContainers_None_iff split: if_splits option.splits
      dest: stepContainers_Inr_terminal)

lemma runPolls_Inr_pollOK: "runPolls opts b st ps = Inr st' \<Longrightarrow> \<forall>s \<in> set ps. pollOK opts b s"
  by (induction ps arbitrary: st) (auto split: sum.splits dest: pollStep_Inr)

definition streakOf :: "(ContainerStatus \<Rightarrow> bool) \<Rightarrow> string \<Rightarrow> Snapshot \<Rightarrow> bool" where
  "streakOf bad i s \<longleftrightarrow> distinct (map c_ID (Containers s)) \<and> (\<exists>c \<in> set (Containers s). c_ID c = i \<and> bad c)"

lemma pollStep_streak:
  assumes "pollStep opts b st s = Inr st'"
  shows "streakOf wedged i s \<Longrightarrow> mapGet (wedgedStreaks st') i = mapGet (wedgedStreaks st) i + 1
           \<and> mapGet (wedgedStreaks st') i < UnhealthyStreakLimit opts"
    and "streakOf failing i s \<Longrightarrow> mapGet (unhealthyStreaks st') i = mapGet (unhealthyStreaks st) i + 1
           \<and> mapGet (unhealthyStreaks st') i < UnhealthyStreakLimit opts"
proof -
  from pollStep_Inr [OF assms]
  have step: "stepContainers opts (baselineRestarts (Containers b)) st (Containers s) = Inr st'" by blast
  show "mapGet (wedgedStreaks st') i = mapGet (wedgedStreaks st) i + 1
      \<and> mapGet (wedgedStreaks st') i < UnhealthyStreakLimit opts" if "streakOf wedged i s"
  proof -
    from that obtain c where "c \<in> set (Containers s)" "c_ID c = i" "wedged c" "distinct (map c_ID (Containers s))"
      by (auto simp: streakOf_def)
    with stepContainers_member [OF step, of c] show ?thesis
      using stepContainer_wedged by (fastforce simp: mapGet_def)
  qed
  show "mapGet (unhealthyStreaks st') i = mapGet (unhealthyStreaks st) i + 1
      \<and> mapGet (unhealthyStreaks st') i < UnhealthyStreakLimit opts" if "streakOf failing i s"
  proof -
    from that obtain c where "c \<in> set (Containers s)" "c_ID c = i" "failing c" "distinct (map c_ID (Containers s))"
      by (auto simp: streakOf_def)
    with stepContainers_member [OF step, of c] show ?thesis
      using stepContainer_failing by (fastforce simp: mapGet_def)
  qed
qed

text \<open>Counters are never negative.\<close>

definition countersOK :: "Streaks \<Rightarrow> bool" where
  "countersOK st \<longleftrightarrow> (\<forall>i. 0 \<le> mapGet (wedgedStreaks st) i \<and> 0 \<le> mapGet (unhealthyStreaks st) i)"

lemma stepContainer_countersOK:
  "stepContainer opts r0 st c = Inr st' \<Longrightarrow> countersOK st \<Longrightarrow> countersOK st'"
  by (auto simp: countersOK_def stepContainer_def Let_def split: if_splits)

lemma stepContainers_countersOK:
  "stepContainers opts r0 st cs = Inr st' \<Longrightarrow> countersOK st \<Longrightarrow> countersOK st'"
  by (induction cs arbitrary: st) (auto split: sum.splits dest: stepContainer_countersOK)

lemma runPolls_countersOK: "runPolls opts b st ps = Inr st' \<Longrightarrow> countersOK st \<Longrightarrow> countersOK st'"
  by (induction ps arbitrary: st)
    (auto split: sum.splits dest!: pollStep_Inr intro: stepContainers_countersOK)

lemma runPolls_streak_count:
  "runPolls opts b st ps = Inr st' \<Longrightarrow> (\<forall>s \<in> set ps. streakOf wedged i s) \<Longrightarrow>
     mapGet (wedgedStreaks st') i = mapGet (wedgedStreaks st) i + int (length ps)
     \<and> (ps \<noteq> [] \<longrightarrow> mapGet (wedgedStreaks st') i < UnhealthyStreakLimit opts)"
  "runPolls opts b st ps = Inr st' \<Longrightarrow> (\<forall>s \<in> set ps. streakOf failing i s) \<Longrightarrow>
     mapGet (unhealthyStreaks st') i = mapGet (unhealthyStreaks st) i + int (length ps)
     \<and> (ps \<noteq> [] \<longrightarrow> mapGet (unhealthyStreaks st') i < UnhealthyStreakLimit opts)"
proof (induction ps arbitrary: st)
  case (Cons s ps)
  {
    case 1
    then obtain st1 where "pollStep opts b st s = Inr st1" "runPolls opts b st1 ps = Inr st'"
      by (auto split: sum.splits)
    with 1 Cons.IH(1) [of st1] show ?case
      using pollStep_streak(1) [of opts b st s st1 i] by (cases ps) auto
  next
    case 2
    then obtain st1 where "pollStep opts b st s = Inr st1" "runPolls opts b st1 ps = Inr st'"
      by (auto split: sum.splits)
    with 2 Cons.IH(2) [of st1] show ?case
      using pollStep_streak(2) [of opts b st s st1 i] by (cases ps) auto
  }
qed auto

text \<open>No container is bad in \<open>UnhealthyStreakLimit\<close> consecutive polls of a watch that went on.\<close>

lemma runPolls_streak_bound:
  assumes "runPolls opts b noStreaks (xs @ ys @ zs) = Inr st'" and "bad \<in> {wedged, failing}"
    and "\<forall>s \<in> set ys. streakOf bad i s" and "1 \<le> UnhealthyStreakLimit opts"
  shows "int (length ys) < UnhealthyStreakLimit opts"
proof -
  from assms(1) obtain s1 s2 where s1: "runPolls opts b noStreaks xs = Inr s1" and s2: "runPolls opts b s1 ys = Inr s2"
    by (auto simp: runPolls_append split: sum.splits)
  have nonneg: "0 \<le> mapGet (wedgedStreaks s1) i" "0 \<le> mapGet (unhealthyStreaks s1) i"
    using runPolls_countersOK [OF s1] by (simp_all add: countersOK_def noStreaks_def mapGet_def)
  consider "ys = []" | "ys \<noteq> []" "\<forall>s \<in> set ys. streakOf wedged i s" | "ys \<noteq> []" "\<forall>s \<in> set ys. streakOf failing i s"
    using assms(2,3) by blast
  then show ?thesis
  proof cases
    case 1
    with assms(4) show ?thesis by simp
  next
    case 2
    with runPolls_streak_count(1) [OF s2, of i] nonneg show ?thesis by simp
  next
    case 3
    with runPolls_streak_count(2) [OF s2, of i] nonneg show ?thesis by simp
  qed
qed

section \<open>The whole watch\<close>

text \<open>
  \<open>tapSnap\<close> and \<open>tapClock\<close> run a snapshotter and a clock over a world that also keeps the list of
  the snapshots taken so far, so that a theorem can speak of what a watch has seen.
\<close>

definition tap :: "('w, 'a) state \<Rightarrow> ('a \<Rightarrow> 'e list) \<Rightarrow> ('e list \<times> 'w, 'a) state" where
  "tap m logs = State (\<lambda>(es, w). case run_state m w of (a, w') \<Rightarrow> (a, (es @ logs a, w')))"

definition tapSnap :: "'w Snapshotter \<Rightarrow> (Snapshot list \<times> 'w) Snapshotter" where
  "tapSnap snap = (\<lambda>c n. tap (snap c n) (\<lambda>r. case r of Inl _ \<Rightarrow> [] | Inr s \<Rightarrow> [s]))"

definition tapClock :: "'w Clock \<Rightarrow> ('e list \<times> 'w) Clock" where
  "tapClock clock = \<lparr>Now = tap (Now clock) (\<lambda>_. []), Sleep = (\<lambda>c d. tap (Sleep clock c d) (\<lambda>_. []))\<rparr>"

definition tapErr :: "'w CtxErr \<Rightarrow> ('e list \<times> 'w) CtxErr" where
  "tapErr ctxErr = (\<lambda>c. tap (ctxErr c) (\<lambda>_. []))"

lemma run_tap [simp]:
  "run_state (tap m logs) (es, w) = (case run_state m w of (a, w') \<Rightarrow> (a, (es @ logs a, w')))"
  by (simp add: tap_def)

text \<open>A loop that ends healthy has polled at least once, and its polls pass from the streaks it
  started with; the last of them passes the final verdict.\<close>

lemma watchLoop_healthy:
  assumes "run_state (watchLoop fuel (tapErr ce) (tapSnap snap) (tapClock clock) c opts b deadline st first latest)
             (log, w) = (Some (Inr r), (log', w'))"
    and "w_Outcome r = Healthy"
  shows "\<exists>polls st'. log' = log @ polls \<and> runPolls opts b st polls = Inr st'
     \<and> (first \<longrightarrow> polls \<noteq> []) \<and> w_Baseline r = b
     \<and> fst (evaluate (last (latest # polls)) False True)"
  using assms
proof (induction fuel arbitrary: st first latest log w)
  case 0
  then show ?case by simp
next
  case (Suc fuel)
  show ?case
  proof (cases "\<exists>w1. first = False \<and> log' = log
      \<and> run_state (watchLoop (Suc fuel) (tapErr ce) (tapSnap snap) (tapClock clock) c opts b deadline st first latest)
             (log, w) = (Some (Inr (finalVerdict b latest)), (log, w1))")
    case True
    with Suc.prems have "r = finalVerdict b latest" "\<not> first" "log' = log" by auto
    with Suc.prems(2) show ?thesis
      by (intro exI [of _ "[]"] exI [of _ st])
        (auto simp: finalVerdict_def evaluate_def split: prod.splits bool.splits)
  next
    case False
    with Suc.prems obtain cur st1 w1 where
      step: "pollStep opts b st cur = Inr st1"
      and rest: "run_state (watchLoop fuel (tapErr ce) (tapSnap snap) (tapClock clock) c opts b deadline st1 False cur)
        (log @ [cur], w1) = (Some (Inr r), (log', w'))"
      by (auto simp: tapSnap_def tapClock_def tapErr_def unhealthyResult_def zeroResult_def
          split: prod.splits if_splits sum.splits option.splits)
    from Suc.IH [OF rest Suc.prems(2)] obtain polls st' where
      "log' = (log @ [cur]) @ polls" "runPolls opts b st1 polls = Inr st'" "w_Baseline r = b"
      "fst (evaluate (last (cur # polls)) False True)"
      by blast
    with step show ?thesis
      by (intro exI [of _ "cur # polls"] exI [of _ st']) auto
  qed
qed

text \<open>What a healthy verdict of \<open>Watch\<close> rests on.\<close>

lemma Watch_healthy:
  assumes "run_state (Watch (tapErr ce) (tapSnap snap) (tapClock clock) c opts) ([], w) = (Inr r, (log, w'))"
    and "w_Outcome r = Healthy" and "0 < WatchDuration opts"
  shows "\<exists>baseline polls st'. log = baseline # polls \<and> polls \<noteq> [] \<and> w_Baseline r = baseline
     \<and> populated baseline opts \<and> runPolls opts baseline noStreaks polls = Inr st'
     \<and> fst (evaluate (last polls) False True)"
proof -
  from assms(1,3) obtain baseline w1 now w2 where
    pop: "populated baseline opts" and
    loop: "run_state (watchLoop (watchFuel opts) (tapErr ce) (tapSnap snap) (tapClock clock) c opts baseline
        (now + WatchDuration opts) noStreaks True baseline) ([baseline], w2) = (Some (Inr r), (log, w'))"
    using assms(2)
    by (auto simp: Watch_def tapSnap_def tapClock_def unhealthyResult_def
        split: prod.splits sum.splits if_splits option.splits)
  from watchLoop_healthy [OF loop assms(2)] pop show ?thesis
    by fastforce
qed

section \<open>The watch ends\<close>

text \<open>
  A clock that does not run backwards and whose completed sleeps last: \<open>reading\<close> is the time the
  world's clock shows.
\<close>

locale advancing_clock =
  fixes clock :: "'w Clock" and reading :: "'w \<Rightarrow> time"
  assumes now_reads: "run_state (Now clock) w = (t, w') \<Longrightarrow> reading w \<le> t \<and> t \<le> reading w'"
    and sleep_lasts: "run_state (Sleep clock c d) w = (True, w') \<Longrightarrow> 0 \<le> d \<Longrightarrow> reading w + d \<le> reading w'"
begin

lemma watchLoop_enough_fuel:
  assumes snap: "\<And>c n w r w'. run_state (snap c n) w = (r, w') \<Longrightarrow> reading w \<le> reading w'"
    and interval: "0 < PollInterval opts"
    and fuel: "deadline - reading w \<le> PollInterval opts * (int fuel - 1)"
    and "(if first then 2 else 1) \<le> fuel"
  shows "\<exists>r w'. run_state (watchLoop fuel ce snap clock c opts b deadline st first latest) w = (Some r, w')"
  using fuel assms(4)
proof (induction fuel arbitrary: st first latest w)
  case 0
  then show ?case by (simp split: if_splits)
next
  case (Suc fuel)
  obtain go w1 where go: "run_state (if first then ret True else do { t \<leftarrow> Now clock; ret (t < deadline) }) w = (go, w1)"
    by fastforce
  have w1: "reading w \<le> reading w1" and go_time: "\<not> first \<Longrightarrow> go \<Longrightarrow> reading w < deadline"
    using go now_reads [of w] by (cases first; fastforce split: prod.splits)+
  show ?case
  proof (cases go)
    case False
    with go show ?thesis by simp
  next
    case True
    obtain ok w2 where sl: "run_state (Sleep clock c (PollInterval opts)) w1 = (ok, w2)"
      by fastforce
    obtain r w3 where sn: "run_state (snap c (ProjectName opts)) w2 = (r, w3)"
      by fastforce
    have adv: "ok \<Longrightarrow> reading w + PollInterval opts \<le> reading w3"
      using sleep_lasts [of c "PollInterval opts" w1 w2] sl snap [OF sn] w1 interval by auto
    have rec: "\<exists>r w'. run_state (watchLoop fuel ce snap clock c opts b deadline st1 False cur) w3 = (Some r, w')"
      if ok for st1 cur
    proof (rule Suc.IH)
      show "deadline - reading w3 \<le> PollInterval opts * (int fuel - 1)"
        using Suc.prems(1) adv [OF that] by (simp add: algebra_simps)
      have "first \<or> 0 < PollInterval opts * int fuel"
      proof (cases first)
        case False
        with go_time True have "reading w < deadline" by simp
        with Suc.prems(1) show ?thesis by simp
      qed simp
      then show "(if False then 2 else 1) \<le> fuel"
        using Suc.prems(2) interval by (auto simp: zero_less_mult_iff split: if_splits)
    qed
    with go True sl sn show ?thesis
      by (cases ok; cases r) (auto split: prod.splits sum.splits)
  qed
qed

lemma Watch_returns:
  assumes snap: "\<And>c n w r w'. run_state (snap c n) w = (r, w') \<Longrightarrow> reading w \<le> reading w'"
    and "0 < PollInterval opts" and "0 < WatchDuration opts"
    and "now \<le> reading w"
  shows "\<exists>r w'. run_state (watchLoop (watchFuel opts) ce snap clock c opts b (now + WatchDuration opts)
                   noStreaks True b) w = (Some r, w')"
proof (rule watchLoop_enough_fuel [OF snap])
  let ?W = "WatchDuration opts" and ?P = "PollInterval opts"
  have "?W mod ?P < ?P"
    using assms(2) by simp
  then have "?W \<le> ?P * (?W div ?P + 1)"
    using mult_div_mod_eq [of ?P ?W] by (simp only: distrib_left mult_1_right)
  moreover have "0 \<le> ?W div ?P"
    using assms(2,3) by (simp add: pos_imp_zdiv_nonneg_iff)
  ultimately show "now + ?W - reading w \<le> ?P * (int (watchFuel opts) - 1)"
    using assms(4) by (simp add: watchFuel_def add.commute)
qed (use assms in \<open>auto simp: watchFuel_def\<close>)

end


interpretation real_clock: advancing_clock RealClock wall
  by unfold_locales
    (auto simp: RealClock_def RealClock_Now_def RealClock_Sleep_def split: list.splits prod.splits if_splits)

section \<open>Lemmas on comparing and building snapshots\<close>

lemma set_services [simp]: "set (services cs) = c_Service ` set cs"
  by (simp add: services_def)

lemma containerIDs_eq_iff_mset:
  "containerIDs a s = containerIDs b s \<longleftrightarrow>
     mset (map c_ID (filter (\<lambda>c. c_Service c = s) a)) = mset (map c_ID (filter (\<lambda>c. c_Service c = s) b))"
proof (unfold containerIDs_def, rule iffI [rotated])
  let ?xs = "map c_ID (filter (\<lambda>c. c_Service c = s) a)" and ?ys = "map c_ID (filter (\<lambda>c. c_Service c = s) b)"
  assume "mset ?xs = mset ?ys"
  then have "mset (sort ?xs) = mset ?ys" by simp
  then show "sort ?xs = sort ?ys" by (metis properties_for_sort sorted_sort)
qed (metis mset_sort)

lemma containerIDs_empty_iff: "containerIDs cs s = [] \<longleftrightarrow> s \<notin> c_Service ` set cs"
proof -
  have "set (containerIDs cs s) = c_ID ` {c \<in> set cs. c_Service c = s}"
    by (simp add: containerIDs_def)
  moreover have "containerIDs cs s = [] \<longleftrightarrow> set (containerIDs cs s) = {}"
    by simp
  ultimately show ?thesis by auto
qed

lemma set_ChangedServices:
  "set (ChangedServices before after) =
     {s. containerIDs (Containers after) s \<noteq> containerIDs (Containers before) s}"
proof -
  have "s \<in> set (ChangedServices before after) \<longleftrightarrow>
      containerIDs (Containers after) s \<noteq> containerIDs (Containers before) s" for s
    using containerIDs_empty_iff [of "Containers after" s] containerIDs_empty_iff [of "Containers before" s]
    by (simp add: ChangedServices_def Let_def) auto
  then show ?thesis by blast
qed

lemma distinct_ChangedServices: "distinct (ChangedServices before after)"
  by (auto simp: ChangedServices_def Let_def services_def)

lemma inspectAll_Inr:
  assumes "inspectAll inspect ss = Inr out"
  shows "map c_ID out = map s_ID (filter (\<lambda>s. \<exists>n. inspect (s_ID s) = Inr n) ss)
     \<and> (\<forall>s \<in> set ss. \<forall>e. inspect (s_ID s) = Inl e \<longrightarrow> isNotFound e)"
  using assms by (induction ss arbitrary: out) (auto split: sum.splits if_splits)

lemma inspectAll_Inl:
  assumes "inspectAll inspect ss = Inl e"
  shows "\<exists>s \<in> set ss. \<exists>e'. inspect (s_ID s) = Inl e' \<and> \<not> isNotFound e'
           \<and> e = wrapf (''inspecting container '' @ s_ID s @ '': '') e'"
  using assms by (induction ss) (auto split: sum.splits if_splits)

text \<open>The watch has no effects but those of its interfaces.\<close>

lemma keeps_watchLoop:
  assumes "\<And>c. keeps I (ce c)" "\<And>c n. keeps I (snap c n)" "keeps I (Now clock)" "\<And>c t. keeps I (Sleep clock c t)"
  shows "keeps I (watchLoop fuel ce snap clock c opts b deadline st first latest)"
proof (induction fuel arbitrary: st first latest)
  case 0
  show ?case by (simp add: keeps_return)
next
  case (Suc fuel)
  show ?case unfolding watchLoop.simps by (intro keeps_intros assms Suc)
qed

lemma keeps_Watch [keeps_intros]:
  assumes "\<And>c. keeps I (ce c)" "\<And>c n. keeps I (snap c n)" "keeps I (Now clock)" "\<And>c t. keeps I (Sleep clock c t)"
  shows "keeps I (Watch ce snap clock c opts)"
  unfolding Watch_def by (intro keeps_intros keeps_watchLoop assms)

section \<open>Properties\<close>

text \<open>A concrete project for the witnesses: one healthy container, watched on the real clock.\<close>

definition demoContainer :: ContainerStatus where
  "demoContainer = \<lparr>c_ID = ''x'', c_Service = ''web'', c_State = StateRunning, c_Health = HealthHealthy,
     c_RestartCount = 0, c_ExitCode = 0\<rparr>"

definition demoSnapshot :: Snapshot where
  "demoSnapshot = \<lparr>Containers = [demoContainer], Taken = 0\<rparr>"

definition demoOptions :: WatchOptions where
  "demoOptions = \<lparr>ProjectName = ''p'', WatchDuration = 10, PollInterval = 5, UnhealthyStreakLimit = 3,
     RestartTolerance = 1, ExpectContainers = True\<rparr>"

definition demoMachine :: machine where
  "demoMachine = \<lparr>wall = 0, wakeups = []\<rparr>"


text \<open>C33: a healthy verdict of the watch is earned. When a watch with a positive duration ends healthy,
  it took a baseline and at least one poll; in every poll the project had containers if it should
  have, no baseline container was missing, no container had exited with an error, was dead or
  being removed, or had restarted more often than tolerated; no container was reported not
  running, or unhealthy, in as many consecutive polls as the streak limit; and in the last poll
  every container was completed, restarting, or running and not unhealthy or still starting.\<close>

theorem watch_healthy_sound:
  assumes "run_state (Watch (tapErr ce) (tapSnap snap) (tapClock clock) c opts) ([], w) = (Inr r, (log, w'))"
    and "w_Outcome r = Healthy" and "0 < WatchDuration opts" and "1 \<le> UnhealthyStreakLimit opts"
  shows "\<exists>baseline polls. log = baseline # polls \<and> polls \<noteq> [] \<and> w_Baseline r = baseline
     \<and> populated baseline opts \<and> (\<forall>s \<in> set polls. pollOK opts baseline s)
     \<and> (\<forall>xs ys zs i. \<forall>bad \<in> {wedged, failing}. polls = xs @ ys @ zs \<and> (\<forall>s \<in> set ys. streakOf bad i s)
          \<longrightarrow> int (length ys) < UnhealthyStreakLimit opts)
     \<and> (\<forall>k \<in> set (Containers (last polls)). containerOK False True k)"
proof -
  from Watch_healthy [OF assms(1-3)] obtain baseline polls st' where
    *: "log = baseline # polls" "polls \<noteq> []" "w_Baseline r = baseline" "populated baseline opts"
    and run: "runPolls opts baseline noStreaks polls = Inr st'" and last: "fst (evaluate (last polls) False True)"
    by blast
  have "int (length ys) < UnhealthyStreakLimit opts"
    if "bad \<in> {wedged, failing}" "polls = xs @ ys @ zs" "\<forall>s \<in> set ys. streakOf bad i s" for xs ys zs i bad
    using runPolls_streak_bound [OF run [unfolded that(2)] that(1,3) assms(4)] .
  with * runPolls_Inr_pollOK [OF run] last show ?thesis
    unfolding evaluate_iff by blast
qed


theorem watch_healthy_sound_witness:
  "\<exists>baseline polls. [demoSnapshot, demoSnapshot, demoSnapshot] = baseline # polls
     \<and> list_all (pollOK demoOptions baseline) polls"
proof -
  have run: "run_state (Watch (tapErr (\<lambda>_. ret None)) (tapSnap (\<lambda>_ _. ret (Inr demoSnapshot))) (tapClock RealClock)
      CallerCtx demoOptions) ([], demoMachine) =
    (Inr \<lparr>w_Outcome = Healthy, w_Reason = [], w_Failures = [], w_Baseline = demoSnapshot\<rparr>,
     ([demoSnapshot, demoSnapshot, demoSnapshot], \<lparr>wall = 10, wakeups = []\<rparr>))"
    by code_simp
  show ?thesis
    using watch_healthy_sound [OF run] by (auto simp: demoOptions_def list_all_iff)
qed

text \<open>C35: on the real clock a watch ends. With a positive poll interval and duration, the bound on the
  number of polls that the model gives the loop is enough on every machine, whatever the snapshots
  say, however late timers fire and whether or not the context is cancelled: the loop never runs
  out of fuel. Snapshots may take any time, but do not turn the clock back.\<close>

theorem watch_terminates_on_real_clock:
  assumes "0 < PollInterval opts" and "0 < WatchDuration opts"
    and "\<forall>c n m. wall m \<le> wall (snd (run_state (snap c n) m))"
  shows "\<exists>r m'. run_state (watchLoop (watchFuel opts) ce snap RealClock c opts b (wall m + WatchDuration opts)
            noStreaks True b) m = (Some r, m')"
  using assms by (intro real_clock.Watch_returns) (metis snd_conv, simp_all)

theorem watch_terminates_on_real_clock_witness:
  "\<exists>r m'. run_state (watchLoop (watchFuel demoOptions) (\<lambda>_. ret None) (\<lambda>_ _. ret (Inr demoSnapshot)) RealClock
       CallerCtx demoOptions demoSnapshot (wall demoMachine + WatchDuration demoOptions) noStreaks True demoSnapshot)
       demoMachine = (Some r, m')"
  by (rule watch_terminates_on_real_clock) (simp_all add: demoOptions_def)

text \<open>The pre-flight gate. It lets a snapshot pass exactly when every container has completed with
  exit code 0, is restarting, or is running with no health check, a healthy one or one still
  starting; it never blocks what the strict evaluation or the final verdict of a watch accepts, and it
  gives a reason exactly when it blocks.\<close>

theorem preflight_gate:
  "(fst (EvaluatePreflight snap) \<longleftrightarrow> (\<forall>c \<in> set (Containers snap).
      (c_State c = StateExited \<and> c_ExitCode c = 0) \<or> c_State c = StateRestarting
      \<or> (c_State c = StateRunning \<and> c_Health c \<in> {[], HealthNone, HealthHealthy, HealthStarting})))
   \<and> (fst (Evaluate snap) \<longrightarrow> fst (evaluate snap False True))
   \<and> (fst (evaluate snap False True) \<longrightarrow> fst (EvaluatePreflight snap))
   \<and> (fst (EvaluatePreflight snap) \<longleftrightarrow> snd (EvaluatePreflight snap) = [])"
proof -
  have "fst (Evaluate snap) \<longrightarrow> fst (evaluate snap False True)"
    and "fst (evaluate snap False True) \<longrightarrow> fst (EvaluatePreflight snap)"
    unfolding Evaluate_def EvaluatePreflight_def using evaluate_mono by blast+
  moreover have "fst (EvaluatePreflight snap) \<longleftrightarrow> snd (EvaluatePreflight snap) = []"
    by (simp add: EvaluatePreflight_def evaluate_def evaluateContainers_reason)
  moreover have "fst (EvaluatePreflight snap) \<longleftrightarrow> (\<forall>c \<in> set (Containers snap). containerOK True True c)"
    by (simp add: EvaluatePreflight_def evaluate_iff)
  ultimately show ?thesis unfolding containerOK_def Completed_def by blast
qed

theorem preflight_gate_witness: "fst (EvaluatePreflight demoSnapshot)"
  using preflight_gate [of demoSnapshot]
  by (simp add: demoSnapshot_def demoContainer_def StateRunning_def HealthHealthy_def)

text \<open>The services reported as updated by a deployment are exactly those whose multiset of container
  ids differs between the snapshot before and the one after, in sorted order without duplicates:
  a recreated, added or removed container always shows, an untouched service never does.\<close>

theorem changed_services_exact:
  "(s \<in> set (ChangedServices before after) \<longleftrightarrow>
      mset (map c_ID (filter (\<lambda>c. c_Service c = s) (Containers after)))
        \<noteq> mset (map c_ID (filter (\<lambda>c. c_Service c = s) (Containers before))))
   \<and> sorted (ChangedServices before after) \<and> distinct (ChangedServices before after)"
  unfolding set_ChangedServices containerIDs_eq_iff_mset
  by (simp add: distinct_ChangedServices) (simp add: ChangedServices_def Let_def)

text \<open>A snapshot is complete. When building one succeeds, it holds, in the order of the listing,
  exactly the listed containers that could be inspected, and every container left out had vanished
  (the inspection answered "not found"); any other inspection failure fails the whole snapshot with
  that error.\<close>

theorem snapshot_complete:
  "(case buildSnapshot inspect ss now of
      Inr snap \<Rightarrow> map c_ID (Containers snap) = map s_ID (filter (\<lambda>s. \<exists>n. inspect (s_ID s) = Inr n) ss)
        \<and> (\<forall>s \<in> set ss. \<forall>e. inspect (s_ID s) = Inl e \<longrightarrow> isNotFound e)
    | Inl e \<Rightarrow> \<exists>s \<in> set ss. \<exists>e'. inspect (s_ID s) = Inl e' \<and> \<not> isNotFound e'
        \<and> e = wrapf (''inspecting container '' @ s_ID s @ '': '') e')"
proof (cases "inspectAll inspect ss")
  case (Inl e)
  with inspectAll_Inl [OF this] show ?thesis by (simp add: buildSnapshot_def)
next
  case (Inr out)
  with inspectAll_Inr [OF this] show ?thesis by (simp add: buildSnapshot_def)
qed

theorem snapshot_complete_witness:
  "map c_ID (Containers (projr (buildSnapshot (\<lambda>i. if i = ''a'' then Inl (Leaf NotFound ''gone'') else Inr 2)
     [\<lparr>s_ID = ''a'', s_Service = ''w'', s_State = ''running'', s_Health = [], s_ExitCode = 0\<rparr>,
      \<lparr>s_ID = ''b'', s_Service = ''w'', s_State = ''running'', s_Health = [], s_ExitCode = 0\<rparr>] 0))) = [''b'']"
  using snapshot_complete [where inspect = "\<lambda>i. if i = ''a'' then Inl (Leaf NotFound ''gone'') else Inr 2"
      and ss = "[\<lparr>s_ID = ''a'', s_Service = ''w'', s_State = ''running'', s_Health = [], s_ExitCode = 0\<rparr>,
      \<lparr>s_ID = ''b'', s_Service = ''w'', s_State = ''running'', s_Health = [], s_ExitCode = 0\<rparr>]" and now = 0]
  by (simp add: buildSnapshot_def isNotFound_def errIs_def)

end
