(* ===== verification/GitSync.thy ===== *)
theory GitSync
  imports CL_Prelude
begin

text \<open>
  The Git client: \<^verbatim>\<open>internal/git/git.go\<close>. Every operation is a \<^verbatim>\<open>git\<close> command line handed to a
  \<open>Runner\<close> (\<^verbatim>\<open>execx.Runner\<close>), which is an interface; standard error only reaches the program
  through the error a run returns. \<open>retry\<close> is the fetch loop; its number of attempts is bounded by
  the configuration, so it is a structural recursion.
\<close>

definition FetchTimeout :: duration where "FetchTimeout = 2 * minute"
definition QueryTimeout :: duration where "QueryTimeout = 30 * second"
definition CheckoutTimeout :: duration where "CheckoutTimeout = 60 * second"

text \<open>\<open>Run ctx dir env name args\<close>: standard output and the error.\<close>

type_synonym 'w Runner =
  "ctx \<Rightarrow> string \<Rightarrow> string list \<Rightarrow> string \<Rightarrow> string list \<Rightarrow> ('w, string \<times> err option) state"

record 'w Syncer =
  Run :: "'w Runner"
  RepoPath :: string
  Remote :: string
  Branch :: string
  SSHKey :: string

record GitResult =
  g_Changed :: bool
  g_OldCommit :: string
  g_NewCommit :: string
  g_ChangedFiles :: "string list"

definition quote :: char where
  "quote = CHR 0x27"

fun replaceQuotes :: "string \<Rightarrow> string" where
  "replaceQuotes [] = []"
| "replaceQuotes (c # s) =
     (if c = quote then [quote, CHR 0x5C, quote, quote] @ replaceQuotes s else c # replaceQuotes s)"

definition shellQuote :: "string \<Rightarrow> string" where
  "shellQuote s = [quote] @ replaceQuotes s @ [quote]"

definition gitEnv :: "'w Syncer \<Rightarrow> string list" where
  "gitEnv s = (if SSHKey s = [] then []
     else [''GIT_SSH_COMMAND=ssh -i '' @ shellQuote (SSHKey s) @ '' -o IdentitiesOnly=yes''])"

definition run :: "'w Syncer \<Rightarrow> ctx \<Rightarrow> duration \<Rightarrow> string list \<Rightarrow> ('w, string \<times> err option) state" where
  "run s c timeout args = Run s (WithTimeout c timeout) (RepoPath s) (gitEnv s) ''git'' args"

definition git :: "'w Syncer \<Rightarrow> ctx \<Rightarrow> duration \<Rightarrow> string list \<Rightarrow> ('w, string \<times> err option) state" where
  "git s c timeout args = do { r \<leftarrow> run s c timeout args; ret (TrimSpace (fst r), snd r) }"

definition validCommit :: "string \<Rightarrow> bool" where
  "validCommit commit \<longleftrightarrow> 4 \<le> length commit \<and> length commit \<le> 64
     \<and> list_all (\<lambda>r. inRange (CHR ''0'') (CHR ''9'') r \<or> inRange (CHR ''a'') (CHR ''f'') r
                   \<or> inRange (CHR ''A'') (CHR ''F'') r) commit"

definition checkCommit :: "string \<Rightarrow> err option" where
  "checkCommit commit = (if \<not> validCommit commit
     then Some (errorf (Quote commit @ '' is not a commit id (expected 4 to 64 hex characters)''))
     else None)"

definition splitNUL :: "string \<Rightarrow> string list" where
  "splitNUL out = filter (\<lambda>f. f \<noteq> []) (SplitChar (CHR 0x00) out)"

definition fetch :: "'w Syncer \<Rightarrow> ctx \<Rightarrow> ('w, err option) state" where
  "fetch s c = do {
     r \<leftarrow> git s c FetchTimeout [''fetch'', ''--end-of-options'', Remote s, Branch s];
     ret (map_option (wrapf ''git fetch: '') (snd r))
   }"

definition Preview :: "'w Syncer \<Rightarrow> ctx \<Rightarrow> ('w, err + GitResult) state" where
  "Preview s c = do {
     r1 \<leftarrow> git s c QueryTimeout [''rev-parse'', ''--verify'', ''--end-of-options'', ''HEAD''];
     case snd r1 of
       Some e \<Rightarrow> ret (Inl (wrapf ''git rev-parse HEAD: '' e))
     | None \<Rightarrow> do {
         let oldCommit = fst r1;
         r2 \<leftarrow> git s c QueryTimeout [''rev-parse'', ''--verify'', ''--end-of-options'', Remote s @ ''/'' @ Branch s];
         case snd r2 of
           Some e \<Rightarrow> ret (Inl (wrapf (''git rev-parse '' @ Remote s @ ''/'' @ Branch s @ '': '') e))
         | None \<Rightarrow> do {
             let newCommit = fst r2;
             if oldCommit = newCommit
             then ret (Inr \<lparr>g_Changed = False, g_OldCommit = oldCommit, g_NewCommit = newCommit, g_ChangedFiles = []\<rparr>)
             else case errJoin [checkCommit oldCommit, checkCommit newCommit] of
               Some e \<Rightarrow> ret (Inl (wrapf ''git rev-parse: '' e))
             | None \<Rightarrow> do {
                 r3 \<leftarrow> run s c QueryTimeout [''diff'', ''--name-only'', ''-z'', oldCommit, newCommit];
                 case snd r3 of
                   Some e \<Rightarrow> ret (Inl (wrapf ''git diff: '' e))
                 | None \<Rightarrow> ret (Inr \<lparr>g_Changed = True, g_OldCommit = oldCommit, g_NewCommit = newCommit,
                     g_ChangedFiles = splitNUL (fst r3)\<rparr>)
               }
           }
       }
   }"

definition Checkout :: "'w Syncer \<Rightarrow> ctx \<Rightarrow> string \<Rightarrow> ('w, err option) state" where
  "Checkout s c commit =
     (case checkCommit commit of
        Some e \<Rightarrow> ret (Some (wrapf ''git checkout: '' e))
      | None \<Rightarrow> do {
          r \<leftarrow> git s c CheckoutTimeout [''checkout'', ''--detach'', ''--force'', commit];
          ret (map_option (wrapf (''git checkout '' @ commit @ '': '')) (snd r))
        })"

definition Describe :: "'w Syncer \<Rightarrow> ctx \<Rightarrow> string \<Rightarrow> ('w, err + (string \<times> string)) state" where
  "Describe s c commit =
     (case checkCommit commit of
        Some e \<Rightarrow> ret (Inl (wrapf ''git log: '' e))
      | None \<Rightarrow> do {
          r \<leftarrow> git s c QueryTimeout [''log'', ''-1'', ''--format=%s%x00%an'', commit];
          case snd r of
            Some e \<Rightarrow> ret (Inl (wrapf (''git log '' @ commit @ '': '') e))
          | None \<Rightarrow> (case Cut (fst r) [CHR 0x00] of (subject, author, _) \<Rightarrow> ret (Inr (subject, author)))
        })"

definition CountCommits :: "'w Syncer \<Rightarrow> ctx \<Rightarrow> string \<Rightarrow> string \<Rightarrow> ('w, err + int) state" where
  "CountCommits s c from to =
     (case errJoin [checkCommit from, checkCommit to] of
        Some e \<Rightarrow> ret (Inl (wrapf ''git rev-list: '' e))
      | None \<Rightarrow> do {
          r \<leftarrow> git s c QueryTimeout [''rev-list'', ''--count'', from @ ''..'' @ to];
          case snd r of
            Some e \<Rightarrow> ret (Inl (wrapf ''git rev-list: '' e))
          | None \<Rightarrow> (case Atoi (fst r) of
              None \<Rightarrow> ret (Inl (errorf (''git rev-list: parsing count '' @ Quote (fst r))))
            | Some n \<Rightarrow> ret (Inr n))
        })"

definition RemoteURL :: "'w Syncer \<Rightarrow> ctx \<Rightarrow> ('w, err + string) state" where
  "RemoteURL s c = do {
     r \<leftarrow> git s c QueryTimeout [''remote'', ''get-url'', ''--end-of-options'', Remote s];
     case snd r of
       Some e \<Rightarrow> ret (Inl (wrapf ''git remote get-url: '' e))
     | None \<Rightarrow> ret (Inr (fst r))
   }"

text \<open>
  The browser URL of a remote. \<open>parse\<close> is \<^verbatim>\<open>url.Parse\<close> with the accessors the code uses: scheme, host
  with port, host without port, path.
\<close>

record ParsedURL =
  pu_Scheme :: string
  pu_Host :: string
  pu_Hostname :: string
  pu_Path :: string

definition webURL :: "string \<Rightarrow> string \<Rightarrow> string \<Rightarrow> string" where
  "webURL scheme host path =
     (let slashes = dropWhile (\<lambda>c. c = CHR ''/'');
          p = TrimSuffix (rev (slashes (rev (slashes path)))) ''.git''
      in if host = [] \<or> p = [] then [] else scheme @ ''://'' @ host @ ''/'' @ p)"

definition WebURL :: "(string \<Rightarrow> ParsedURL option) \<Rightarrow> string \<Rightarrow> string" where
  "WebURL parse remote0 =
     (let remote = TrimSpace remote0
      in if \<not> Contains remote ''://'' then
           (case Cut remote ''@'' of (_, rest0, found) \<Rightarrow>
              let rest = (if \<not> found then remote else rest0)
              in case Cut rest '':'' of (host, path, ok) \<Rightarrow>
                   if \<not> ok \<or> host = [] \<or> CHR ''/'' \<in> set host \<or> CHR 0x5C \<in> set host then []
                   else webURL ''https'' host path)
         else case parse remote of
           None \<Rightarrow> []
         | Some u \<Rightarrow>
             if pu_Scheme u \<in> {''https'', ''http''} then webURL (pu_Scheme u) (pu_Host u) (pu_Path u)
             else if pu_Scheme u \<in> {''ssh'', ''git'', ''git+ssh''} then webURL ''https'' (pu_Hostname u) (pu_Path u)
             else [])"

definition permanentFetchErrors :: "string list" where
  "permanentFetchErrors = [''not a git repository'', ''does not appear to be a git repository'',
     ''couldn'' @ [quote] @ ''t find remote ref'', ''repository not found'', ''invalid refspec'']"

definition permanent :: "err \<Rightarrow> bool" where
  "permanent e \<longleftrightarrow> list_ex (Contains (ToLower (errText e))) permanentFetchErrors"

text \<open>
  The retry loop with \<open>n\<close> attempts left after the current one. \<open>ctxErr\<close> reads \<^verbatim>\<open>ctx.Err()\<close>, \<open>sleep\<close> is
  \<^verbatim>\<open>sleepCtx\<close>.
\<close>

fun retryLoop ::
  "('w, err option) state \<Rightarrow> ('w, bool) state \<Rightarrow> ('w, err option) state \<Rightarrow> nat \<Rightarrow> ('w, err option) state" where
  "retryLoop ctxErr sleep fn n = do {
     r \<leftarrow> fn;
     case r of
       None \<Rightarrow> ret None
     | Some e \<Rightarrow>
         if permanent e then ret (Some (wrapf ''git sync failed: '' e))
         else (case n of
           0 \<Rightarrow> ret (Some (wrapf ''git sync failed: '' e))
         | Suc m \<Rightarrow> do {
             ok \<leftarrow> sleep;
             if \<not> ok then ctxErr else retryLoop ctxErr sleep fn m
           })
   }"

definition retry ::
  "('w, err option) state \<Rightarrow> ('w, bool) state \<Rightarrow> int \<Rightarrow> ('w, err option) state \<Rightarrow> ('w, err option) state" where
  "retry ctxErr sleep attempts fn = retryLoop ctxErr sleep fn (nat (max attempts 1) - 1)"

definition Fetch ::
  "(ctx \<Rightarrow> ('w, err option) state) \<Rightarrow> (ctx \<Rightarrow> duration \<Rightarrow> ('w, bool) state) \<Rightarrow> 'w Syncer \<Rightarrow>
     ctx \<Rightarrow> int \<Rightarrow> duration \<Rightarrow> ('w, err + GitResult) state" where
  "Fetch ctxErr sleepCtx s c attempts delay = do {
     r \<leftarrow> retry (ctxErr c) (sleepCtx c delay) attempts (fetch s c);
     case r of
       Some e \<Rightarrow> ret (Inl e)
     | None \<Rightarrow> Preview s c
   }"

declare retryLoop.simps [simp del]

section \<open>Commit ids\<close>

lemma validCommit_no_dash: "validCommit c \<Longrightarrow> \<not> HasPrefix c ''-''"
  by (cases c) (auto simp: validCommit_def HasPrefix_def inRange_def less_eq_char_def byte_def)

lemma checkCommit_None_iff [simp]: "checkCommit c = None \<longleftrightarrow> validCommit c"
  by (simp add: checkCommit_def)

lemma splitNUL_output:
  assumes "\<forall>f \<in> set fs. f \<noteq> [] \<and> CHR 0x00 \<notin> set f"
  shows "splitNUL (concat (map (\<lambda>f. f @ [CHR 0x00]) fs)) = fs"
proof -
  have split: "SplitChar sep (f @ sep # s) = f # SplitChar sep s" if "sep \<notin> set f" for sep f s
    using that by (induction f) auto
  show ?thesis
    using assms by (induction fs) (auto simp: splitNUL_def split)
qed

section \<open>Shell quoting\<close>

text \<open>
  How a POSIX shell reads one word made of single-quoted and backslash-escaped parts: \<open>Some s\<close> when
  the text is exactly one word with value \<open>s\<close> and nothing in it is expanded.
\<close>

fun shellWord :: "bool \<Rightarrow> string \<Rightarrow> string option" where
  "shellWord True [] = None"
| "shellWord True (c # cs) =
     (if c = quote then shellWord False cs else map_option (\<lambda>s. c # s) (shellWord True cs))"
| "shellWord False [] = Some []"
| "shellWord False [c] = (if c = quote then None else None)"
| "shellWord False (c # d # cs) =
     (if c = quote then shellWord True (d # cs)
      else if c = CHR 0x5C then map_option (\<lambda>s. d # s) (shellWord False cs)
      else None)"

lemma shellWord_open: "cs \<noteq> [] \<Longrightarrow> shellWord False (quote # cs) = shellWord True cs"
  by (cases cs) auto

lemma shellWord_replaceQuotes: "shellWord True (replaceQuotes s @ [quote]) = Some s"
proof (induction s)
  case (Cons c s)
  have "shellWord True ([quote, CHR 0x5C, quote, quote] @ replaceQuotes s @ [quote]) =
      map_option ((#) quote) (shellWord False (quote # replaceQuotes s @ [quote]))"
    by (simp add: quote_def)
  with Cons show ?case by (simp add: shellWord_open)
qed simp

lemma shellWord_shellQuote: "shellWord False (shellQuote s) = Some s"
  by (simp add: shellQuote_def shellWord_open shellWord_replaceQuotes)

section \<open>Checkout and fetch\<close>

text \<open>A program whose runs are counted.\<close>

definition counted :: "('w, 'a) state \<Rightarrow> (nat \<times> 'w, 'a) state" where
  "counted m = State (\<lambda>(n, w). case run_state m w of (a, w') \<Rightarrow> (a, (Suc n, w')))"

definition uncounted :: "('w, 'a) state \<Rightarrow> (nat \<times> 'w, 'a) state" where
  "uncounted m = State (\<lambda>(n, w). case run_state m w of (a, w') \<Rightarrow> (a, (n, w')))"

lemma retryLoop_attempts:
  assumes "run_state (retryLoop (uncounted ce) (uncounted sl) (counted fn) k) (n, w) = (r, (n', w'))"
  shows "n < n' \<and> n' \<le> n + Suc k"
  using assms
proof (induction k arbitrary: n w)
  case 0
  then show ?case
    by (subst (asm) retryLoop.simps) (auto simp: counted_def split: prod.splits option.splits if_splits)
next
  case (Suc k)
  obtain a w1 where fn: "run_state fn w = (a, w1)" by fastforce
  obtain b w2 where sl: "run_state sl w1 = (b, w2)" by fastforce
  show ?case
  proof (cases "\<exists>e. a = Some e \<and> \<not> permanent e \<and> b")
    case True
    then have "run_state (retryLoop (uncounted ce) (uncounted sl) (counted fn) k) (Suc n, w2) = (r, (n', w'))"
      using Suc.prems fn sl by (subst (asm) retryLoop.simps) (auto simp: counted_def uncounted_def)
    from Suc.IH [OF this] show ?thesis by simp
  next
    case False
    then show ?thesis using Suc.prems fn sl
      by (subst (asm) retryLoop.simps)
        (auto simp: counted_def uncounted_def split: prod.splits option.splits if_splits)
  qed
qed

lemma retryLoop_permanent:
  assumes "run_state fn w = (Some e, w')" and "permanent e"
  shows "run_state (retryLoop ce sl fn k) w = (Some (wrapf ''git sync failed: '' e), w')"
  using assms by (subst retryLoop.simps) simp

lemma keeps_retryLoop:
  assumes "keeps I ce" "keeps I sl" "keeps I fn"
  shows "keeps I (retryLoop ce sl fn n)"
proof (induction n)
  case 0
  show ?case by (subst retryLoop.simps) (auto intro!: keeps_intros assms)
next
  case (Suc n)
  show ?case by (subst retryLoop.simps) (auto intro!: keeps_intros assms Suc)
qed

section \<open>Properties\<close>

text \<open>Only commit ids reach \<^verbatim>\<open>git checkout\<close>. Anything that is not 4 to 64 hexadecimal characters is
  refused without running git, so no option, branch name or path can be checked out; a commit id
  is passed as one argument that does not start with a dash.\<close>

theorem checkout_only_commit_ids:
  "(\<not> validCommit commit \<longrightarrow> (\<exists>e. run_state (Checkout s c commit) w = (Some e, w)))
   \<and> (validCommit commit \<longrightarrow> \<not> HasPrefix commit ''-'' \<and>
        Checkout s c commit = do {
          r \<leftarrow> Run s (WithTimeout c CheckoutTimeout) (RepoPath s) (gitEnv s) ''git''
                 [''checkout'', ''--detach'', ''--force'', commit];
          ret (map_option (wrapf (''git checkout '' @ commit @ '': '')) (snd r))
        })"
  by (auto simp: Checkout_def checkCommit_def validCommit_no_dash git_def run_def split: option.splits)

theorem checkout_only_commit_ids_witness:
  "\<exists>e. run_state (Checkout \<lparr>Run = (\<lambda>_ _ _ _ _. ret ([], None)), RepoPath = ''/r'', Remote = ''origin'',
     Branch = ''main'', SSHKey = []\<rparr> CallerCtx ''--orphan'') () = (Some e, ())"
  using checkout_only_commit_ids [of "''--orphan''" "\<lparr>Run = (\<lambda>_ _ _ _ _. ret ([], None)), RepoPath = ''/r'',
     Remote = ''origin'', Branch = ''main'', SSHKey = []\<rparr>" CallerCtx "()"]
  by (simp add: validCommit_def inRange_def less_eq_char_def)

text \<open>Fetching is retried a bounded number of times: at least one and at most the configured number
  of attempts (one when the configuration asks for fewer) are made, and an error that no retry can
  cure ends the loop at once.\<close>

theorem fetch_attempts_bounded:
  assumes "run_state (retry (uncounted ce) (uncounted sl) attempts (counted fn)) (0, w) = (r, (n, w'))"
  shows "1 \<le> n \<and> int n \<le> max attempts 1
     \<and> (\<forall>e w1. run_state fn w = (Some e, w1) \<and> permanent e \<longrightarrow> n = 1 \<and> r = Some (wrapf ''git sync failed: '' e))"
proof -
  from assms have loop: "run_state (retryLoop (uncounted ce) (uncounted sl) (counted fn) (nat (max attempts 1) - 1)) (0, w)
      = (r, (n, w'))" by (simp add: retry_def)
  have "n = 1 \<and> r = Some (wrapf ''git sync failed: '' e)"
    if "run_state fn w = (Some e, w1)" "permanent e" for e w1
    using loop retryLoop_permanent [of "counted fn" "(0, w)" e "(1, w1)"] that by (simp add: counted_def)
  with retryLoop_attempts [OF loop] show ?thesis by auto
qed

theorem fetch_attempts_bounded_witness:
  "\<exists>r n w'. run_state (retry (uncounted (ret None)) (uncounted (ret True)) 3
      (counted (ret (Some (errorf ''connection timed out''))))) (0, ()) = (r, (n, w')) \<and> int n \<le> 3"
proof -
  obtain r n w' where run: "run_state (retry (uncounted (ret None)) (uncounted (ret True)) 3
      (counted (ret (Some (errorf ''connection timed out''))))) (0, ()) = (r, (n, w'))"
    by (metis prod.exhaust)
  from fetch_attempts_bounded [OF run] run show ?thesis by auto
qed

text \<open>The list of changed files survives git's NUL-separated output: for any file names without NUL
  (spaces, quotes and line breaks included), parsing what \<^verbatim>\<open>git diff --name-only -z\<close> prints gives
  the names back.\<close>

theorem changed_files_round_trip:
  assumes "\<forall>f \<in> set fs. f \<noteq> [] \<and> CHR 0x00 \<notin> set f"
  shows "splitNUL (concat (map (\<lambda>f. f @ [CHR 0x00]) fs)) = fs"
  using assms by (rule splitNUL_output)

theorem changed_files_round_trip_witness:
  "splitNUL (concat (map (\<lambda>f. f @ [CHR 0x00]) [''a b.yml'', ''c'' @ [CHR 0x0A] @ ''d''])) = [''a b.yml'', ''c'' @ [CHR 0x0A] @ ''d'']"
  by (rule changed_files_round_trip) simp

text \<open>The path of the SSH key cannot break out of \<^verbatim>\<open>GIT_SSH_COMMAND\<close>: a POSIX shell reads the quoted
  text as one word whose value is the path, whatever characters it contains.\<close>

theorem ssh_key_quoting: "shellWord False (shellQuote s) = Some s"
  by (rule shellWord_shellQuote)

end
