(* ===== verification/Paths.thy ===== *)
theory Paths
  imports CL_Prelude
begin

text \<open>
  Slash-separated paths: the part of Go's \<^verbatim>\<open>path/filepath\<close> the program uses on Unix, and the two
  path predicates of \<^verbatim>\<open>internal/reconcile/apply.go\<close> that decide which stack a changed file belongs
  to. \<open>Clean\<close>, \<open>Rel\<close> and their kin are the lexical algorithms of the library on the list of path
  elements. The main lemma, \<open>pathUnder_iff\<close>, is that on absolute paths \<open>pathUnder\<close> is the strict
  prefix order on the elements of the cleaned paths.
\<close>

definition slash :: char where
  "slash = CHR ''/''"

definition IsAbs :: "string \<Rightarrow> bool" where
  "IsAbs p \<longleftrightarrow> HasPrefix p [slash]"

definition elems :: "string \<Rightarrow> string list" where
  "elems p = filter (\<lambda>c. c \<noteq> [] \<and> c \<noteq> ''.'') (SplitChar slash p)"

text \<open>Resolving \<^verbatim>\<open>..\<close>: the accumulator is the path so far, innermost element first.\<close>

fun normal :: "bool \<Rightarrow> string list \<Rightarrow> string list \<Rightarrow> string list" where
  "normal rooted acc [] = rev acc"
| "normal rooted acc (c # cs) =
     (if c = ''..'' then
        (case acc of
           [] \<Rightarrow> if rooted then normal rooted [] cs else normal rooted [''..''] cs
         | a # as \<Rightarrow> if a = ''..'' then normal rooted (''..'' # acc) cs else normal rooted as cs)
      else normal rooted (c # acc) cs)"

definition cleanElems :: "string \<Rightarrow> string list" where
  "cleanElems p = normal (IsAbs p) [] (elems p)"

definition render :: "bool \<Rightarrow> string list \<Rightarrow> string" where
  "render rooted cs =
     (if rooted then slash # Join cs [slash] else if cs = [] then ''.'' else Join cs [slash])"

definition Clean :: "string \<Rightarrow> string" where
  "Clean p = render (IsAbs p) (cleanElems p)"

definition JoinPath :: "string \<Rightarrow> string \<Rightarrow> string" where
  "JoinPath a b =
     (if a \<noteq> [] then Clean (a @ [slash] @ b) else if b \<noteq> [] then Clean b else [])"

text \<open>\<^verbatim>\<open>filepath.Abs\<close>, given the working directory (\<^const>\<open>None\<close> when it cannot be read).\<close>

definition AbsPath :: "string option \<Rightarrow> string \<Rightarrow> string option" where
  "AbsPath cwd p = (if IsAbs p then Some (Clean p)
     else case cwd of None \<Rightarrow> None | Some d \<Rightarrow> Some (JoinPath d p))"

definition lastElem :: "string \<Rightarrow> string" where
  "lastElem p = last (SplitChar slash p)"

text \<open>\<^verbatim>\<open>filepath.Split\<close>: the directory keeps its final slash.\<close>

definition SplitPath :: "string \<Rightarrow> string \<times> string" where
  "SplitPath p = (take (length p - length (lastElem p)) p, lastElem p)"

definition DirPath :: "string \<Rightarrow> string" where
  "DirPath p = Clean (fst (SplitPath p))"

definition trimSlashes :: "string \<Rightarrow> string" where
  "trimSlashes p = rev (dropWhile (\<lambda>c. c = slash) (rev p))"

definition BasePath :: "string \<Rightarrow> string" where
  "BasePath p = (if p = [] then ''.''
     else if trimSlashes p = [] then [slash] else lastElem (trimSlashes p))"

text \<open>\<^verbatim>\<open>filepath.Ext\<close>: from the last dot of the last element.\<close>

definition Ext :: "string \<Rightarrow> string" where
  "Ext p = (let b = lastElem p
     in if CHR ''.'' \<in> set b then CHR ''.'' # last (SplitChar (CHR ''.'') b) else [])"

fun stripCommon :: "'a list \<Rightarrow> 'a list \<Rightarrow> 'a list \<times> 'a list" where
  "stripCommon (x # xs) (y # ys) = (if x = y then stripCommon xs ys else (x # xs, y # ys))"
| "stripCommon xs ys = (xs, ys)"

text \<open>\<^verbatim>\<open>filepath.Rel\<close>; \<^const>\<open>None\<close> is its error.\<close>

definition Rel :: "string \<Rightarrow> string \<Rightarrow> string option" where
  "Rel base targ =
     (if Clean base = Clean targ then Some ''.''
      else if IsAbs base \<noteq> IsAbs targ then None
      else case stripCommon (cleanElems base) (cleanElems targ) of (b, t) \<Rightarrow>
        if b \<noteq> [] \<and> hd b = ''..'' then None
        else Some (Join (replicate (length b) ''..'' @ t) [slash]))"

definition pathUnder :: "string \<Rightarrow> string \<Rightarrow> bool" where
  "pathUnder dir targ =
     (case Rel dir targ of
        None \<Rightarrow> False
      | Some rel \<Rightarrow>
          if rel = ''.'' \<or> rel = ''..'' then False
          else \<not> HasPrefix rel (''..'' @ [slash]))"

definition resolveUnderRepo :: "string option \<Rightarrow> string \<Rightarrow> string \<Rightarrow> string" where
  "resolveUnderRepo cwd repoPath p =
     (let p' = (if \<not> IsAbs p then JoinPath repoPath p else p)
      in if IsAbs p' then Clean p'
         else case AbsPath cwd p' of None \<Rightarrow> Clean p' | Some a \<Rightarrow> a)"

section \<open>Path elements\<close>

definition properElem :: "string \<Rightarrow> bool" where
  "properElem c \<longleftrightarrow> c \<noteq> [] \<and> c \<noteq> ''.'' \<and> slash \<notin> set c"

lemma SplitChar_no_sep: "c \<in> set (SplitChar sep s) \<Longrightarrow> sep \<notin> set c"
  by (induction s arbitrary: c) (auto split: if_splits list.splits)

lemma elems_proper: "c \<in> set (elems p) \<Longrightarrow> properElem c"
  by (auto simp: elems_def properElem_def dest: SplitChar_no_sep)

lemma normal_subset: "set (normal r acc cs) \<subseteq> set acc \<union> set cs \<union> {''..''}"
  by (induction r acc cs rule: normal.induct) (auto split: list.splits if_splits)

lemma normal_rooted_no_dots: "''..'' \<notin> set acc \<Longrightarrow> ''..'' \<notin> set (normal True acc cs)"
  by (induction True acc cs rule: normal.induct) (auto split: list.splits)

lemma normal_plain: "''..'' \<notin> set cs \<Longrightarrow> normal r acc cs = rev acc @ cs"
  by (induction r acc cs rule: normal.induct) auto

lemma cleanElems_proper: "c \<in> set (cleanElems p) \<Longrightarrow> properElem c"
proof -
  assume "c \<in> set (cleanElems p)"
  then have "c = ''..'' \<or> c \<in> set (elems p)"
    unfolding cleanElems_def using normal_subset [of "IsAbs p" "[]" "elems p"] by auto
  then show ?thesis
    by (auto simp: elems_proper) (simp add: properElem_def slash_def)
qed

lemma cleanElems_no_dots: "IsAbs p \<Longrightarrow> ''..'' \<notin> set (cleanElems p)"
  by (simp add: cleanElems_def normal_rooted_no_dots)

lemma SplitChar_append_sep: "sep \<notin> set c \<Longrightarrow> SplitChar sep (c @ sep # s) = c # SplitChar sep s"
  by (induction c) auto

lemma SplitChar_plain: "sep \<notin> set c \<Longrightarrow> SplitChar sep c = [c]"
  by (induction c) auto

lemma SplitChar_Join:
  "cs \<noteq> [] \<Longrightarrow> \<forall>c \<in> set cs. sep \<notin> set c \<Longrightarrow> SplitChar sep (Join cs [sep]) = cs"
  by (induction cs "[sep]" rule: Join.induct) (auto simp: SplitChar_plain SplitChar_append_sep)

lemma elems_Join: "\<forall>c \<in> set cs. properElem c \<Longrightarrow> elems (Join cs [slash]) = cs"
  by (cases "cs = []") (auto simp: elems_def SplitChar_Join properElem_def filter_id_conv)

lemma elems_slash [simp]: "elems (slash # p) = elems p"
  by (simp add: elems_def)

lemma IsAbs_slash [simp]: "IsAbs (slash # p)"
  by (simp add: IsAbs_def HasPrefix_def)

lemma elems_render_rooted: "\<forall>c \<in> set cs. properElem c \<Longrightarrow> elems (render True cs) = cs"
  by (simp add: render_def elems_Join)

lemma IsAbs_Clean: "IsAbs p \<Longrightarrow> IsAbs (Clean p)"
  by (simp add: Clean_def render_def)

lemma cleanElems_Clean: "IsAbs p \<Longrightarrow> cleanElems (Clean p) = cleanElems p"
proof -
  assume "IsAbs p"
  then have "elems (Clean p) = cleanElems p"
    by (simp add: Clean_def elems_render_rooted cleanElems_proper)
  moreover have "IsAbs (Clean p)"
    using \<open>IsAbs p\<close> by (rule IsAbs_Clean)
  ultimately show ?thesis
    using cleanElems_no_dots [OF \<open>IsAbs p\<close>]
    by (simp add: cleanElems_def [of "Clean p"] normal_plain)
qed

lemma Clean_eq_iff: "IsAbs p \<Longrightarrow> IsAbs q \<Longrightarrow> Clean p = Clean q \<longleftrightarrow> cleanElems p = cleanElems q"
proof
  assume "IsAbs p" "IsAbs q" "Clean p = Clean q"
  from cleanElems_Clean [OF this(1)] cleanElems_Clean [OF this(2)] this(3)
  show "cleanElems p = cleanElems q" by (simp only:)
qed (simp only: Clean_def)

lemma Clean_idem: "IsAbs p \<Longrightarrow> Clean (Clean p) = Clean p"
  by (simp add: Clean_eq_iff IsAbs_Clean cleanElems_Clean)

section \<open>The prefix order\<close>

lemma stripCommon_spec:
  "stripCommon xs ys = (b, t) \<Longrightarrow> \<exists>p. xs = p @ b \<and> ys = p @ t \<and> (b = [] \<or> t = [] \<or> hd b \<noteq> hd t)"
proof (induction xs ys arbitrary: b t rule: stripCommon.induct)
  case (1 x xs y ys)
  show ?case
  proof (cases "x = y")
    case True
    with 1 obtain p where "xs = p @ b" "ys = p @ t" "b = [] \<or> t = [] \<or> hd b \<noteq> hd t"
      by fastforce
    with True show ?thesis by (intro exI [of _ "x # p"]) simp
  next
    case False
    with 1 show ?thesis by auto
  qed
qed auto

lemma strict_prefix_stripCommon:
  "stripCommon xs ys = (b, t) \<Longrightarrow> strict_prefix xs ys \<longleftrightarrow> b = [] \<and> t \<noteq> []"
  by (drule stripCommon_spec, cases b)
    (auto simp: strict_prefix_def prefix_def append_eq_append_conv2 Cons_eq_append_conv)

lemma Join_Cons_head: "Join (c # cs) sep = c @ (if cs = [] then [] else sep @ Join cs sep)"
  by (cases cs) auto

lemma proper_head_not_dots:
  assumes "properElem c" and "c \<noteq> ''..''"
  shows "Join (c # cs) [slash] \<noteq> ''.'' \<and> Join (c # cs) [slash] \<noteq> ''..''
     \<and> \<not> HasPrefix (Join (c # cs) [slash]) (''..'' @ [slash])"
proof -
  have dots: "slash \<notin> {CHR ''.''}" by (simp add: slash_def)
  obtain x xs where c: "c = x # xs" using assms by (cases c) (auto simp: properElem_def)
  show ?thesis
    using assms dots
    by (cases xs; cases "tl xs"; cases cs)
      (auto simp: c Join_Cons_head properElem_def HasPrefix_def split: if_splits)
qed

lemma pathUnder_iff:
  assumes "IsAbs dir" and "IsAbs targ"
  shows "pathUnder dir targ \<longleftrightarrow> strict_prefix (cleanElems dir) (cleanElems targ)"
proof -
  obtain b t where bt: "stripCommon (cleanElems dir) (cleanElems targ) = (b, t)" by fastforce
  from stripCommon_spec [OF bt] obtain p where p: "cleanElems dir = p @ b" "cleanElems targ = p @ t" by blast
  have b_dots: "b \<noteq> [] \<Longrightarrow> hd b \<noteq> ''..''"
    using cleanElems_no_dots [OF assms(1)] p by (cases b) auto
  show ?thesis
  proof (cases "Clean dir = Clean targ")
    case True
    with assms show ?thesis by (simp add: pathUnder_def Rel_def Clean_eq_iff)
  next
    case False
    with assms b_dots have rel: "Rel dir targ = Some (Join (replicate (length b) ''..'' @ t) [slash])"
      by (auto simp: Rel_def bt)
    show ?thesis
    proof (cases b)
      case (Cons x xs)
      then have "Join (replicate (length b) ''..'' @ t) [slash] = ''..''
          \<or> HasPrefix (Join (replicate (length b) ''..'' @ t) [slash]) (''..'' @ [slash])"
        by (auto simp: Join_Cons_head HasPrefix_def)
      then show ?thesis
        by (auto simp: pathUnder_def rel strict_prefix_stripCommon [OF bt] Cons)
    next
      case Nil
      with False assms p have "t \<noteq> []" by (auto simp: Clean_eq_iff)
      then obtain c cs where t: "t = c # cs" by (cases t) auto
      then have "properElem c" "c \<noteq> ''..''"
        using cleanElems_proper [of c targ] cleanElems_no_dots [OF assms(2)] p by auto
      from proper_head_not_dots [OF this, of cs] show ?thesis
        by (simp add: pathUnder_def rel strict_prefix_stripCommon [OF bt] Nil t)
    qed
  qed
qed

lemma IsAbs_resolveUnderRepo: "IsAbs repo \<Longrightarrow> IsAbs (resolveUnderRepo cwd repo p)"
proof -
  assume r: "IsAbs repo"
  then have "IsAbs (repo @ [slash] @ p)" and "repo \<noteq> []"
    by (cases repo; auto simp: IsAbs_def HasPrefix_def)+
  with r show ?thesis
    by (auto simp: resolveUnderRepo_def Let_def JoinPath_def IsAbs_Clean)
qed

lemma Clean_resolveUnderRepo: "IsAbs repo \<Longrightarrow> Clean (resolveUnderRepo cwd repo p) = resolveUnderRepo cwd repo p"
proof -
  assume r: "IsAbs repo"
  then have "IsAbs (repo @ [slash] @ p)" and "repo \<noteq> []"
    by (cases repo; auto simp: IsAbs_def HasPrefix_def)+
  with r show ?thesis
    by (auto simp: resolveUnderRepo_def Let_def JoinPath_def IsAbs_Clean Clean_idem)
qed

section \<open>Properties\<close>

text \<open>The path test behind every relevance decision is exactly containment: for absolute paths, the
  target lies under the directory when the cleaned elements of the directory are a proper prefix
  of the cleaned elements of the target. A directory is not under itself, and \<open>..\<close> or doubled
  slashes in either path cannot fool the test.\<close>

theorem path_under_is_containment:
  assumes "IsAbs dir" and "IsAbs targ"
  shows "pathUnder dir targ \<longleftrightarrow> (\<exists>rest. rest \<noteq> [] \<and> cleanElems targ = cleanElems dir @ rest)"
  unfolding pathUnder_iff [OF assms] by (auto simp: strict_prefix_def prefix_def)

theorem path_under_is_containment_witness:
  "pathUnder ''/repo/stacks'' ''/repo/x/..//stacks/web/compose.yml''"
  using path_under_is_containment [of "''/repo/stacks''" "''/repo/x/..//stacks/web/compose.yml''"]
  by (simp add: IsAbs_def HasPrefix_def cleanElems_def elems_def slash_def)

end
