(* ===== verification/ComposeProject.thy ===== *)
theory ComposeProject
  imports Paths
begin

text \<open>
  The compose side's data and its access to the host. \<open>Project\<close> and \<open>Service\<close> hold the fields of
  compose-go's types that the program reads, \<open>Stack\<close> is \<^verbatim>\<open>compose.Stack\<close>. \<open>Host\<close> is what the
  discovery and input code asks of its surroundings: the file system (\<^verbatim>\<open>os.ReadFile\<close>,
  \<^verbatim>\<open>os.ReadDir\<close>, \<^verbatim>\<open>os.Stat\<close>), the discovery cache (a package variable), and three functions of
  libraries outside the repository: YAML decoding, the Compose schema and SHA-256. From
  \<^verbatim>\<open>internal/compose/compose.go\<close> it models \<open>CheckEnvFiles\<close>, \<open>forceBuild\<close>, \<open>imagesToPull\<close>,
  \<open>ownDeadline\<close> and \<open>classifyPullError\<close>; from \<^verbatim>\<open>inputs.go\<close>, \<open>IsInfraError\<close>.
\<close>

record EnvFile =
  ef_Path :: string
  ef_Required :: bool

record Build =
  b_Context :: string
  b_Dockerfile :: string
  b_AdditionalContexts :: "string list"

record Service =
  svc_Image :: string
  svc_EnvFiles :: "EnvFile list"
  svc_Extends :: "string option"
  svc_Build :: "Build option"
  svc_Provider :: bool
  svc_PullPolicy :: string

text \<open>Maps of the project are association lists with distinct keys, in any order.\<close>

record Project =
  p_WorkingDir :: string
  p_ComposeFiles :: "string list"
  p_Services :: "(string \<times> Service) list"
  p_Configs :: "string list"
  p_Secrets :: "string list"

record Stack =
  k_ProjectName :: string
  k_Dir :: string
  k_Files :: "string list"

definition bareStack :: "string \<Rightarrow> Stack" where
  "bareStack name = \<lparr>k_ProjectName = name, k_Dir = [], k_Files = []\<rparr>"

text \<open>A YAML document as the decoder delivers it into \<^verbatim>\<open>any\<close>; scalars other than strings are \<open>YOther\<close>.\<close>

datatype yaml = YNull | YStr string | YSeq "yaml list" | YMap "(string \<times> yaml) list" | YOther

record DirEntry =
  e_Name :: string
  e_Symlink :: bool
  e_Dir :: bool

record DiscoverCache =
  dc_key :: string
  dc_fingerprint :: string
  dc_stacks :: "Stack list"

record 'w Host =
  ReadFile :: "string \<Rightarrow> ('w, err + string) state"
  ReadDir :: "string \<Rightarrow> ('w, err + DirEntry list) state"
  StatIsDir :: "string \<Rightarrow> ('w, err + bool) state"
  cacheGet :: "('w, DiscoverCache) state"
  cachePut :: "DiscoverCache \<Rightarrow> ('w, unit) state"
  yamlDecode :: "string \<Rightarrow> yaml list \<times> err option"
  schemaValidate :: "(string \<times> yaml) list \<Rightarrow> err option"
  sha256 :: "string \<Rightarrow> string"
  Getwd :: "string option"

definition mapLookup :: "(string \<times> 'a) list \<Rightarrow> string \<Rightarrow> 'a option" where
  "mapLookup kvs k = map_of kvs k"

definition sortedKeys :: "(string \<times> 'a) list \<Rightarrow> string list" where
  "sortedKeys kvs = sort (map fst kvs)"

lemma set_sortedKeys [simp]: "set (sortedKeys kvs) = fst ` set kvs"
  by (simp add: sortedKeys_def)

section \<open>Errors of the infrastructure\<close>

fun firstNetErr :: "errKind list \<Rightarrow> bool option" where
  "firstNetErr [] = None"
| "firstNetErr (NetErr b # ks) = Some b"
| "firstNetErr (_ # ks) = firstNetErr ks"

definition IsInfraError :: "err \<Rightarrow> bool" where
  "IsInfraError e \<longleftrightarrow>
     (if errIs e DeadlineExceeded \<or> errIs e Canceled \<or> errIs e ErrRegistryUnavailable then True
      else if errIs e ConnectionFailed then True
      else if errIs e ECONNREFUSED \<or> errIs e ECONNRESET \<or> errIs e EPIPE then True
      else firstNetErr (errLeaves e) = Some True)"

lemma IsInfraError_wrapf [simp]: "IsInfraError (wrapf pre e) = IsInfraError e"
  by (simp add: IsInfraError_def) (simp add: wrapf_def)

lemma IsInfraError_errorf [simp]: "\<not> IsInfraError (errorf s)"
  by (simp add: IsInfraError_def) (simp add: errorf_def)

definition classifyPullError :: "err \<Rightarrow> err" where
  "classifyPullError e =
     (if errIs e NotFound \<or> errIs e InvalidArgument \<or> errIs e Unauthorized \<or> errIs e PermissionDenied
      then e else Wrap2 [] (Leaf ErrRegistryUnavailable ''registry unavailable'') '': '' e [])"

text \<open>
  \<open>ownDeadline caller inner\<close>: the caller's and the derived context's \<^verbatim>\<open>Err()\<close>. A deadline of the
  program's own is turned into a plain error, so that it counts against the commit.
\<close>

definition ownDeadline :: "err option \<Rightarrow> err option \<Rightarrow> err \<Rightarrow> duration \<Rightarrow> err" where
  "ownDeadline caller inner e budget =
     (if caller \<noteq> None \<or> (case inner of None \<Rightarrow> True | Some i \<Rightarrow> \<not> errIs i DeadlineExceeded) then e
      else errorf (''timed out after '' @ durationString budget @ '': '' @ errText e))"

section \<open>Services of a project\<close>

definition serviceNames :: "Project \<Rightarrow> string list" where
  "serviceNames p = sortedKeys (p_Services p)"

definition PullPolicyBuild :: string where
  "PullPolicyBuild = ''build''"

definition forceBuild :: "Project \<Rightarrow> Project" where
  "forceBuild p = p\<lparr>p_Services := map (\<lambda>(name, svc).
     (name, if svc_Build svc = None then svc else svc\<lparr>svc_PullPolicy := PullPolicyBuild\<rparr>)) (p_Services p)\<rparr>"

text \<open>
  \<open>pullPolicy\<close> is compose-go's \<^verbatim>\<open>GetPullPolicy\<close>, \<open>present\<close> the program's \<^verbatim>\<open>imagePresent\<close>, a Docker call.
\<close>

fun imagesToPull ::
  "(Service \<Rightarrow> err + string) \<Rightarrow> (string \<Rightarrow> ('w, err + bool) state) \<Rightarrow> (string \<times> Service) list \<Rightarrow>
     ('w, err + (string \<times> Service) list) state" where
  "imagesToPull pullPolicy present [] = ret (Inr [])"
| "imagesToPull pullPolicy present ((name, svc) # rest) =
     (if svc_Image svc = [] \<or> svc_Build svc \<noteq> None \<or> svc_Provider svc then imagesToPull pullPolicy present rest
      else case pullPolicy svc of
        Inl e \<Rightarrow> ret (Inl (wrapf (''service '' @ Quote name @ '': '') e))
      | Inr policy \<Rightarrow>
          if policy = ''always'' then do {
            r \<leftarrow> imagesToPull pullPolicy present rest;
            ret (case r of Inl e \<Rightarrow> Inl e | Inr s \<Rightarrow> Inr ((name, svc) # s))
          }
          else if policy = ''missing'' \<or> policy = ''if_not_present'' then do {
            p \<leftarrow> present (svc_Image svc);
            case p of
              Inl e \<Rightarrow> ret (Inl e)
            | Inr True \<Rightarrow> imagesToPull pullPolicy present rest
            | Inr False \<Rightarrow> do {
                r \<leftarrow> imagesToPull pullPolicy present rest;
                ret (case r of Inl e \<Rightarrow> Inl e | Inr s \<Rightarrow> Inr ((name, svc) # s))
              }
          }
          else imagesToPull pullPolicy present rest)"

text \<open>One required \<^verbatim>\<open>env_file\<close>: it must exist and must not be a directory.\<close>

definition checkEnvFile :: "'w Host \<Rightarrow> Project \<Rightarrow> string \<Rightarrow> EnvFile \<Rightarrow> ('w, err option) state" where
  "checkEnvFile host project name ef =
     (if \<not> ef_Required ef then ret None
      else let path = (if \<not> IsAbs (ef_Path ef) then JoinPath (p_WorkingDir project) (ef_Path ef) else ef_Path ef)
           in do {
             r \<leftarrow> StatIsDir host path;
             case r of
               Inl e \<Rightarrow>
                 if errIs e ErrNotExist
                 then ret (Some (errorf (''env_file not found: '' @ path @ '' (referenced by service '' @ Quote name @ '')'')))
                 else ret (Some (wrapf (''checking env_file '' @ path @ '' (referenced by service '' @ Quote name @ ''): '') e))
             | Inr isDir \<Rightarrow>
                 if isDir
                 then ret (Some (errorf (''env_file is a directory: '' @ path @ '' (referenced by service '' @ Quote name @ '')'')))
                 else ret None
           })"

fun firstError :: "('a \<Rightarrow> ('w, err option) state) \<Rightarrow> 'a list \<Rightarrow> ('w, err option) state" where
  "firstError f [] = ret None"
| "firstError f (x # xs) = do {
     r \<leftarrow> f x;
     case r of Some e \<Rightarrow> ret (Some e) | None \<Rightarrow> firstError f xs
   }"

definition CheckEnvFiles :: "'w Host \<Rightarrow> Project \<Rightarrow> ('w, err option) state" where
  "CheckEnvFiles host project =
     firstError (\<lambda>name. firstError (checkEnvFile host project name)
         (case mapLookup (p_Services project) name of None \<Rightarrow> [] | Some svc \<Rightarrow> svc_EnvFiles svc))
       (sortedKeys (p_Services project))"

lemma keeps_firstError [keeps_intros]:
  "(\<And>x. x \<in> set xs \<Longrightarrow> keeps I (f x)) \<Longrightarrow> keeps I (firstError f xs)"
  by (induction xs) (auto intro!: keeps_intros)

lemma keeps_CheckEnvFiles [keeps_intros]:
  assumes "\<And>p. keeps I (StatIsDir host p)"
  shows "keeps I (CheckEnvFiles host project)"
  unfolding CheckEnvFiles_def checkEnvFile_def by (intro keeps_intros assms)

section \<open>Lemmas\<close>

lemma serviceNames_forceBuild [simp]: "serviceNames (forceBuild p) = serviceNames p"
  by (simp add: serviceNames_def forceBuild_def sortedKeys_def) (metis (no_types, lifting) case_prod_beta comp_apply fst_conv list.map_cong0)

lemma forceBuild_rebuilds:
  "(name, svc) \<in> set (p_Services (forceBuild p)) \<Longrightarrow> svc_Build svc \<noteq> None \<Longrightarrow> svc_PullPolicy svc = PullPolicyBuild"
  by (auto simp: forceBuild_def split: if_splits)

lemma firstError_None:
  "fst (run_state (firstError f xs) w) = None \<Longrightarrow> x \<in> set xs \<Longrightarrow> \<exists>w'. fst (run_state (f x) w') = None"
proof (induction xs arbitrary: w)
  case (Cons a xs)
  obtain r w1 where "run_state (f a) w = (r, w1)" by fastforce
  with Cons show ?case by (cases r) (auto, metis fst_conv)
qed simp

end
