(* ===== verification/Config.thy ===== *)
theory Config
  imports StateFile ComposeProject
begin

text \<open>
  The configuration: \<^verbatim>\<open>internal/config/config.go\<close>, \<^verbatim>\<open>overrides.go\<close> and \<^verbatim>\<open>window.go\<close>. The record
  \<open>Config\<close> with its defaults, loading from a JSON document, command-line overrides, validation, and
  the deploy window. \<open>Net\<close> holds what validation asks of libraries: the URL and address parsers of
  the standard library and \<^verbatim>\<open>loader.NormalizeProjectName\<close> of compose-go, whose sources are not part
  of the repository; log output is left out.
\<close>

section \<open>The record and its defaults\<close>

record NotifyWebhookConfig =
  nw_URL :: string
  nw_Headers :: "(string \<times> string) list"

record WebhookConfig =
  wh_Listen :: string
  wh_Path :: string
  wh_Secret :: string

record Config =
  cfg_SchemaVersion :: int
  cfg_RepoPath :: string
  cfg_Remote :: string
  cfg_Branch :: string
  cfg_ComposeFile :: string
  cfg_ComposeDir :: string
  cfg_ProjectName :: string
  cfg_SSHKey :: string
  cfg_StateFile :: string
  cfg_RetryAttempts :: int
  cfg_RetryDelaySeconds :: int
  cfg_DockerTimeoutSeconds :: int
  cfg_DockerUpTimeoutSeconds :: int
  cfg_PollIntervalSeconds :: int
  cfg_MonitorIntervalSeconds :: int
  cfg_DeployWindow :: string
  cfg_HealthWatchSeconds :: int
  cfg_HealthPollIntervalSeconds :: int
  cfg_HealthUnhealthyStreak :: int
  cfg_HealthRestartTolerance :: int
  cfg_DiscordWebhook :: string
  cfg_RepoURL :: string
  cfg_HeartbeatURL :: string
  cfg_LogFormat :: string
  cfg_LogLevel :: string
  cfg_PprofListen :: string
  cfg_Webhook :: WebhookConfig
  cfg_NotifyWebhook :: NotifyWebhookConfig

definition configSchemaVersion :: int where
  "configSchemaVersion = 1"

definition defaultPath :: string where
  "defaultPath = ''composelock.json''"

definition Default :: Config where
  "Default = \<lparr>
     cfg_SchemaVersion = configSchemaVersion,
     cfg_RepoPath = ''.'', cfg_Remote = ''origin'', cfg_Branch = ''main'',
     cfg_ComposeFile = ''./docker-compose.yml'', cfg_ComposeDir = [], cfg_ProjectName = ''my-stack'', cfg_SSHKey = [],
     cfg_StateFile = ''./state.json'',
     cfg_RetryAttempts = 3, cfg_RetryDelaySeconds = 20,
     cfg_DockerTimeoutSeconds = 60, cfg_DockerUpTimeoutSeconds = 1800,
     cfg_PollIntervalSeconds = 0, cfg_MonitorIntervalSeconds = 60,
     cfg_DeployWindow = [],
     cfg_HealthWatchSeconds = 300, cfg_HealthPollIntervalSeconds = 5,
     cfg_HealthUnhealthyStreak = 3, cfg_HealthRestartTolerance = 1,
     cfg_DiscordWebhook = [], cfg_RepoURL = [], cfg_HeartbeatURL = [],
     cfg_LogFormat = ''json'', cfg_LogLevel = ''info'', cfg_PprofListen = [],
     cfg_Webhook = \<lparr>wh_Listen = ''127.0.0.1:8080'', wh_Path = ''/webhook'', wh_Secret = []\<rparr>,
     cfg_NotifyWebhook = \<lparr>nw_URL = [], nw_Headers = []\<rparr>\<rparr>"

definition loadDefaults :: Config where
  "loadDefaults = Default\<lparr>cfg_RepoPath := [], cfg_ProjectName := [], cfg_ComposeFile := []\<rparr>"

text \<open>\<open>env\<close> is the value of \<^verbatim>\<open>COMPOSELOCK_CONFIG\<close>, empty when unset.\<close>

definition ResolvePath :: "string \<Rightarrow> string \<Rightarrow> string" where
  "ResolvePath env flagValue =
     (if flagValue \<noteq> [] then flagValue else if env \<noteq> [] then env else defaultPath)"

section \<open>Overrides\<close>

record Overrides =
  o_RepoPath :: "string option"
  o_Remote :: "string option"
  o_Branch :: "string option"
  o_ComposeFile :: "string option"
  o_ComposeDir :: "string option"
  o_ProjectName :: "string option"
  o_StateFile :: "string option"
  o_SSHKey :: "string option"
  o_Discord :: "string option"
  o_RepoURL :: "string option"
  o_LogFormat :: "string option"
  o_LogLevel :: "string option"
  o_PprofListen :: "string option"
  o_Window :: "string option"
  o_WebhookListen :: "string option"
  o_WebhookPath :: "string option"
  o_RetryAttempts :: "int option"
  o_RestartTolerance :: "int option"
  o_HealthStreak :: "int option"
  o_RetryDelay :: "duration option"
  o_PollInterval :: "duration option"
  o_MonitorInterval :: "duration option"
  o_HealthWatch :: "duration option"
  o_HealthInterval :: "duration option"
  o_DockerTimeout :: "duration option"
  o_DockerUp :: "duration option"

definition noOverrides :: Overrides where
  "noOverrides = \<lparr>o_RepoPath = None, o_Remote = None, o_Branch = None, o_ComposeFile = None, o_ComposeDir = None,
     o_ProjectName = None, o_StateFile = None, o_SSHKey = None, o_Discord = None, o_RepoURL = None,
     o_LogFormat = None, o_LogLevel = None, o_PprofListen = None, o_Window = None, o_WebhookListen = None,
     o_WebhookPath = None, o_RetryAttempts = None, o_RestartTolerance = None, o_HealthStreak = None,
     o_RetryDelay = None, o_PollInterval = None, o_MonitorInterval = None, o_HealthWatch = None,
     o_HealthInterval = None, o_DockerTimeout = None, o_DockerUp = None\<rparr>"

definition setString :: "string \<Rightarrow> string option \<Rightarrow> string" where
  "setString dst src = (case src of None \<Rightarrow> dst | Some v \<Rightarrow> v)"

definition setInt :: "int \<Rightarrow> int option \<Rightarrow> int" where
  "setInt dst src = (case src of None \<Rightarrow> dst | Some v \<Rightarrow> v)"

text \<open>Go's \<^verbatim>\<open>/\<close> truncates towards zero.\<close>

definition quot :: "int \<Rightarrow> int \<Rightarrow> int" where
  "quot a b = sgn a * (\<bar>a\<bar> div b)"

definition setSeconds :: "int \<Rightarrow> duration option \<Rightarrow> string \<Rightarrow> int \<times> err option" where
  "setSeconds dst src field =
     (case src of
        None \<Rightarrow> (dst, None)
      | Some d \<Rightarrow>
          if d mod second \<noteq> 0
          then (dst, Some (errorf (''config: '' @ field @ '' must be a whole number of seconds, got '' @ durationString d)))
          else (quot d second, None))"

definition Apply :: "Config \<Rightarrow> Overrides \<Rightarrow> Config \<times> err option" where
  "Apply c ov =
     (let c = c\<lparr>
        cfg_RepoPath := setString (cfg_RepoPath c) (o_RepoPath ov),
        cfg_Remote := setString (cfg_Remote c) (o_Remote ov),
        cfg_Branch := setString (cfg_Branch c) (o_Branch ov),
        cfg_ComposeFile := setString (cfg_ComposeFile c) (o_ComposeFile ov),
        cfg_ComposeDir := setString (cfg_ComposeDir c) (o_ComposeDir ov),
        cfg_ProjectName := setString (cfg_ProjectName c) (o_ProjectName ov),
        cfg_StateFile := setString (cfg_StateFile c) (o_StateFile ov),
        cfg_SSHKey := setString (cfg_SSHKey c) (o_SSHKey ov),
        cfg_DiscordWebhook := setString (cfg_DiscordWebhook c) (o_Discord ov),
        cfg_RepoURL := setString (cfg_RepoURL c) (o_RepoURL ov),
        cfg_LogFormat := setString (cfg_LogFormat c) (o_LogFormat ov),
        cfg_LogLevel := setString (cfg_LogLevel c) (o_LogLevel ov),
        cfg_PprofListen := setString (cfg_PprofListen c) (o_PprofListen ov),
        cfg_DeployWindow := setString (cfg_DeployWindow c) (o_Window ov),
        cfg_Webhook := (cfg_Webhook c)\<lparr>
          wh_Listen := setString (wh_Listen (cfg_Webhook c)) (o_WebhookListen ov),
          wh_Path := setString (wh_Path (cfg_Webhook c)) (o_WebhookPath ov)\<rparr>,
        cfg_RetryAttempts := setInt (cfg_RetryAttempts c) (o_RetryAttempts ov),
        cfg_HealthRestartTolerance := setInt (cfg_HealthRestartTolerance c) (o_RestartTolerance ov),
        cfg_HealthUnhealthyStreak := setInt (cfg_HealthUnhealthyStreak c) (o_HealthStreak ov)\<rparr>;
        (retryDelay, e1) = setSeconds (cfg_RetryDelaySeconds c) (o_RetryDelay ov) ''retry_delay_seconds'';
        (poll, e2) = setSeconds (cfg_PollIntervalSeconds c) (o_PollInterval ov) ''poll_interval_seconds'';
        (monitor, e3) = setSeconds (cfg_MonitorIntervalSeconds c) (o_MonitorInterval ov) ''monitor_interval_seconds'';
        (watch, e4) = setSeconds (cfg_HealthWatchSeconds c) (o_HealthWatch ov) ''health_watch_seconds'';
        (interval, e5) = setSeconds (cfg_HealthPollIntervalSeconds c) (o_HealthInterval ov) ''health_poll_interval_seconds'';
        (docker, e6) = setSeconds (cfg_DockerTimeoutSeconds c) (o_DockerTimeout ov) ''docker_timeout_seconds'';
        (dockerUp, e7) = setSeconds (cfg_DockerUpTimeoutSeconds c) (o_DockerUp ov) ''docker_up_timeout_seconds''
      in (c\<lparr>cfg_RetryDelaySeconds := retryDelay, cfg_PollIntervalSeconds := poll, cfg_MonitorIntervalSeconds := monitor,
            cfg_HealthWatchSeconds := watch, cfg_HealthPollIntervalSeconds := interval,
            cfg_DockerTimeoutSeconds := docker, cfg_DockerUpTimeoutSeconds := dockerUp\<rparr>,
          errJoin [e1, e2, e3, e4, e5, e6, e7]))"

section \<open>The deploy window\<close>

record DeployWindow =
  win_start :: int
  win_end :: int

definition parseClock :: "string \<Rightarrow> err + int" where
  "parseClock s =
     (case Cut (TrimSpace s) '':'' of (h, m, ok) \<Rightarrow>
        if \<not> ok \<or> length h \<noteq> 2 \<or> length m \<noteq> 2 then Inl (errorf (Quote s @ '' is not HH:MM''))
        else case (Atoi h, Atoi m) of
          (Some hr, Some mi) \<Rightarrow>
            if hr < 0 \<or> hr > 23 \<or> mi < 0 \<or> mi > 59
            then Inl (errorf (Quote s @ '' is not a time of day between 00:00 and 23:59''))
            else Inr (hr * 60 + mi)
        | _ \<Rightarrow> Inl (errorf (Quote s @ '' is not a time of day between 00:00 and 23:59'')))"

definition ParseDeployWindow :: "string \<Rightarrow> err + DeployWindow" where
  "ParseDeployWindow s =
     (case Cut (TrimSpace s) ''-'' of (from, to, ok) \<Rightarrow>
        if \<not> ok then Inl (errorf (''deploy_window must look like 02:00-05:00, got '' @ Quote s))
        else case parseClock from of
          Inl e \<Rightarrow> Inl (wrapf ''deploy_window start: '' e)
        | Inr start \<Rightarrow>
            (case parseClock to of
               Inl e \<Rightarrow> Inl (wrapf ''deploy_window end: '' e)
             | Inr end' \<Rightarrow>
                 if start = end'
                 then Inl (errorf (''deploy_window '' @ Quote s @ '' starts and ends at the same time; leave it empty to allow deploys at any time''))
                 else Inr \<lparr>win_start = start, win_end = end'\<rparr>))"

text \<open>
  The time of day at an instant. \<open>off\<close> is the offset from UTC of the instant's location, in
  nanoseconds; \<open>zeroTime\<close> is midnight UTC.
\<close>

definition day :: duration where
  "day = 24 * hour"

definition minuteOfDay :: "duration \<Rightarrow> time \<Rightarrow> int" where
  "minuteOfDay off t = (t + off) mod day div minute"

definition WindowOpen :: "DeployWindow \<Rightarrow> duration \<Rightarrow> time \<Rightarrow> bool" where
  "WindowOpen w off t =
     (let now = minuteOfDay off t
      in if win_start w < win_end w then now \<ge> win_start w \<and> now < win_end w
         else now \<ge> win_start w \<or> now < win_end w)"

text \<open>
  A location is the offset from UTC at every instant. \<open>Date\<close> is \<^verbatim>\<open>time.Date\<close>: the instant at which the location's clock
  shows a time, given as the instant at which a clock on UTC shows it. The package looks up the offset there, and again
  at the instant that this offset leads to, which is the one that counts; a time that a change of the
  offset skips or repeats is read with one of the two offsets. \<open>AddDay\<close> is \<^verbatim>\<open>AddDate(0, 0, 1)\<close>: the same time of the clock
  a day later.
\<close>

definition Date :: "(time \<Rightarrow> duration) \<Rightarrow> time \<Rightarrow> time" where
  "Date off shown = shown - off (shown - off shown)"

definition AddDay :: "(time \<Rightarrow> duration) \<Rightarrow> time \<Rightarrow> time" where
  "AddDay off t = Date off (t + off t + day)"

definition NextOpening :: "DeployWindow \<Rightarrow> (time \<Rightarrow> duration) \<Rightarrow> time \<Rightarrow> time" where
  "NextOpening w off t =
     (let opening = Date off ((t + off t) div day * day + win_start w div 60 * hour + win_start w mod 60 * minute)
      in if opening > t then opening else AddDay off opening)"

definition pad2 :: "int \<Rightarrow> string" where
  "pad2 n = (if 0 \<le> n \<and> n < 10 then CHR ''0'' # itoa n else itoa n)"

definition WindowString :: "DeployWindow \<Rightarrow> string" where
  "WindowString w = pad2 (win_start w div 60) @ '':'' @ pad2 (win_start w mod 60) @ ''-''
     @ pad2 (win_end w div 60) @ '':'' @ pad2 (win_end w mod 60)"

definition Window :: "Config \<Rightarrow> DeployWindow option" where
  "Window c = (if cfg_DeployWindow c = [] then None
     else case ParseDeployWindow (cfg_DeployWindow c) of Inl _ \<Rightarrow> None | Inr w \<Rightarrow> Some w)"

section \<open>Validation\<close>

text \<open>The scheme, the host and whether there is a user part, when the URL parses.\<close>

record URL =
  u_Scheme :: string
  u_Host :: string
  u_User :: bool

record Net =
  parseURL :: "string \<Rightarrow> URL option"
  splitHostPort :: "string \<Rightarrow> (string \<times> string) option"
  addrIsLoopback :: "string \<Rightarrow> bool"
  NormalizeProjectName :: "string \<Rightarrow> string"

definition validGitRef :: "string \<Rightarrow> bool" where
  "validGitRef s \<longleftrightarrow>
     \<not> (s = [] \<or> HasPrefix s ''-'' \<or> Contains s ''..'')
     \<and> list_all (\<lambda>r. inRange (CHR ''a'') (CHR ''z'') r \<or> inRange (CHR ''A'') (CHR ''Z'') r
         \<or> inRange (CHR ''0'') (CHR ''9'') r \<or> r \<in> {CHR ''.'', CHR ''_'', CHR ''/'', CHR ''-''}) s"

definition validHeaderName :: "string \<Rightarrow> bool" where
  "validHeaderName name \<longleftrightarrow> name \<noteq> []
     \<and> list_all (\<lambda>r. \<not> (r \<le> CHR '' '' \<or> byte r \<ge> 0x7f
         \<or> r \<in> set (''()<>@,;:'' @ [CHR 0x5C, CHR 0x22] @ ''/[]?={}''))) name"

definition isLoopback :: "Net \<Rightarrow> string \<Rightarrow> bool" where
  "isLoopback net hostport =
     (case splitHostPort net hostport of
        None \<Rightarrow> False
      | Some (host, _) \<Rightarrow> host = ''localhost'' \<or> addrIsLoopback net host)"

definition httpURL :: "Net \<Rightarrow> string \<Rightarrow> URL option" where
  "httpURL net s = (case parseURL net s of
     Some u \<Rightarrow> if u_Scheme u \<noteq> ''https'' \<and> u_Scheme u \<noteq> ''http'' \<or> u_Host u = [] then None else Some u
   | None \<Rightarrow> None)"

definition validateComposePath :: "'w Host \<Rightarrow> Config \<Rightarrow> ('w, err option) state" where
  "validateComposePath host c =
     (let wantDir = cfg_ComposeDir c \<noteq> [];
          field = (if wantDir then ''compose_dir'' else ''compose_file'');
          p0 = (if wantDir then cfg_ComposeDir c else cfg_ComposeFile c);
          path = (if \<not> IsAbs p0 then JoinPath (cfg_RepoPath c) p0 else p0)
      in do {
        r \<leftarrow> StatIsDir host path;
        ret (case r of
           Inl e \<Rightarrow> if errIs e ErrNotExist then None
                    else Some (wrapf (''config: checking '' @ field @ '' '' @ path @ '': '') e)
         | Inr isDir \<Rightarrow> if isDir \<noteq> wantDir
             then Some (errorf (''config: '' @ field @ '' '' @ path @ '' must be ''
                    @ (if wantDir then ''a directory'' else ''a file'')))
             else None)
      })"

definition required :: "string \<Rightarrow> string \<Rightarrow> err option" where
  "required name value = (if value = [] then Some (errorf (''config: '' @ name @ '' is required'')) else None)"

definition gitRefError :: "string \<Rightarrow> string \<Rightarrow> err option" where
  "gitRefError name s = (if \<not> validGitRef s
     then Some (errorf (''config: '' @ name @ '' '' @ Quote s @ '' must consist only of letters, digits, '' @ Quote ''._/-''
            @ '' and must not start with '' @ Quote ''-'' @ '' or contain '' @ Quote ''..''))
     else None)"

text \<open>The first error of a list of checks, as a chain of early returns gives it.\<close>

fun firstSome :: "'a option list \<Rightarrow> 'a option" where
  "firstSome [] = None"
| "firstSome (None # xs) = firstSome xs"
| "firstSome (Some x # xs) = Some x"

definition validateRequired :: "'w Host \<Rightarrow> Net \<Rightarrow> Config \<Rightarrow> ('w, err option) state" where
  "validateRequired host net c =
     (case firstSome [
          required ''repo_path'' (cfg_RepoPath c),
          required ''project_name'' (cfg_ProjectName c),
          required ''remote'' (cfg_Remote c),
          required ''branch'' (cfg_Branch c),
          required ''state_file'' (cfg_StateFile c),
          (if cfg_ComposeFile c = [] \<and> cfg_ComposeDir c = []
           then Some (errorf ''config: one of compose_file or compose_dir is required'') else None),
          (if cfg_ProjectName c \<noteq> NormalizeProjectName net (cfg_ProjectName c)
           then Some (errorf (''config: project_name '' @ Quote (cfg_ProjectName c)
             @ '' must consist only of lowercase letters, digits, hyphens and underscores, and start with a letter or digit''))
           else None),
          gitRefError ''remote'' (cfg_Remote c),
          gitRefError ''branch'' (cfg_Branch c)] of
        Some e \<Rightarrow> ret (Some e)
      | None \<Rightarrow> validateComposePath host c)"

definition minimum :: "int \<Rightarrow> string \<Rightarrow> int \<Rightarrow> err option" where
  "minimum lo name v = (if v < lo then Some (errorf (''config: '' @ name @ '' must be >= '' @ itoa lo)) else None)"

definition validateWebhook :: "Net \<Rightarrow> WebhookConfig \<Rightarrow> err option" where
  "validateWebhook net w = firstSome [
     (if \<not> HasPrefix (wh_Path w) ''/''
      then Some (errorf (''config: webhook.path must start with '' @ Quote ''/'' @ '', got '' @ Quote (wh_Path w))) else None),
     (if CHR '' '' \<in> set (wh_Path w) \<or> CHR 0x09 \<in> set (wh_Path w)
      then Some (errorf (''config: webhook.path must not contain whitespace, got '' @ Quote (wh_Path w))) else None),
     (if splitHostPort net (wh_Listen w) = None
      then Some (errorf (''config: webhook.listen must be host:port, got '' @ Quote (wh_Listen w))) else None),
     (if wh_Secret w = [] \<and> \<not> isLoopback net (wh_Listen w)
      then Some (errorf (''config: webhook.secret is required when webhook.listen '' @ Quote (wh_Listen w)
        @ '' is not a loopback address: every request to webhook.path would trigger a deploy'')) else None)]"

text \<open>The headers are a map; their order, which decides which of several errors is returned, is any.\<close>

definition validateNotifyWebhook :: "Net \<Rightarrow> NotifyWebhookConfig \<Rightarrow> err option" where
  "validateNotifyWebhook net w =
     (if nw_URL w = [] then
        (if nw_Headers w \<noteq> []
         then Some (errorf ''config: notify_webhook.headers is set but notify_webhook.url is empty'') else None)
      else if httpURL net (nw_URL w) = None
        then Some (errorf ''config: notify_webhook.url must be an http(s) URL'')
      else firstSome (map (\<lambda>(name, value).
        if \<not> validHeaderName name
          then Some (errorf (''config: notify_webhook.headers has an invalid header name '' @ Quote name))
        else if CHR 0x0D \<in> set value \<or> CHR 0x0A \<in> set value \<or> CHR 0x00 \<in> set value
          then Some (errorf (''config: notify_webhook.headers['' @ Quote name @ ''] must not contain line breaks''))
        else None) (nw_Headers w)))"

definition logLevels :: "string list" where
  "logLevels = [''debug'', ''info'', ''warn'', ''error'']"

definition validateValues :: "Net \<Rightarrow> Config \<Rightarrow> err option" where
  "validateValues net c = firstSome [
     minimum 0 ''health_watch_seconds'' (cfg_HealthWatchSeconds c),
     minimum 1 ''retry_attempts'' (cfg_RetryAttempts c),
     minimum 0 ''retry_delay_seconds'' (cfg_RetryDelaySeconds c),
     minimum 0 ''health_restart_tolerance'' (cfg_HealthRestartTolerance c),
     minimum 1 ''health_poll_interval_seconds'' (cfg_HealthPollIntervalSeconds c),
     minimum 1 ''health_unhealthy_streak'' (cfg_HealthUnhealthyStreak c),
     (if cfg_HealthWatchSeconds c > 0 \<and> cfg_HealthPollIntervalSeconds c > cfg_HealthWatchSeconds c
      then Some (errorf (''config: health_poll_interval_seconds ('' @ itoa (cfg_HealthPollIntervalSeconds c)
        @ '') must not exceed health_watch_seconds ('' @ itoa (cfg_HealthWatchSeconds c)
        @ ''), or the watch would judge a single poll'')) else None),
     minimum 0 ''poll_interval_seconds'' (cfg_PollIntervalSeconds c),
     minimum 0 ''monitor_interval_seconds'' (cfg_MonitorIntervalSeconds c),
     (if cfg_RepoURL c \<noteq> [] \<and> (case httpURL net (cfg_RepoURL c) of None \<Rightarrow> True | Some u \<Rightarrow> u_User u)
      then Some (errorf (''config: repo_url must be an http(s) URL without credentials, got '' @ Quote (cfg_RepoURL c))) else None),
     (if cfg_DeployWindow c \<noteq> [] then (case ParseDeployWindow (cfg_DeployWindow c) of
          Inl e \<Rightarrow> Some (wrapf ''config: '' e) | Inr _ \<Rightarrow> None) else None),
     validateNotifyWebhook net (cfg_NotifyWebhook c),
     (if cfg_HeartbeatURL c \<noteq> [] \<and> httpURL net (cfg_HeartbeatURL c) = None
      then Some (errorf ''config: heartbeat_url must be an http(s) URL'') else None),
     minimum 0 ''docker_timeout_seconds'' (cfg_DockerTimeoutSeconds c),
     minimum 0 ''docker_up_timeout_seconds'' (cfg_DockerUpTimeoutSeconds c),
     (if cfg_PprofListen c \<noteq> [] \<and> \<not> isLoopback net (cfg_PprofListen c)
      then Some (errorf (''config: pprof_listen must be a loopback address, got '' @ Quote (cfg_PprofListen c))) else None),
     (if cfg_LogLevel c \<notin> set logLevels
      then Some (errorf (''config: log_level must be '' @ Quote ''debug'' @ '', '' @ Quote ''info'' @ '', '' @ Quote ''warn''
        @ '' or '' @ Quote ''error'' @ '', got '' @ Quote (cfg_LogLevel c))) else None),
     (if cfg_LogFormat c \<noteq> ''json'' \<and> cfg_LogFormat c \<noteq> ''text''
      then Some (errorf (''config: log_format must be '' @ Quote ''json'' @ '' or '' @ Quote ''text'' @ '', got ''
        @ Quote (cfg_LogFormat c))) else None),
     validateWebhook net (cfg_Webhook c)]"

definition Validate :: "'w Host \<Rightarrow> Net \<Rightarrow> Config \<Rightarrow> ('w, err option) state" where
  "Validate host net c = do {
     r \<leftarrow> validateRequired host net c;
     ret (case r of Some e \<Rightarrow> Some e | None \<Rightarrow> validateValues net c)
   }"

section \<open>Loading\<close>

text \<open>
  \<^verbatim>\<open>json.Unmarshal\<close> over the defaults: a missing or null field keeps its value, a repeated one takes its
  last value, and a value of another type is an error.
\<close>

definition ovString :: "(string \<times> json) list \<Rightarrow> string \<Rightarrow> string \<Rightarrow> string option" where
  "ovString kvs key old = (case jlookup key kvs of
     None \<Rightarrow> Some old | Some JNull \<Rightarrow> Some old | Some (JString s) \<Rightarrow> Some s | Some _ \<Rightarrow> None)"

definition ovInt :: "(string \<times> json) list \<Rightarrow> string \<Rightarrow> int \<Rightarrow> int option" where
  "ovInt kvs key old = (case jlookup key kvs of
     None \<Rightarrow> Some old | Some JNull \<Rightarrow> Some old | Some (JInt i) \<Rightarrow> Some i | Some _ \<Rightarrow> None)"

definition ovObject :: "(string \<times> json) list \<Rightarrow> string \<Rightarrow> 'a \<Rightarrow> ((string \<times> json) list \<Rightarrow> 'a option) \<Rightarrow> 'a option" where
  "ovObject kvs key old dec = (case jlookup key kvs of
     None \<Rightarrow> Some old | Some JNull \<Rightarrow> Some old | Some (JObject sub) \<Rightarrow> dec sub | Some _ \<Rightarrow> None)"

definition decodeWebhook :: "WebhookConfig \<Rightarrow> (string \<times> json) list \<Rightarrow> WebhookConfig option" where
  "decodeWebhook w kvs0 = (let kvs = foldKeys kvs0 in do {
     l \<leftarrow> ovString kvs ''listen'' (wh_Listen w);
     p \<leftarrow> ovString kvs ''path'' (wh_Path w);
     s \<leftarrow> ovString kvs ''secret'' (wh_Secret w);
     Some \<lparr>wh_Listen = l, wh_Path = p, wh_Secret = s\<rparr>
   })"

fun decodeHeaders :: "(string \<times> json) list \<Rightarrow> (string \<times> string) list option" where
  "decodeHeaders [] = Some []"
| "decodeHeaders ((k, v) # kvs) = do {
     rest \<leftarrow> decodeHeaders kvs;
     s \<leftarrow> decString (Some v);
     Some (if k \<in> fst ` set kvs then rest else (k, s) # rest)
   }"

definition decodeNotifyWebhook :: "NotifyWebhookConfig \<Rightarrow> (string \<times> json) list \<Rightarrow> NotifyWebhookConfig option" where
  "decodeNotifyWebhook w kvs0 = (let kvs = foldKeys kvs0 in do {
     u \<leftarrow> ovString kvs ''url'' (nw_URL w);
     h \<leftarrow> ovObject kvs ''headers'' (nw_Headers w) decodeHeaders;
     Some \<lparr>nw_URL = u, nw_Headers = h\<rparr>
   })"

fun decodeConfig :: "Config \<Rightarrow> json \<Rightarrow> Config option" where
  "decodeConfig c JNull = Some c"
| "decodeConfig c (JObject kvs0) = (let kvs = foldKeys kvs0 in do {
     v0 \<leftarrow> ovInt kvs ''schema_version'' (cfg_SchemaVersion c);
     v1 \<leftarrow> ovString kvs ''repo_path'' (cfg_RepoPath c);
     v2 \<leftarrow> ovString kvs ''remote'' (cfg_Remote c);
     v3 \<leftarrow> ovString kvs ''branch'' (cfg_Branch c);
     v4 \<leftarrow> ovString kvs ''compose_file'' (cfg_ComposeFile c);
     v5 \<leftarrow> ovString kvs ''compose_dir'' (cfg_ComposeDir c);
     v6 \<leftarrow> ovString kvs ''project_name'' (cfg_ProjectName c);
     v7 \<leftarrow> ovString kvs ''ssh_key'' (cfg_SSHKey c);
     v8 \<leftarrow> ovString kvs ''state_file'' (cfg_StateFile c);
     v9 \<leftarrow> ovInt kvs ''retry_attempts'' (cfg_RetryAttempts c);
     v10 \<leftarrow> ovInt kvs ''retry_delay_seconds'' (cfg_RetryDelaySeconds c);
     v11 \<leftarrow> ovInt kvs ''docker_timeout_seconds'' (cfg_DockerTimeoutSeconds c);
     v12 \<leftarrow> ovInt kvs ''docker_up_timeout_seconds'' (cfg_DockerUpTimeoutSeconds c);
     v13 \<leftarrow> ovInt kvs ''poll_interval_seconds'' (cfg_PollIntervalSeconds c);
     v14 \<leftarrow> ovInt kvs ''monitor_interval_seconds'' (cfg_MonitorIntervalSeconds c);
     v15 \<leftarrow> ovString kvs ''deploy_window'' (cfg_DeployWindow c);
     v16 \<leftarrow> ovInt kvs ''health_watch_seconds'' (cfg_HealthWatchSeconds c);
     v17 \<leftarrow> ovInt kvs ''health_poll_interval_seconds'' (cfg_HealthPollIntervalSeconds c);
     v18 \<leftarrow> ovInt kvs ''health_unhealthy_streak'' (cfg_HealthUnhealthyStreak c);
     v19 \<leftarrow> ovInt kvs ''health_restart_tolerance'' (cfg_HealthRestartTolerance c);
     v20 \<leftarrow> ovString kvs ''discord_webhook'' (cfg_DiscordWebhook c);
     v21 \<leftarrow> ovString kvs ''repo_url'' (cfg_RepoURL c);
     v22 \<leftarrow> ovString kvs ''heartbeat_url'' (cfg_HeartbeatURL c);
     v23 \<leftarrow> ovString kvs ''log_format'' (cfg_LogFormat c);
     v24 \<leftarrow> ovString kvs ''log_level'' (cfg_LogLevel c);
     v25 \<leftarrow> ovString kvs ''pprof_listen'' (cfg_PprofListen c);
     v26 \<leftarrow> ovObject kvs ''webhook'' (cfg_Webhook c) (decodeWebhook (cfg_Webhook c));
     v27 \<leftarrow> ovObject kvs ''notify_webhook'' (cfg_NotifyWebhook c) (decodeNotifyWebhook (cfg_NotifyWebhook c));
     Some \<lparr>cfg_SchemaVersion = v0, cfg_RepoPath = v1, cfg_Remote = v2, cfg_Branch = v3, 
       cfg_ComposeFile = v4, cfg_ComposeDir = v5, cfg_ProjectName = v6, cfg_SSHKey = v7, 
       cfg_StateFile = v8, cfg_RetryAttempts = v9, cfg_RetryDelaySeconds = v10, 
       cfg_DockerTimeoutSeconds = v11, cfg_DockerUpTimeoutSeconds = v12, 
       cfg_PollIntervalSeconds = v13, cfg_MonitorIntervalSeconds = v14, cfg_DeployWindow = v15, 
       cfg_HealthWatchSeconds = v16, cfg_HealthPollIntervalSeconds = v17, 
       cfg_HealthUnhealthyStreak = v18, cfg_HealthRestartTolerance = v19, 
       cfg_DiscordWebhook = v20, cfg_RepoURL = v21, cfg_HeartbeatURL = v22, cfg_LogFormat = v23, 
       cfg_LogLevel = v24, cfg_PprofListen = v25, cfg_Webhook = v26, cfg_NotifyWebhook = v27\<rparr>
   })"
| "decodeConfig c _ = None"

definition absPath :: "string option \<Rightarrow> string \<Rightarrow> string" where
  "absPath cwd path = (case AbsPath cwd path of None \<Rightarrow> Clean path | Some p \<Rightarrow> p)"

text \<open>\<open>evalSymlinks\<close> is \<^verbatim>\<open>filepath.EvalSymlinks\<close>, a query of the file system.\<close>

definition canonicalPath :: "(string \<Rightarrow> ('w, err + string) state) \<Rightarrow> string option \<Rightarrow> string \<Rightarrow> ('w, string) state" where
  "canonicalPath evalSymlinks cwd path =
     (case AbsPath cwd path of
        None \<Rightarrow> ret (Clean path)
      | Some p \<Rightarrow> (case SplitPath p of (dir, base) \<Rightarrow> do {
          r \<leftarrow> evalSymlinks (Clean dir);
          ret (case r of Inl _ \<Rightarrow> p | Inr resolved \<Rightarrow> JoinPath resolved base)
        }))"

text \<open>\<open>parseJSON\<close> is the parser of \<^verbatim>\<open>encoding/json\<close>: a document or its error.\<close>

definition Config_Load ::
  "'w Host \<Rightarrow> Net \<Rightarrow> (string \<Rightarrow> err + json) \<Rightarrow> (string \<Rightarrow> ('w, err + string) state) \<Rightarrow>
     string \<Rightarrow> Overrides \<Rightarrow> ('w, err + Config) state" where
  "Config_Load host net parseJSON evalSymlinks path overrides = do {
     r \<leftarrow> ReadFile host path;
     case r of
       Inl e \<Rightarrow> ret (Inl (wrapf (''reading config file '' @ path @ '': '') e))
     | Inr data \<Rightarrow>
         (case parseJSON data of
            Inl e \<Rightarrow> ret (Inl (wrapf (''parsing config file '' @ path @ '': '') e))
          | Inr doc \<Rightarrow>
              (case decodeConfig loadDefaults doc of
                 None \<Rightarrow> ret (Inl (errorf (''parsing config file '' @ path)))
               | Some cfg0 \<Rightarrow>
                   let cfg1 = (if cfg_SchemaVersion cfg0 = 0 then cfg0\<lparr>cfg_SchemaVersion := configSchemaVersion\<rparr> else cfg0)
                   in if cfg_SchemaVersion cfg1 > configSchemaVersion
                      then ret (Inl (errorf (''config file '' @ path @ '' has schema_version '' @ itoa (cfg_SchemaVersion cfg1)
                             @ '', this build understands '' @ itoa configSchemaVersion @ '': upgrade composelock'')))
                      else case Apply cfg1 overrides of
                        (_, Some e) \<Rightarrow> ret (Inl e)
                      | (cfg2, None) \<Rightarrow> do {
                          stateFile \<leftarrow> canonicalPath evalSymlinks (Getwd host) (cfg_StateFile cfg2);
                          let cfg3 = cfg2\<lparr>cfg_StateFile := stateFile,
                                cfg_RepoPath := (if cfg_RepoPath cfg2 \<noteq> [] then absPath (Getwd host) (cfg_RepoPath cfg2)
                                                 else cfg_RepoPath cfg2)\<rparr>;
                          v \<leftarrow> Validate host net cfg3;
                          ret (case v of Some e \<Rightarrow> Inl e | None \<Rightarrow> Inr cfg3)
                        }))
   }"

section \<open>Lemmas on the deploy window\<close>

definition wfWindow :: "DeployWindow \<Rightarrow> bool" where
  "wfWindow w \<longleftrightarrow> 0 \<le> win_start w \<and> win_start w < 1440 \<and> 0 \<le> win_end w \<and> win_end w < 1440
     \<and> win_start w \<noteq> win_end w"

lemma parseClock_range: "parseClock s = Inr n \<Longrightarrow> 0 \<le> n \<and> n < 1440"
  by (auto simp: parseClock_def split: prod.splits if_splits option.splits)

lemma ParseDeployWindow_wf: "ParseDeployWindow s = Inr w \<Longrightarrow> wfWindow w"
  by (auto simp: ParseDeployWindow_def wfWindow_def dest!: parseClock_range split: prod.splits if_splits sum.splits)

definition digit :: "int \<Rightarrow> char" where
  "digit n = char_of (48 + nat n)"

lemma byte_digit: "0 \<le> n \<Longrightarrow> n < 10 \<Longrightarrow> byte (digit n) = 48 + nat n"
  by (simp add: byte_def digit_def)

lemma digit_range: "0 \<le> n \<Longrightarrow> n < 10 \<Longrightarrow> 48 \<le> byte (digit n) \<and> byte (digit n) < 58"
  by (simp add: byte_digit)

lemma isDigit_digit: "0 \<le> n \<Longrightarrow> n < 10 \<Longrightarrow> isDigit (digit n)"
  using digit_range [of n] by (auto simp: isDigit_def inRange_def less_eq_char_def byte_def)

lemma pad2_digits:
  assumes "0 \<le> n" and "n < 100"
  shows "pad2 n = [digit (n div 10), digit (n mod 10)]"
proof (cases "n < 10")
  case True
  moreover have "(char_of (48 :: nat) :: char) = CHR ''0''" by code_simp
  ultimately show ?thesis using assms by (simp add: pad2_def itoa_def natDigits.simps digit_def)
next
  case False
  moreover have "nat n div 10 < 10" using assms by simp
  ultimately show ?thesis using assms
    by (simp add: pad2_def itoa_def natDigits.simps digit_def nat_div_distrib nat_mod_distrib)
qed

lemma digit_neq:
  assumes "0 \<le> n" and "n < 10"
  shows "digit n \<noteq> CHR ''-''" "digit n \<noteq> CHR '':''" "digit n \<noteq> CHR ''+''" "\<not> asciiSpace (digit n)"
proof -
  have *: "digit n \<noteq> c" if "\<not> (48 \<le> byte c \<and> byte c < 58)" for c
    using digit_range [OF assms] that by auto
  show "digit n \<noteq> CHR ''-''" "digit n \<noteq> CHR '':''" "digit n \<noteq> CHR ''+''"
    by (rule *, simp add: byte_def)+
  show "\<not> asciiSpace (digit n)"
    unfolding asciiSpace_def insert_iff empty_iff by (intro conjI notI, elim disjE) (insert *, auto simp: byte_def)
qed

lemma Atoi_digits:
  assumes "0 \<le> n" and "n < 100"
  shows "Atoi [digit (n div 10), digit (n mod 10)] = Some n"
proof -
  have d: "0 \<le> n div 10" "n div 10 < 10" "0 \<le> n mod 10" "n mod 10 < 10" using assms by auto
  have "digitsValue [digit (n div 10), digit (n mod 10)] = n"
    using d by (simp add: digitsValue_def byte_digit)
  with d assms show ?thesis
    by (simp add: Atoi_def Let_def HasPrefix_def digit_neq isDigit_digit minInt64_def maxInt64_def)
qed

lemma TrimSpace_id: "s = [] \<or> (\<not> asciiSpace (hd s) \<and> \<not> asciiSpace (last s)) \<Longrightarrow> TrimSpace s = s"
proof -
  have "dropWhile P xs = xs" if "xs = [] \<or> \<not> P (hd xs)" for P :: "char \<Rightarrow> bool" and xs
    using that by (cases xs) auto
  then show "s = [] \<or> (\<not> asciiSpace (hd s) \<and> \<not> asciiSpace (last s)) \<Longrightarrow> TrimSpace s = s"
    by (auto simp: TrimSpace_def hd_rev)
qed

lemma Cut_first: "c \<notin> set a \<Longrightarrow> Cut (a @ [c] @ b) [c] = (a, b, True)"
  by (induction a) (auto simp: HasPrefix_def)

definition clockText :: "int \<Rightarrow> string" where
  "clockText n = pad2 (n div 60) @ '':'' @ pad2 (n mod 60)"

lemma clockText_digits:
  assumes "0 \<le> n" and "n < 1440"
  shows "\<exists>a b c d. clockText n = [digit a, digit b] @ '':'' @ [digit c, digit d]
    \<and> {a, b, c, d} \<subseteq> {0..<10} \<and> Atoi [digit a, digit b] = Some (n div 60) \<and> Atoi [digit c, digit d] = Some (n mod 60)"
proof -
  have h: "0 \<le> n div 60" "n div 60 < 100" and m: "0 \<le> n mod 60" "n mod 60 < 100" using assms by auto
  have r: "x div 10 \<in> {0..<10} \<and> x mod 10 \<in> {0..<10}" if "0 \<le> x" "x < 100" for x :: int using that by auto
  show ?thesis
    using r [OF h] r [OF m] Atoi_digits [OF h] Atoi_digits [OF m] pad2_digits [OF h] pad2_digits [OF m]
    unfolding clockText_def
    by (intro exI [of _ "n div 60 div 10"] exI [of _ "n div 60 mod 10"] exI [of _ "n mod 60 div 10"]
        exI [of _ "n mod 60 mod 10"]) (simp only: insert_subset empty_subsetI simp_thms)
qed

lemma parseClock_clockText:
  assumes "0 \<le> n" and "n < 1440"
  shows "parseClock (clockText n) = Inr n"
proof -
  obtain a b c d where eq: "clockText n = [digit a, digit b] @ '':'' @ [digit c, digit d]"
    and r: "{a, b, c, d} \<subseteq> {0..<10}"
    and v: "Atoi [digit a, digit b] = Some (n div 60)" "Atoi [digit c, digit d] = Some (n mod 60)"
    using clockText_digits [OF assms] by blast
  have "TrimSpace (clockText n) = clockText n"
    unfolding eq using r by (intro TrimSpace_id) (simp add: digit_neq)
  moreover have "Cut (clockText n) '':'' = ([digit a, digit b], [digit c, digit d], True)"
    unfolding eq using r by (intro Cut_first) (simp add: digit_neq(1-3) [THEN not_sym])
  moreover have "0 \<le> n div 60" "n div 60 \<le> 23" "0 \<le> n mod 60" "n mod 60 \<le> 59" using assms by auto
  moreover have "n div 60 * 60 + n mod 60 = n" by simp
  ultimately show ?thesis using v unfolding parseClock_def by simp
qed

lemma minuteOfDay_range: "0 \<le> minuteOfDay off t \<and> minuteOfDay off t < 1440"
proof -
  have pos: "0 < minute" and d: "day = minute * 1440"
    by (simp_all add: day_def hour_def minute_def second_def)
  let ?x = "(t + off) mod day"
  have x: "0 \<le> ?x" "?x < minute * 1440" using pos d by auto
  have "minute * (?x div minute) + ?x mod minute = ?x" and "0 \<le> ?x mod minute"
    using pos by (simp_all add: mult_div_mod_eq)
  with x have "minute * (?x div minute) < minute * 1440" by linarith
  with pos x show ?thesis
    unfolding minuteOfDay_def by (simp add: pos_imp_zdiv_nonneg_iff)
qed

lemma mod_1440:
  fixes a b :: int
  assumes "0 \<le> a" "a < 1440" "0 \<le> b" "b < 1440"
  shows "(a - b) mod 1440 = (if b \<le> a then a - b else a - b + 1440)"
proof (cases "b \<le> a")
  case False
  have "(a - b) mod 1440 = (a - b + 1440) mod 1440" by (simp only: mod_add_self2)
  also have "\<dots> = a - b + 1440" using assms False by (intro mod_pos_pos_trivial) auto
  finally show ?thesis using False by simp
qed (use assms in simp)

lemma WindowOpen_cyclic:
  assumes "wfWindow w"
  shows "WindowOpen w off t \<longleftrightarrow>
    (minuteOfDay off t - win_start w) mod 1440 < (win_end w - win_start w) mod 1440"
  using assms minuteOfDay_range [of off t]
  by (auto simp: wfWindow_def WindowOpen_def Let_def mod_1440)

text \<open>Where the offset stays within \<open>d\<close> of the present one for a week, the next opening is less than \<open>3 * d\<close> in the
  past and at most a day and \<open>2 * d\<close> in the future.\<close>

lemma NextOpening_bounds:
  assumes "wfWindow w" and off: "\<And>u. \<bar>u - t\<bar> \<le> 7 * day \<Longrightarrow> \<bar>off u - off t\<bar> \<le> d" and "\<bar>off t\<bar> \<le> day" and "d \<le> day"
  shows "t - 3 * d < NextOpening w off t" and "NextOpening w off t \<le> t + day + 2 * d"
proof -
  have pos: "0 < minute" and dm: "day = minute * 1440" and h: "hour = 60 * minute"
    by (simp_all add: day_def hour_def minute_def second_def)
  let ?s = "win_start w * minute" and ?m = "(t + off t) div day * day"
  let ?x = "?m + ?s"
  let ?o = "Date off ?x"
  have s: "win_start w div 60 * hour + win_start w mod 60 * minute = ?s"
    unfolding h by (simp flip: mult.assoc distrib_right)
  have range: "0 \<le> ?s" "?s < day" using assms(1) pos by (auto simp: wfWindow_def dm)
  have dpos: "0 < day" using pos dm by simp
  have m: "?m \<le> t + off t" "t + off t < ?m + day"
    using dpos div_mult_mod_eq [of "t + off t" day] pos_mod_sign [of day "t + off t"] pos_mod_bound [of day "t + off t"] by linarith+
  have def: "NextOpening w off t = (if ?o > t then ?o else AddDay off ?o)"
    by (simp add: NextOpening_def Let_def s add.assoc)
  have d: "0 \<le> d" using off [of t] dpos by simp
  have x: "t + off t - day < ?x" "?x \<le> t + off t + day" using m range by linarith+
  have near: "\<bar>off ?x - off t\<bar> \<le> d" by (rule off) (use x assms(3) dpos in linarith)
  have "\<bar>off (?x - off ?x) - off t\<bar> \<le> d" by (rule off) (use x near assms(3,4) dpos in linarith)
  then have o: "?x - off t - d \<le> ?o" "?o \<le> ?x - off t + d" by (simp_all add: Date_def)
  let ?y = "?o + off ?o + day"
  have o': "\<bar>off ?o - off t\<bar> \<le> d" by (rule off) (use o x assms(4) dpos in linarith)
  have y: "\<bar>off ?y - off t\<bar> \<le> d" by (rule off) (use o o' x assms(3,4) dpos in linarith)
  have "\<bar>off (?y - off ?y) - off t\<bar> \<le> d" by (rule off) (use o o' y x assms(3,4) dpos in linarith)
  then have a: "?o + day - 2 * d \<le> AddDay off ?o" "AddDay off ?o \<le> ?o + day + 2 * d"
    using o' by (simp_all add: AddDay_def Date_def)
  show "t - 3 * d < NextOpening w off t" "NextOpening w off t \<le> t + day + 2 * d"
    unfolding def using o a m range d by (auto split: if_splits)
qed

text \<open>Where the offset does not change for a week, the clock shows the start of the window at the next opening.\<close>

lemma NextOpening_reading:
  assumes "wfWindow w" and off: "\<And>u. \<bar>u - t\<bar> \<le> 7 * day \<Longrightarrow> off u = off t" and "\<bar>off t\<bar> \<le> day"
  shows "(NextOpening w off t + off (NextOpening w off t)) mod day = win_start w * minute"
proof -
  have pos: "0 < minute" and dm: "day = minute * 1440" and h: "hour = 60 * minute"
    by (simp_all add: day_def hour_def minute_def second_def)
  let ?s = "win_start w * minute" and ?m = "(t + off t) div day * day"
  let ?x = "?m + ?s"
  let ?o = "Date off ?x"
  have s: "win_start w div 60 * hour + win_start w mod 60 * minute = ?s"
    unfolding h by (simp flip: mult.assoc distrib_right)
  have range: "0 \<le> ?s" "?s < day" using assms(1) pos by (auto simp: wfWindow_def dm)
  have dpos: "0 < day" using pos dm by simp
  have m: "?m \<le> t + off t" "t + off t < ?m + day"
    using dpos div_mult_mod_eq [of "t + off t" day] pos_mod_sign [of day "t + off t"] pos_mod_bound [of day "t + off t"] by linarith+
  have def: "NextOpening w off t = (if ?o > t then ?o else AddDay off ?o)"
    by (simp add: NextOpening_def Let_def s add.assoc)
  have x: "t + off t - day < ?x" "?x \<le> t + off t + day" using m range by linarith+
  have "off ?x = off t" by (rule off) (use x assms(3) dpos in linarith)
  moreover have "off (?x - off t) = off t" by (rule off) (use x dpos in linarith)
  ultimately have o: "?o = ?x - off t" by (simp add: Date_def)
  have o': "off ?o = off t" by (rule off) (use o x dpos in linarith)
  have "off (?x + day) = off t" by (rule off) (use x assms(3) dpos in linarith)
  moreover have "off (?x + day - off t) = off t" by (rule off) (use x dpos in linarith)
  ultimately have "Date off (?x + day) = ?x + day - off t" by (simp add: Date_def)
  moreover have "?o + off ?o = ?x" using o o' by linarith
  ultimately have a: "AddDay off ?o = ?x + day - off t" by (simp only: AddDay_def)
  have "off (NextOpening w off t) = off t"
    unfolding def by (rule off) (use o a x dpos in auto)
  moreover have "NextOpening w off t = ?x - off t \<or> NextOpening w off t = ?x + day - off t"
  proof (cases "?o > t")
    case True
    then have "NextOpening w off t = ?o" by (simp only: def if_True)
    then show ?thesis using o by simp
  next
    case False
    then have "NextOpening w off t = AddDay off ?o" by (simp only: def if_False)
    then show ?thesis using a by simp
  qed
  ultimately have "NextOpening w off t + off (NextOpening w off t) = ?s + (t + off t) div day * day
      \<or> NextOpening w off t + off (NextOpening w off t) = ?s + ((t + off t) div day + 1) * day"
    by (auto simp: algebra_simps)
  then show ?thesis using range by (auto simp only: mod_mult_self1 mod_pos_pos_trivial)
qed

lemma firstSome_None: "firstSome xs = None \<longleftrightarrow> list_all (\<lambda>x. x = None) xs"
  by (induction xs rule: firstSome.induct) auto

lemmas list_all_cons_and_nil = list.pred_inject

section \<open>Properties\<close>

text \<open>A deploy window survives printing and parsing: every window of two different times of day is
  read back from its text, and whatever the parser accepts is such a window.\<close>

theorem deploy_window_round_trip:
  "(wfWindow w \<longrightarrow> ParseDeployWindow (WindowString w) = Inr w)
   \<and> (\<forall>v. ParseDeployWindow s = Inr v \<longrightarrow> wfWindow v \<and> ParseDeployWindow (WindowString v) = Inr v)"
proof -
  have "ParseDeployWindow (WindowString v) = Inr v" if "wfWindow v" for v
  proof -
    have r: "0 \<le> win_start v" "win_start v < 1440" "0 \<le> win_end v" "win_end v < 1440" "win_start v \<noteq> win_end v"
      using that by (auto simp: wfWindow_def)
    obtain a b c d where s: "clockText (win_start v) = [digit a, digit b] @ '':'' @ [digit c, digit d]"
      and sr: "{a, b, c, d} \<subseteq> {0..<10}"
      using clockText_digits [OF r(1,2)] by blast
    obtain a' b' c' d' where e: "clockText (win_end v) = [digit a', digit b'] @ '':'' @ [digit c', digit d']"
      and er: "{a', b', c', d'} \<subseteq> {0..<10}"
      using clockText_digits [OF r(3,4)] by blast
    have str: "WindowString v = clockText (win_start v) @ [CHR ''-''] @ clockText (win_end v)"
      by (simp add: WindowString_def clockText_def)
    have "TrimSpace (WindowString v) = WindowString v"
      unfolding str s e using sr er by (intro TrimSpace_id) (simp add: digit_neq)
    moreover have "Cut (WindowString v) ''-'' = (clockText (win_start v), clockText (win_end v), True)"
      unfolding str by (rule Cut_first) (use s sr in \<open>simp add: digit_neq(1-3) [THEN not_sym]\<close>)
    ultimately show ?thesis
      using r by (simp add: ParseDeployWindow_def parseClock_clockText)
  qed
  then show ?thesis using ParseDeployWindow_wf by blast
qed

theorem deploy_window_round_trip_witness:
  "ParseDeployWindow (WindowString \<lparr>win_start = 1320, win_end = 300\<rparr>) = Inr \<lparr>win_start = 1320, win_end = 300\<rparr>"
  using deploy_window_round_trip [of "\<lparr>win_start = 1320, win_end = 300\<rparr>"] by (simp add: wfWindow_def)

text \<open>A deploy window is open on a cyclic interval of the day, also when it spans midnight: exactly
  the minutes from its start, counted forward around the clock, up to but not including its end.\<close>

theorem deploy_window_open_cyclic:
  assumes "ParseDeployWindow s = Inr w"
  shows "WindowOpen w off t \<longleftrightarrow>
    (minuteOfDay off t - win_start w) mod 1440 < (win_end w - win_start w) mod 1440"
  using WindowOpen_cyclic [OF ParseDeployWindow_wf [OF assms]] .

theorem deploy_window_open_cyclic_witness:
  "WindowOpen \<lparr>win_start = 1320, win_end = 300\<rparr> 0 (23 * hour)"
proof -
  have "ParseDeployWindow ''22:00-05:00'' = Inr \<lparr>win_start = 1320, win_end = 300\<rparr>" by code_simp
  from deploy_window_open_cyclic [OF this, of 0 "23 * hour"] show ?thesis
    by (simp add: minuteOfDay_def day_def hour_def minute_def second_def)
qed

lemma NextOpening_open:
  assumes "wfWindow w" and "\<And>u. \<bar>u - t\<bar> \<le> 7 * day \<Longrightarrow> off u = off t" and "\<bar>off t\<bar> \<le> day"
  shows "WindowOpen w (off (NextOpening w off t)) (NextOpening w off t)"
proof -
  have "0 < minute" by (simp add: minute_def second_def)
  then have "minuteOfDay (off (NextOpening w off t)) (NextOpening w off t) = win_start w"
    by (simp add: minuteOfDay_def NextOpening_reading [where off = off and t = t, OF assms])
  moreover have "(win_end w - win_start w) mod 1440 > 0"
    using assms(1) by (subst mod_1440) (auto simp: wfWindow_def)
  ultimately show ?thesis by (simp add: WindowOpen_cyclic [OF assms(1)])
qed

text \<open>The announced next opening, where the offset of the location does not change within a week: an instant after the
  given one, at most a day later, at which the local clock shows the start of the window to the
  second, and the window is open then.\<close>

theorem next_opening_opens:
  assumes "wfWindow w" and "\<And>u. \<bar>u - t\<bar> \<le> 7 * day \<Longrightarrow> off u = off t" and "\<bar>off t\<bar> \<le> day"
  shows "t < NextOpening w off t \<and> NextOpening w off t \<le> t + day
    \<and> (NextOpening w off t + off (NextOpening w off t)) mod day = win_start w * minute
    \<and> WindowOpen w (off (NextOpening w off t)) (NextOpening w off t)"
proof -
  have day: "0 \<le> day" by (simp add: day_def hour_def minute_def second_def)
  have near: "\<bar>off u - off t\<bar> \<le> 0" if "\<bar>u - t\<bar> \<le> 7 * day" for u using assms(2) [OF that] by simp
  from NextOpening_bounds [where off = off and t = t and d = 0, OF assms(1) near assms(3) day]
  have "t < NextOpening w off t" "NextOpening w off t \<le> t + day" by simp_all
  then show ?thesis
    using NextOpening_reading [where off = off and t = t, OF assms] NextOpening_open [where off = off and t = t, OF assms] by simp
qed

theorem next_opening_opens_witness:
  "WindowOpen \<lparr>win_start = 120, win_end = 300\<rparr> hour (NextOpening \<lparr>win_start = 120, win_end = 300\<rparr> (\<lambda>_. hour) 5)"
  using next_opening_opens [of "\<lparr>win_start = 120, win_end = 300\<rparr>" 5 "\<lambda>_. hour"]
  by (simp add: wfWindow_def day_def hour_def minute_def second_def)

text \<open>C39: a configuration that passes validation gives every bound the rest of the program relies on:
  at least one fetch attempt, a positive poll interval that does not exceed the watch, a positive
  streak limit, a tolerance that is not negative, git names that cannot be read as options, a
  deploy window that parses, and a webhook secret unless the listener is on a loopback address.\<close>

theorem validated_config_sound:
  assumes "fst (run_state (Validate host net c) w) = None"
  shows "1 \<le> cfg_RetryAttempts c \<and> 0 \<le> cfg_RetryDelaySeconds c \<and> 1 \<le> cfg_HealthPollIntervalSeconds c
    \<and> 0 \<le> cfg_HealthWatchSeconds c
    \<and> (0 < cfg_HealthWatchSeconds c \<longrightarrow> cfg_HealthPollIntervalSeconds c \<le> cfg_HealthWatchSeconds c)
    \<and> 1 \<le> cfg_HealthUnhealthyStreak c \<and> 0 \<le> cfg_HealthRestartTolerance c
    \<and> \<not> HasPrefix (cfg_Remote c) ''-'' \<and> \<not> HasPrefix (cfg_Branch c) ''-''
    \<and> (cfg_DeployWindow c \<noteq> [] \<longrightarrow> (\<exists>v. Window c = Some v \<and> wfWindow v))
    \<and> (wh_Secret (cfg_Webhook c) = [] \<longrightarrow> isLoopback net (wh_Listen (cfg_Webhook c)))"
proof -
  have vs: "validateValues net c = None" and req: "fst (run_state (validateRequired host net c) w) = None"
    using assms by (auto simp: Validate_def split: prod.splits option.splits)
  from req have refs: "gitRefError ''remote'' (cfg_Remote c) = None" "gitRefError ''branch'' (cfg_Branch c) = None"
    by (auto simp: validateRequired_def firstSome_None split: option.splits)
  note vals = vs [unfolded validateValues_def firstSome_None list_all_cons_and_nil]
  have "validateWebhook net (cfg_Webhook c) = None" using vals by blast
  then have hook: "wh_Secret (cfg_Webhook c) = [] \<longrightarrow> isLoopback net (wh_Listen (cfg_Webhook c))"
    by (auto simp: validateWebhook_def firstSome_None split: if_splits)
  have win: "cfg_DeployWindow c \<noteq> [] \<longrightarrow> (\<exists>v. Window c = Some v \<and> wfWindow v)"
    using vals by (auto simp: Window_def dest: ParseDeployWindow_wf split: sum.splits if_splits)
  have poll: "0 < cfg_HealthWatchSeconds c \<longrightarrow> cfg_HealthPollIntervalSeconds c \<le> cfg_HealthWatchSeconds c"
    using vals by (auto split: if_splits)
  show ?thesis
    using vals refs hook win poll by (simp add: minimum_def gitRefError_def validGitRef_def split: if_splits)
qed

definition demoNet :: Net where
  "demoNet = \<lparr>parseURL = (\<lambda>_. None), splitHostPort = (\<lambda>s. Some (fst (Cut s '':''), fst (snd (Cut s '':'')))),
     addrIsLoopback = (\<lambda>h. HasPrefix h ''127.''), NormalizeProjectName = (\<lambda>s. s)\<rparr>"

definition demoConfigHost :: "'w Host" where
  "demoConfigHost = \<lparr>ReadFile = (\<lambda>p. ret (Inr [])), ReadDir = (\<lambda>p. ret (Inr [])), StatIsDir = (\<lambda>p. ret (Inr False)),
     cacheGet = ret \<lparr>dc_key = [], dc_fingerprint = [], dc_stacks = []\<rparr>, cachePut = (\<lambda>c. ret ()),
     yamlDecode = (\<lambda>_. ([], None)), schemaValidate = (\<lambda>_. None), sha256 = (\<lambda>d. d), Getwd = Some ''/''\<rparr>"

theorem validated_config_sound_witness:
  "fst (run_state (Validate demoConfigHost demoNet Default) ()) = None \<and> 1 \<le> cfg_RetryAttempts Default"
proof -
  have ok: "fst (run_state (Validate demoConfigHost demoNet Default) ()) = None" by code_simp
  from validated_config_sound [OF ok] ok show ?thesis by blast
qed

end
