(* ===== verification/Notify.thy ===== *)
theory Notify
  imports CL_Prelude "HOL-Library.AList"
begin

text \<open>
  Notifications: \<^verbatim>\<open>internal/notify/discord.go\<close> (building embeds within Discord's limits, commit
  context) and \<^verbatim>\<open>notifier.go\<close> (throttling, delivery with one retry, the generic webhook payload).
  Texts are UTF-8 bytes. The HTTP request is the operation \<open>post\<close> of a \<open>Transport\<close>; the throttle map is
  part of the \<open>Notifier\<close>, which is threaded through the calls.
\<close>

section \<open>Embeds\<close>

datatype NotifyOutcome = OutcomeSuccess | OutcomeFailure | OutcomeRecovered | OutcomeDryRun

fun outcomeText :: "NotifyOutcome \<Rightarrow> string" where
  "outcomeText OutcomeSuccess = ''success''"
| "outcomeText OutcomeFailure = ''failure''"
| "outcomeText OutcomeRecovered = ''recovered''"
| "outcomeText OutcomeDryRun = ''dry_run''"

fun color :: "NotifyOutcome \<Rightarrow> int" where
  "color OutcomeSuccess = 0x00FF00"
| "color OutcomeRecovered = 0xFF8800"
| "color OutcomeDryRun = 0xFFFF00"
| "color OutcomeFailure = 0xFF0000"

fun icon :: "NotifyOutcome \<Rightarrow> string" where
  "icon OutcomeSuccess = [CHR 0xE2, CHR 0x9C, CHR 0x85]"
| "icon OutcomeRecovered = [CHR 0xE2, CHR 0x9A, CHR 0xA0, CHR 0xEF, CHR 0xB8, CHR 0x8F]"
| "icon OutcomeDryRun = [CHR 0xF0, CHR 0x9F, CHR 0x94, CHR 0x8D]"
| "icon OutcomeFailure = [CHR 0xE2, CHR 0x9D, CHR 0x8C]"

record Field =
  f_Name :: string
  f_Value :: string
  f_Inline :: bool

record Embed =
  em_Title :: string
  em_Description :: string
  em_Color :: int
  em_Fields :: "Field list"
  em_outcome :: NotifyOutcome
  em_title :: string
  em_commit :: string
  em_message :: string
  em_commitURL :: string
  em_compareURL :: string

definition Embed_Commit :: "Embed \<Rightarrow> string" where
  "Embed_Commit e = em_commit e"

record Report =
  rp_Outcome :: NotifyOutcome
  rp_Title :: string
  rp_Commit :: string
  rp_RepoURL :: string
  rp_Branch :: string
  rp_Services :: "string list"
  rp_Updated :: "string list"
  rp_UpdatedKnown :: bool
  rp_Restarted :: "string list"
  rp_Stacks :: "string list"
  rp_HealthWatch :: duration
  rp_Duration :: duration
  rp_Err :: "err option"
  rp_StderrTail :: string

text \<open>The zero report with an outcome and a title, for Go's keyed struct literals.\<close>

definition report :: "NotifyOutcome \<Rightarrow> string \<Rightarrow> Report" where
  "report oc title = \<lparr>rp_Outcome = oc, rp_Title = title, rp_Commit = [], rp_RepoURL = [], rp_Branch = [],
     rp_Services = [], rp_Updated = [], rp_UpdatedKnown = False, rp_Restarted = [], rp_Stacks = [],
     rp_HealthWatch = 0, rp_Duration = 0, rp_Err = None, rp_StderrTail = []\<rparr>"

definition maxErrorFieldLen :: nat where "maxErrorFieldLen = 500"
definition maxFieldValueLen :: nat where "maxFieldValueLen = 1024"
definition maxTitleLen :: nat where "maxTitleLen = 256"
definition maxFields :: nat where "maxFields = 25"
definition maxSubjectLen :: nat where "maxSubjectLen = 100"
definition maxAuthorLen :: nat where "maxAuthorLen = 64"

definition ellipsis :: string where
  "ellipsis = [CHR 0xE2, CHR 0x80, CHR 0xA6]"

definition truncateText :: "string \<Rightarrow> nat \<Rightarrow> string" where
  "truncateText s n = (if length s \<le> n then s else take (runeCut s (n - length ellipsis)) s @ ellipsis)"

definition orDash :: "string \<Rightarrow> string" where
  "orDash s = (if s = [] then ''-'' else s)"

definition formatDuration :: "duration \<Rightarrow> string" where
  "formatDuration d = (if d < second then durationString (roundDuration d 1000000)
     else durationString (roundDuration d second))"

definition shortHash :: "string \<Rightarrow> string" where
  "shortHash i = (if length i > 7 then take 7 i else i)"

definition BuildEmbed :: "Report \<Rightarrow> Embed" where
  "BuildEmbed r =
     (let commit = shortHash (rp_Commit r);
          commitValue = (if rp_RepoURL r \<noteq> [] \<and> commit \<noteq> []
            then ''['' @ commit @ '']('' @ rp_RepoURL r @ ''/commit/'' @ rp_Commit r @ '')'' else commit);
          services = (if rp_Services r \<noteq> [] then Join (rp_Services r) '', '' else ''all'');
          fields = [\<lparr>f_Name = ''Commit'', f_Value = orDash commitValue, f_Inline = True\<rparr>,
                    \<lparr>f_Name = ''Branch'', f_Value = orDash (rp_Branch r), f_Inline = True\<rparr>,
                    \<lparr>f_Name = ''Services'', f_Value = services, f_Inline = True\<rparr>]
            @ (if rp_UpdatedKnown r then [\<lparr>f_Name = ''Updated'',
                 f_Value = (if rp_Updated r \<noteq> [] then Join (rp_Updated r) '', '' else ''none''), f_Inline = True\<rparr>] else [])
            @ (if rp_Restarted r \<noteq> []
               then [\<lparr>f_Name = ''Restarted'', f_Value = Join (rp_Restarted r) '', '', f_Inline = True\<rparr>] else [])
            @ (if rp_Stacks r \<noteq> []
               then [\<lparr>f_Name = ''Stacks'', f_Value = Join (rp_Stacks r) '', '', f_Inline = True\<rparr>] else [])
            @ (if rp_HealthWatch r > 0 then [\<lparr>f_Name = ''Health Watch'',
                 f_Value = durationString (rp_HealthWatch r) @ '' ('' @ outcomeText (rp_Outcome r) @ '')'', f_Inline = True\<rparr>] else [])
            @ [\<lparr>f_Name = ''Duration'', f_Value = formatDuration (rp_Duration r), f_Inline = True\<rparr>]
            @ (case rp_Err r of None \<Rightarrow> []
               | Some e \<Rightarrow> [\<lparr>f_Name = ''Error'', f_Value = truncateText (errText e) maxErrorFieldLen, f_Inline = False\<rparr>])
            @ (if rp_StderrTail r \<noteq> []
               then [\<lparr>f_Name = ''Stderr'', f_Value = truncateText (rp_StderrTail r) maxErrorFieldLen, f_Inline = False\<rparr>] else []);
          title = icon (rp_Outcome r) @ (if rp_Title r \<noteq> [] then '' '' @ rp_Title r else []);
          fields' = (if length fields > maxFields then take maxFields fields else fields)
      in \<lparr>em_Title = truncateText title maxTitleLen, em_Description = [], em_Color = color (rp_Outcome r),
          em_Fields = map (\<lambda>f. f\<lparr>f_Name := truncateText (f_Name f) maxFieldValueLen,
                                 f_Value := orDash (truncateText (f_Value f) maxFieldValueLen)\<rparr>) fields',
          em_outcome = rp_Outcome r, em_title = rp_Title r, em_commit = rp_Commit r,
          em_message = [], em_commitURL = [], em_compareURL = []\<rparr>)"

record Alert =
  al_Stack :: string
  al_Commit :: string
  al_Branch :: string
  al_Problem :: string
  al_UnhealthyFor :: duration

definition BuildAlertEmbed :: "Alert \<Rightarrow> Embed" where
  "BuildAlertEmbed a =
     \<lparr>em_Title = truncateText (icon OutcomeFailure @ '' Stack unhealthy: '' @ al_Stack a) maxTitleLen,
      em_Description = [], em_Color = color OutcomeFailure,
      em_Fields = [
        \<lparr>f_Name = ''Stack'', f_Value = orDash (truncateText (al_Stack a) maxFieldValueLen), f_Inline = True\<rparr>,
        \<lparr>f_Name = ''Commit'', f_Value = orDash (shortHash (al_Commit a)), f_Inline = True\<rparr>,
        \<lparr>f_Name = ''Branch'', f_Value = orDash (truncateText (al_Branch a) maxFieldValueLen), f_Inline = True\<rparr>,
        \<lparr>f_Name = ''Unhealthy for'', f_Value = formatDuration (al_UnhealthyFor a), f_Inline = True\<rparr>,
        \<lparr>f_Name = ''Problem'', f_Value = orDash (truncateText (al_Problem a) maxErrorFieldLen), f_Inline = False\<rparr>],
      em_outcome = OutcomeFailure, em_title = ''Stack unhealthy: '' @ al_Stack a, em_commit = al_Commit a,
      em_message = [], em_commitURL = [], em_compareURL = []\<rparr>"

section \<open>Plain text\<close>

text \<open>
  The regular expression \<^verbatim>\<open>\[([^\]]*)\]\([^)]*\)\<close> at the head of a text: the link's label and the rest
  behind it. \<open>[^\]]*\<close> is greedy, so it ends at the first closing bracket.
\<close>

definition linkAt :: "string \<Rightarrow> (string \<times> string) option" where
  "linkAt s =
     (if HasPrefix s ''['' then
        (case Cut (drop 1 s) '']'' of (label, rest, ok) \<Rightarrow>
           if ok \<and> HasPrefix rest ''('' then
             (case Cut (drop 1 rest) '')'' of (_, tail, ok') \<Rightarrow> if ok' then Some (label, tail) else None)
           else None)
      else None)"

lemma Cut_length: "Cut s sep = (a, b, ok) \<Longrightarrow> length b \<le> length s"
  by (induction s sep arbitrary: a b rule: Cut.induct) (auto split: if_splits prod.splits)

lemma linkAt_shorter: "linkAt s = Some (label, tail) \<Longrightarrow> length tail < length s"
  by (cases s) (auto simp: linkAt_def split: if_splits prod.splits dest!: Cut_length)

function replaceLinks :: "string \<Rightarrow> string" where
  "replaceLinks s =
     (case s of
        [] \<Rightarrow> []
      | c # cs \<Rightarrow> (case linkAt s of Some (label, tail) \<Rightarrow> label @ replaceLinks tail | None \<Rightarrow> c # replaceLinks cs))"
  by pat_completeness auto
termination
  by (relation "measure length") (auto dest: linkAt_shorter)

declare replaceLinks.simps [simp del]

text \<open>\<^verbatim>\<open>strings.NewReplacer("**", "", "`", "")\<close>.\<close>

fun dropMarks :: "string \<Rightarrow> string" where
  "dropMarks [] = []"
| "dropMarks (c # s) =
     (case s of
        d # s' \<Rightarrow> if c = CHR ''*'' \<and> d = CHR ''*'' then dropMarks s'
                 else if c = CHR 0x60 then dropMarks s else c # dropMarks s
      | [] \<Rightarrow> if c = CHR 0x60 then [] else [c])"

definition plainText :: "string \<Rightarrow> string" where
  "plainText s = dropMarks (replaceLinks s)"

section \<open>Commit context\<close>

record CommitInfo =
  ci_ID :: string
  ci_Subject :: string
  ci_Author :: string

record CommitContext =
  cx_RepoURL :: string
  cx_Commit :: CommitInfo
  cx_Base :: string
  cx_Count :: int
  cx_Rollback :: "CommitInfo option"

definition link :: "CommitContext \<Rightarrow> string \<Rightarrow> string" where
  "link c i = ''['' @ shortHash i @ '']('' @ cx_RepoURL c @ ''/commit/'' @ i @ '')''"

definition describe :: "CommitContext \<Rightarrow> CommitInfo \<Rightarrow> string" where
  "describe c info =
     (if cx_RepoURL c \<noteq> [] then link c (ci_ID info) else [CHR 0x60] @ shortHash (ci_ID info) @ [CHR 0x60])
     @ (if ci_Subject info \<noteq> [] then '' '' @ truncateText (ci_Subject info) maxSubjectLen else [])
     @ (if ci_Author info \<noteq> [] then '' ('' @ truncateText (ci_Author info) maxAuthorLen @ '')'' else [])"

definition dotSep :: string where
  "dotSep = [CHR 0x20, CHR 0xC2, CHR 0xB7, CHR 0x20]"

definition AddCommitContext :: "Embed \<Rightarrow> CommitContext \<Rightarrow> Embed" where
  "AddCommitContext e c =
     (if ci_ID (cx_Commit c) = [] then e
      else
        let commit = cx_Commit c;
            lns = (case cx_Rollback c of
              Some rb \<Rightarrow> [''**Failed:** '' @ describe c commit, ''**Rollback target:** '' @ describe c rb]
            | None \<Rightarrow> if ci_Subject commit \<noteq> [] then [truncateText (ci_Subject commit) maxSubjectLen] else []);
            meta = (if cx_Rollback c = None \<and> ci_Author commit \<noteq> [] then [truncateText (ci_Author commit) maxAuthorLen] else [])
              @ (if cx_Rollback c = None \<and> cx_Count c > 1
                 then [itoa (cx_Count c) @ '' commits since '' @ shortHash (cx_Base c)] else []);
            plain = lns @ (if meta \<noteq> [] then [Join meta dotSep] else []);
            compare = cx_RepoURL c \<noteq> [] \<and> cx_Base c \<noteq> [] \<and> cx_Base c \<noteq> ci_ID commit;
            compareURL = (if compare then cx_RepoURL c @ ''/compare/'' @ cx_Base c @ ''...'' @ ci_ID commit else em_compareURL e);
            meta' = (if compare then meta @ [''[compare]('' @ compareURL @ '')''] else meta);
            lns' = (if meta' \<noteq> [] then lns @ [Join meta' dotSep] else lns);
            e' = e\<lparr>em_message := plainText (Join plain [CHR 0x0A]), em_compareURL := compareURL,
                   em_Description := Join lns' [CHR 0x0A]\<rparr>
        in if cx_RepoURL c = [] then e'
           else e'\<lparr>em_commitURL := cx_RepoURL c @ ''/commit/'' @ ci_ID commit,
                em_Fields := map (\<lambda>f. if f_Name f = ''Commit'' \<and> f_Value f = shortHash (ci_ID commit)
                                      then f\<lparr>f_Value := link c (ci_ID commit)\<rparr> else f) (em_Fields e')\<rparr>)"

section \<open>The generic webhook\<close>

record WebhookPayload =
  wp_SchemaVersion :: int
  wp_Source :: string
  wp_Status :: NotifyOutcome
  wp_Title :: string
  wp_Message :: string
  wp_Commit :: string
  wp_CommitURL :: string
  wp_CompareURL :: string
  wp_Fields :: "(string \<times> string) list"
  wp_Timestamp :: time

definition webhookPayload :: "Embed \<Rightarrow> time \<Rightarrow> WebhookPayload" where
  "webhookPayload e now = \<lparr>wp_SchemaVersion = 1, wp_Source = ''composelock'', wp_Status = em_outcome e,
     wp_Title = em_title e,
     wp_Message = (if em_message e \<noteq> [] then em_message e else plainText (em_Description e)),
     wp_Commit = em_commit e, wp_CommitURL = em_commitURL e, wp_CompareURL = em_compareURL e,
     wp_Fields = fold (\<lambda>f. AList.update (f_Name f) (plainText (f_Value f))) (em_Fields e) [],
     wp_Timestamp = now\<rparr>"

section \<open>Delivery\<close>

definition RepeatInterval :: duration where
  "RepeatInterval = hour"

record sink =
  sk_name :: string
  sk_url :: string
  sk_headers :: "(string \<times> string) list"
  sk_encode :: "Embed \<Rightarrow> time \<Rightarrow> err + string"

record Notifier =
  sinks :: "sink list"
  sent :: "(string \<times> time) list"

text \<open>
  \<open>sk_encode\<close> gets the time of the call, which the generic webhook puts into its payload.
  What delivery asks of its surroundings: \<open>post\<close> is \<^verbatim>\<open>Notifier.post\<close> (an HTTP request; the delay the
  server asks for, or zero), \<open>tNow\<close> is \<^verbatim>\<open>time.Now\<close>, \<open>tSleep\<close> is \<^verbatim>\<open>sleepCtx\<close>.
\<close>

record 'w Transport =
  post :: "ctx \<Rightarrow> sink \<Rightarrow> string \<Rightarrow> ('w, err + duration) state"
  tNow :: "('w, time) state"
  tSleep :: "ctx \<Rightarrow> duration \<Rightarrow> ('w, bool) state"

definition Enabled :: "Notifier \<Rightarrow> bool" where
  "Enabled n \<longleftrightarrow> sinks n \<noteq> []"

definition reset :: "Notifier \<Rightarrow> Notifier" where
  "reset n = n\<lparr>sent := []\<rparr>"

definition claim :: "time \<Rightarrow> string \<Rightarrow> Notifier \<Rightarrow> bool \<times> Notifier" where
  "claim now key n =
     (let live = filter (\<lambda>(k, at). \<not> (timeSub now at \<ge> RepeatInterval)) (sent n)
      in if key \<in> fst ` set live then (False, n\<lparr>sent := live\<rparr>)
         else (True, n\<lparr>sent := (key, now) # live\<rparr>))"

definition release :: "string \<Rightarrow> Notifier \<Rightarrow> Notifier" where
  "release key n = n\<lparr>sent := filter (\<lambda>(k, at). k \<noteq> key) (sent n)\<rparr>"

text \<open>The two attempts of \<open>deliver\<close>, as the loop \<^verbatim>\<open>for attempt := range 2\<close> makes them.\<close>

definition deliver :: "'w Transport \<Rightarrow> ctx \<Rightarrow> sink \<Rightarrow> Embed \<Rightarrow> ('w, bool) state" where
  "deliver tr c s emb = do {
     now \<leftarrow> tNow tr;
     case sk_encode s emb now of
       Inl e \<Rightarrow> ret False
     | Inr data \<Rightarrow> do {
         r1 \<leftarrow> post tr c s data;
         case r1 of
           Inl e \<Rightarrow> ret False
         | Inr retryAfter \<Rightarrow>
             if retryAfter \<le> 0 then ret True
             else do {
               ok \<leftarrow> tSleep tr c retryAfter;
               if \<not> ok then ret False
               else do {
                 r2 \<leftarrow> post tr c s data;
                 ret (case r2 of Inl e \<Rightarrow> False | Inr again \<Rightarrow> again \<le> 0)
               }
             }
       }
   }"

definition Send :: "'w Transport \<Rightarrow> Notifier \<Rightarrow> ctx \<Rightarrow> Embed \<Rightarrow> ('w, bool) state" where
  "Send tr n c emb =
     (if \<not> Enabled n then ret False
      else foldM (\<lambda>s delivered. do { ok \<leftarrow> deliver tr c s emb; ret (delivered \<and> ok) }) (sinks n) True)"

definition sendToSink :: "'w Transport \<Rightarrow> ctx \<Rightarrow> string \<Rightarrow> Embed \<Rightarrow> sink \<Rightarrow> bool \<times> Notifier \<Rightarrow> ('w, bool \<times> Notifier) state" where
  "sendToSink tr c key emb s = (\<lambda>(delivered, n). do {
     let sinkKey = sk_name s @ '':'' @ key;
     now \<leftarrow> tNow tr;
     case claim now sinkKey n of
       (False, n') \<Rightarrow> ret (delivered, n')
     | (True, n') \<Rightarrow> do {
         ok \<leftarrow> deliver tr c s emb;
         ret (if \<not> ok then (False, release sinkKey n') else (delivered, n'))
       }
   })"

definition SendThrottled :: "'w Transport \<Rightarrow> Notifier \<Rightarrow> ctx \<Rightarrow> string \<Rightarrow> Embed \<Rightarrow> ('w, bool \<times> Notifier) state" where
  "SendThrottled tr n c key emb =
     (if key = [] then do { ok \<leftarrow> Send tr (reset n) c emb; ret (ok, reset n) }
      else foldM (sendToSink tr c key emb) (sinks n) (True, n))"

section \<open>Lemmas\<close>

lemma length_ellipsis [simp]: "length ellipsis = 3"
  by (simp add: ellipsis_def)

lemma length_truncateText: "3 \<le> n \<Longrightarrow> length (truncateText s n) \<le> n"
  using runeCut_le [of s "n - 3"] by (auto simp: truncateText_def min_def)

lemma length_formatDuration: "formatDuration d \<noteq> []"
proof -
  have "durationString x \<noteq> []" for x
    by (simp add: durationString_def durationMagnitude_def Let_def)
  then show ?thesis by (simp add: formatDuration_def)
qed

lemma orDash_nonempty [simp]: "orDash s \<noteq> []"
  by (simp add: orDash_def)

lemma length_orDash: "1 \<le> n \<Longrightarrow> length s \<le> n \<Longrightarrow> length (orDash s) \<le> n"
  by (simp add: orDash_def)

lemma length_itoa_bound: "natDigits n \<noteq> []"
  by (subst natDigits.simps) simp

lemma sent_claim_live:
  assumes "claim now key n = (ok, n')"
  shows "\<forall>(k, at) \<in> set (sent n'). timeSub now at < RepeatInterval"
proof -
  have "timeSub now now < RepeatInterval"
    by (simp add: timeSub_def RepeatInterval_def hour_def minute_def second_def minInt64_def maxInt64_def)
  with assms show ?thesis by (auto simp: claim_def Let_def split: if_splits)
qed

section \<open>Properties\<close>

text \<open>Truncation respects its byte limit and never splits a character: a text within the limit is
  unchanged; a longer one becomes its longest prefix that ends before the start of a rune within the
  limit minus the ellipsis, followed by the ellipsis.\<close>

theorem truncate_within_limit:
  assumes "3 \<le> n"
  shows "length (truncateText s n) \<le> n
    \<and> (length s \<le> n \<longrightarrow> truncateText s n = s)
    \<and> (n < length s \<longrightarrow> (\<exists>cut \<le> n - 3. truncateText s n = take cut s @ ellipsis
          \<and> (cut = 0 \<or> RuneStart (s ! cut))
          \<and> (\<forall>j. cut < j \<and> j \<le> n - 3 \<longrightarrow> \<not> RuneStart (s ! j))))"
proof -
  have "\<exists>cut \<le> n - 3. truncateText s n = take cut s @ ellipsis \<and> (cut = 0 \<or> RuneStart (s ! cut))
          \<and> (\<forall>j. cut < j \<and> j \<le> n - 3 \<longrightarrow> \<not> RuneStart (s ! j))" if "n < length s"
    by (rule exI [of _ "runeCut s (n - 3)"])
      (use that runeCut_le runeCut_start runeCut_maximal in \<open>auto simp: truncateText_def\<close>)
  with length_truncateText [OF assms] show ?thesis by (auto simp: truncateText_def)
qed

theorem truncate_within_limit_witness: "length (truncateText ''0123456789'' 5) \<le> 5"
  using truncate_within_limit [of 5 "''0123456789''"] by simp

text \<open>The limits of the Discord API on the parts of an embed.\<close>

definition withinLimits :: "Embed \<Rightarrow> bool" where
  "withinLimits e \<longleftrightarrow> length (em_Title e) \<le> 256 \<and> length (em_Description e) \<le> 4096 \<and> length (em_Fields e) \<le> 25
     \<and> list_all (\<lambda>f. f_Name f \<noteq> [] \<and> length (f_Name f) \<le> 256 \<and> f_Value f \<noteq> [] \<and> length (f_Value f) \<le> 1024) (em_Fields e)"

lemma within_BuildEmbed: "withinLimits (BuildEmbed r)"
proof -
  have v: "length (orDash (truncateText s maxFieldValueLen)) \<le> 1024" for s
    by (rule length_orDash) (use length_truncateText [of 1024 s] in \<open>simp_all add: maxFieldValueLen_def\<close>)
  have n: "truncateText s maxFieldValueLen = s" if "length s \<le> 256" for s using that by (simp add: truncateText_def maxFieldValueLen_def)
  show ?thesis
    using length_truncateText [of 256]
    by (simp add: withinLimits_def BuildEmbed_def Let_def v n maxTitleLen_def maxFields_def split: option.split)
qed

lemma length_shortHash: "length (shortHash i) \<le> 7"
  by (simp add: shortHash_def)

lemma length_natDigits: "n < 10 ^ k \<Longrightarrow> length (natDigits n) \<le> max 1 k"
proof (induction n arbitrary: k rule: natDigits.induct)
  case (1 n)
  show ?case
  proof (cases "n < 10")
    case True
    then show ?thesis by (subst natDigits.simps) simp
  next
    case False
    then obtain j where k: "k = Suc j" using 1 by (cases k) auto
    then have "n div 10 < 10 ^ j" using 1 by (simp add: less_mult_imp_div_less mult.commute)
    from "1.IH" [OF False this] have "length (natDigits (n div 10)) \<le> max 1 j" .
    moreover have "0 < j" using False 1 k by (cases j) auto
    ultimately show ?thesis using False k by (subst natDigits.simps) simp
  qed
qed

lemma length_itoa: "\<bar>i\<bar> < 10 ^ 20 \<Longrightarrow> length (itoa i) \<le> 21"
proof -
  assume "\<bar>i\<bar> < 10 ^ 20"
  then have "nat i < 10 ^ 20" "nat (- i) < 10 ^ 20" by (simp_all add: nat_less_iff)
  then have "length (natDigits (nat i)) \<le> max 1 20" "length (natDigits (nat (- i))) \<le> max 1 20"
    by (blast intro: length_natDigits)+
  then show ?thesis by (simp add: itoa_def)
qed

lemma length_fracDigits [simp]: "length (fracDigits prec v) = prec"
  by (induction prec arbitrary: v) simp_all

lemma length_fmtFrac: "0 \<le> v \<Longrightarrow> v < 10 ^ 20 \<Longrightarrow> length (fmtFrac prec v) \<le> 22 + prec"
proof -
  assume "0 \<le> v" and "v < 10 ^ 20"
  moreover from \<open>0 \<le> v\<close> have "v div 10 ^ prec \<le> v" "0 \<le> v div 10 ^ prec"
    using zdiv_mono2 [of v 1 "10 ^ prec"] by (simp_all add: pos_imp_zdiv_nonneg_iff)
  ultimately have "\<bar>v div 10 ^ prec\<bar> < 10 ^ 20" by simp
  then have "length (itoa (v div 10 ^ prec)) \<le> 21" by (rule length_itoa)
  moreover have "length (dropWhile (\<lambda>c. c = CHR ''0'') (rev (fracDigits prec v))) \<le> prec"
    using length_dropWhile_le [of "\<lambda>c. c = CHR ''0''" "rev (fracDigits prec v)"] by simp
  ultimately show ?thesis by (simp add: fmtFrac_def Let_def)
qed

lemma length_durationString:
  assumes "\<bar>d\<bar> \<le> 2 ^ 63"
  shows "length (durationString d) \<le> 100"
proof -
  have "length (durationMagnitude u) \<le> 90" if u: "0 \<le> u" "u \<le> 2 ^ 63" for u
  proof -
    have i: "length (itoa i) \<le> 21" if "0 \<le> i" "i \<le> 2 ^ 63" for i using that by (intro length_itoa) simp
    have f: "length (fmtFrac prec v) \<le> 22 + prec" if "0 \<le> v" "v \<le> 2 ^ 63" for prec v using that by (intro length_fmtFrac) simp_all
    let ?m = "u div 60000000000"
    have "length (itoa (?m div 60)) \<le> 21" "length (itoa ?m) \<le> 21" using u by (intro i; simp)+
    moreover have "length (itoa (?m mod 60)) \<le> 21" using pos_mod_bound [of 60 ?m] by (intro i) simp_all
    moreover have "length (fmtFrac 9 (u mod 60000000000)) \<le> 31"
      using f [of "u mod 60000000000" 9] pos_mod_bound [of 60000000000 u] by simp
    moreover have "length (itoa u) \<le> 21" "length (fmtFrac 3 u) \<le> 25" "length (fmtFrac 6 u) \<le> 28"
      using i [of u] f [of u 3] f [of u 6] u by simp_all
    moreover have "length (fmtFrac 9 u) \<le> 31" using f [of u 9] u by simp
    ultimately show ?thesis unfolding durationMagnitude_def Let_def by simp
  qed
  from this [of d] this [of "- d"] show ?thesis using assms by (auto simp: durationString_def abs_le_iff)
qed

lemma length_formatDuration_le: "length (formatDuration d) \<le> 100"
proof -
  have "\<bar>roundDuration x m\<bar> \<le> 2 ^ 63" for x m
  proof -
    have "minInt64 \<le> roundDuration x m" "roundDuration x m \<le> maxInt64"
      unfolding roundDuration_def Let_def by (simp_all add: minInt64_def maxInt64_def)
    then show ?thesis by (simp add: minInt64_def maxInt64_def abs_le_iff)
  qed
  then show ?thesis by (simp add: formatDuration_def length_durationString)
qed

lemma within_BuildAlertEmbed: "withinLimits (BuildAlertEmbed a)"
proof -
  have v: "length (orDash (truncateText s n)) \<le> n" if "3 \<le> n" for s n
    by (rule length_orDash) (use that length_truncateText [of n s] in simp_all)
  have "length (orDash (shortHash (al_Commit a))) \<le> 1024" by (rule length_orDash) (use length_shortHash [of "al_Commit a"] in simp_all)
  moreover have "length (formatDuration (al_UnhealthyFor a)) \<le> 1024" using length_formatDuration_le [of "al_UnhealthyFor a"] by simp
  ultimately show ?thesis
    using length_truncateText [of 256] v [of 1024] order_trans [OF v [of 500]]
    by (simp add: withinLimits_def BuildAlertEmbed_def maxTitleLen_def maxFieldValueLen_def maxErrorFieldLen_def length_formatDuration)
qed

text \<open>Contexts whose addresses and ids have an ordinary length.\<close>

definition ordinaryContext :: "CommitContext \<Rightarrow> bool" where
  "ordinaryContext c \<longleftrightarrow> length (cx_RepoURL c) \<le> 512 \<and> length (ci_ID (cx_Commit c)) \<le> 64 \<and> length (cx_Base c) \<le> 64
     \<and> cx_Count c < 2 ^ 63 \<and> (case cx_Rollback c of None \<Rightarrow> True | Some rb \<Rightarrow> length (ci_ID rb) \<le> 64)"

lemma length_link: "length (cx_RepoURL c) \<le> 512 \<Longrightarrow> length i \<le> 64 \<Longrightarrow> length (link c i) \<le> 600"
  using length_shortHash [of i] by (simp add: link_def)

lemma length_describe:
  assumes "length (cx_RepoURL c) \<le> 512" and "length (ci_ID info) \<le> 64"
  shows "length (describe c info) \<le> 800"
  using length_link [OF assms] length_shortHash [of "ci_ID info"]
    length_truncateText [of 100 "ci_Subject info"] length_truncateText [of 64 "ci_Author info"]
  by (simp add: describe_def maxSubjectLen_def maxAuthorLen_def)

lemma within_AddCommitContext:
  assumes "ordinaryContext c" and "withinLimits e"
  shows "withinLimits (AddCommitContext e c)"
proof (cases "ci_ID (cx_Commit c) = []")
  case False
  let ?e = "AddCommitContext e c"
  have len: "length (cx_RepoURL c) \<le> 512" "length (ci_ID (cx_Commit c)) \<le> 64" "length (cx_Base c) \<le> 64"
    using assms(1) by (auto simp: ordinaryContext_def)
  have "length (itoa (cx_Count c)) \<le> 21" if "1 < cx_Count c" using assms(1) that by (intro length_itoa) (simp add: ordinaryContext_def)
  moreover have "length (describe c rb) \<le> 800" if "cx_Rollback c = Some rb" for rb
    using assms(1) that length_describe [OF len(1), of rb] by (simp add: ordinaryContext_def)
  ultimately have "length (em_Description ?e) \<le> 4096"
    using False length_describe [OF len(1,2)] len length_shortHash [of "cx_Base c"] length_shortHash [of "[]"] length_shortHash [of "ci_ID (cx_Commit c)"]
      length_truncateText [of 100 "ci_Subject (cx_Commit c)"] length_truncateText [of 64 "ci_Author (cx_Commit c)"]
    by (cases "cx_Rollback c"; cases "1 < cx_Count c") (simp_all add: AddCommitContext_def Let_def maxSubjectLen_def maxAuthorLen_def dotSep_def)
  moreover have "length (link c (ci_ID (cx_Commit c))) \<le> 1024" "link c (ci_ID (cx_Commit c)) \<noteq> []"
    using length_link [OF len(1,2)] by (simp_all add: link_def)
  ultimately show ?thesis
    using assms(2) False by (auto simp: withinLimits_def AddCommitContext_def Let_def list_all_iff)
qed (use assms(2) in \<open>simp add: AddCommitContext_def\<close>)

text \<open>C40: every part of a notification stays within Discord's limits: the title has at most 256 bytes, the
  description at most 4096, there are at most 25 fields, each field has a name of at most 256 bytes and a
  value, which is not empty and has at most 1024. Reports and alerts of any length, error texts included, and
  commits with any subject and author keep them, as long as the address of the repository has at most 512
  bytes.\<close>

theorem notification_within_limits:
  "withinLimits (BuildEmbed r) \<and> withinLimits (BuildAlertEmbed a)
   \<and> (ordinaryContext c \<longrightarrow> withinLimits (AddCommitContext (BuildEmbed r) c) \<and> withinLimits (AddCommitContext (BuildAlertEmbed a) c))"
  by (simp add: within_BuildEmbed within_BuildAlertEmbed within_AddCommitContext)

theorem notification_within_limits_witness:
  "\<exists>c. ordinaryContext c \<and> cx_Count c = 3 \<and> withinLimits (AddCommitContext (BuildEmbed (report OutcomeSuccess ''Deployed'')) c)"
proof -
  let ?c = "\<lparr>cx_RepoURL = ''https://git.example/r'', cx_Commit = \<lparr>ci_ID = ''bbbb'', ci_Subject = ''fix'', ci_Author = ''me''\<rparr>,
    cx_Base = ''aaaa'', cx_Count = 3, cx_Rollback = None\<rparr>"
  have "ordinaryContext ?c" by (simp add: ordinaryContext_def)
  moreover from this have "withinLimits (AddCommitContext (BuildEmbed (report OutcomeSuccess ''Deployed'')) ?c)"
    using notification_within_limits [of "report OutcomeSuccess ''Deployed''"] by blast
  ultimately show ?thesis by (intro exI [of _ ?c]) simp
qed

text \<open>Repeats are throttled. A notification whose key was claimed and not released is blocked until
  an hour has passed, however often it is tried; a claim that failed to deliver is released and can be
  tried again at once; and a claim that is an hour old does not block.\<close>

theorem throttle_one_per_hour:
  assumes "claim t key n = (True, n')"
  shows "(timeSub t' t < RepeatInterval \<longrightarrow> fst (claim t' key n') = False)
    \<and> fst (claim t' key (release key n'))
    \<and> (timeSub t' t \<ge> RepeatInterval \<and> t \<le> t' \<longrightarrow> fst (claim t' key n'))"
proof -
  have n': "n' = n\<lparr>sent := (key, t) # filter (\<lambda>(k, at). \<not> timeSub t at \<ge> RepeatInterval) (sent n)\<rparr>"
    and fresh: "key \<notin> fst ` set (filter (\<lambda>(k, at). \<not> timeSub t at \<ge> RepeatInterval) (sent n))"
    using assms by (auto simp: claim_def Let_def split: if_splits)
  then show ?thesis by (auto simp: claim_def release_def Let_def)
qed

theorem throttle_one_per_hour_witness:
  "fst (claim (30 * minute) ''k'' (snd (claim 0 ''k'' \<lparr>sinks = [], sent = []\<rparr>))) = False"
proof -
  have "claim 0 ''k'' \<lparr>sinks = [], sent = []\<rparr> = (True, \<lparr>sinks = [], sent = [(''k'', 0)]\<rparr>)"
    by (simp add: claim_def)
  from throttle_one_per_hour [OF this, of "30 * minute"] this show ?thesis
    by (simp add: timeSub_def RepeatInterval_def hour_def minute_def second_def minInt64_def maxInt64_def)
qed

end
