(* ===== verification/Discover.thy ===== *)
theory Discover
  imports ComposeProject "HOL-Library.Product_Lexorder"
begin

text \<open>
  Stack discovery: \<^verbatim>\<open>internal/compose/discover.go\<close>. \<open>discover\<close> reads a directory and its immediate
  subdirectories and turns the compose files of each into a stack; \<open>Discover\<close> is the cached entry
  point, keyed by a hash of everything \<open>discover\<close> reads.
\<close>

definition IsComposeFile :: "string \<Rightarrow> bool" where
  "IsComposeFile name \<longleftrightarrow> ToLower (Ext name) \<in> {''.yaml'', ''.yml''}"

definition composeTopLevelKeys :: "string list" where
  "composeTopLevelKeys = [''configs'', ''include'', ''models'', ''name'', ''networks'', ''secrets'',
     ''services'', ''version'', ''volumes'']"

definition composeBaseNames :: "string list" where
  "composeBaseNames = [''compose.yaml'', ''compose.yml'', ''docker-compose.yaml'', ''docker-compose.yml'']"

definition isHidden :: "string \<Rightarrow> bool" where
  "isHidden name \<longleftrightarrow> HasPrefix name ''.''"

definition sanitizeRune :: "string \<Rightarrow> char" where
  "sanitizeRune r =
     (case r of
        [c] \<Rightarrow> if inRange (CHR ''a'') (CHR ''z'') c \<or> inRange (CHR ''0'') (CHR ''9'') c
                  \<or> c = CHR ''_'' \<or> c = CHR ''-'' then c else CHR ''-''
      | _ \<Rightarrow> CHR ''-'')"

definition sanitizeProjectSuffix :: "string \<Rightarrow> string" where
  "sanitizeProjectSuffix name = map sanitizeRune (runes (ToLower name))"

definition mergeRank :: "string \<Rightarrow> nat" where
  "mergeRank name =
     (let name = ToLower name
      in if name \<in> set composeBaseNames then 0
         else if HasSuffix (TrimSuffix name (Ext name)) ''.override'' then 2
         else 1)"

definition sortByMergeOrder :: "string list \<Rightarrow> string list" where
  "sortByMergeOrder files = sort_key (\<lambda>f. (mergeRank (BasePath f), f)) files"

text \<open>\<^verbatim>\<open>entryIsDir\<close>: \<open>None\<close> is "not ok", a symbolic link whose target cannot be read.\<close>

definition entryIsDir :: "'w Host \<Rightarrow> string \<Rightarrow> DirEntry \<Rightarrow> ('w, bool option) state" where
  "entryIsDir host parent e =
     (if \<not> e_Symlink e then ret (Some (e_Dir e))
      else do {
        r \<leftarrow> StatIsDir host (JoinPath parent (e_Name e));
        ret (case r of Inl _ \<Rightarrow> None | Inr isDir \<Rightarrow> Some isDir)
      })"

definition isComposeCandidate :: "'w Host \<Rightarrow> string \<Rightarrow> DirEntry \<Rightarrow> ('w, bool) state" where
  "isComposeCandidate host parent e =
     (if isHidden (e_Name e) \<or> \<not> IsComposeFile (e_Name e) then ret False
      else do { d \<leftarrow> entryIsDir host parent e; ret (d = Some False) })"

definition subDirOf :: "'w Host \<Rightarrow> string \<Rightarrow> DirEntry \<Rightarrow> ('w, string option) state" where
  "subDirOf host parent e =
     (if isHidden (e_Name e) then ret None
      else do {
        d \<leftarrow> entryIsDir host parent e;
        ret (if d = Some True then Some (JoinPath parent (e_Name e)) else None)
      })"

text \<open>The documents of a file that are mappings, as long as the first one is.\<close>

fun mappingDocs :: "(string \<times> yaml) list list \<Rightarrow> yaml list \<Rightarrow> err option \<Rightarrow> err + (string \<times> yaml) list list" where
  "mappingDocs docs [] e = (case e of None \<Rightarrow> Inr docs | Some x \<Rightarrow> Inl x)"
| "mappingDocs docs (YNull # rest) e = mappingDocs docs rest e"
| "mappingDocs docs (YMap m # rest) e = mappingDocs (docs @ [m]) rest e"
| "mappingDocs docs (_ # rest) e =
     (if docs \<noteq> []
      then Inl (errorf (''document '' @ itoa (int (length docs) + 1) @ '' is not a mapping''))
      else Inr [])"

definition yamlMappings :: "'w Host \<Rightarrow> string \<Rightarrow> err + (string \<times> yaml) list list" where
  "yamlMappings host data = (case yamlDecode host data of (docs, e) \<Rightarrow> mappingDocs [] docs e)"

definition knownKey :: "string \<Rightarrow> bool" where
  "knownKey k \<longleftrightarrow> k \<in> set composeTopLevelKeys \<or> HasPrefix k ''x-''"

definition looksLikeCompose :: "(string \<times> yaml) list \<Rightarrow> bool" where
  "looksLikeCompose model \<longleftrightarrow>
     (if model = [] then False
      else if mapLookup model ''services'' \<noteq> None then True
      else if mapLookup model ''include'' \<noteq> None then True
      else list_all (\<lambda>(k, _). knownKey k) model)"

text \<open>The keys that the warning about a skipped file names, in order.\<close>

definition unknownTopLevelKeys :: "(string \<times> yaml) list \<Rightarrow> string list" where
  "unknownTopLevelKeys model = sort (map fst (filter (\<lambda>(k, _). \<not> knownKey k) model))"

text \<open>A file with keys is skipped exactly if the warning has something to say, and neither key of a workload is there.\<close>

lemma skipped_file_explained:
  assumes "model \<noteq> []"
  shows "\<not> looksLikeCompose model \<longleftrightarrow>
    unknownTopLevelKeys model \<noteq> [] \<and> mapLookup model ''services'' = None \<and> mapLookup model ''include'' = None"
proof -
  have "unknownTopLevelKeys model = [] \<longleftrightarrow> list_all (\<lambda>(k, _). knownKey k) model"
    unfolding unknownTopLevelKeys_def set_empty [symmetric] set_sort by (auto simp: list_all_iff)
  with assms show ?thesis by (auto simp: looksLikeCompose_def)
qed

definition definesWorkloads :: "(string \<times> yaml) list \<Rightarrow> bool" where
  "definesWorkloads model \<longleftrightarrow>
     (case mapLookup model ''services'' of Some (YMap (_ # _)) \<Rightarrow> True
      | _ \<Rightarrow> (case mapLookup model ''include'' of Some (YSeq (_ # _)) \<Rightarrow> True | _ \<Rightarrow> False))"

definition checkComposeFile :: "'w Host \<Rightarrow> string \<Rightarrow> ('w, err + (bool \<times> bool)) state" where
  "checkComposeFile host path = do {
     r \<leftarrow> ReadFile host path;
     case r of
       Inl e \<Rightarrow> ret (Inl (wrapf (''reading '' @ path @ '': '') e))
     | Inr data \<Rightarrow>
         (case yamlMappings host data of
            Inl e \<Rightarrow> ret (Inl (wrapf (''parsing '' @ path @ '': '') e))
          | Inr [] \<Rightarrow> ret (Inr (False, False))
          | Inr (doc # others) \<Rightarrow>
              if \<not> looksLikeCompose doc then ret (Inr (False, False))
              else if others \<noteq> []
                then ret (Inl (errorf (''multi-document compose file '' @ path @ '': only the first document would be applied'')))
              else case schemaValidate host doc of
                Some e \<Rightarrow> ret (Inl (wrapf (''invalid compose file '' @ path @ '': '') e))
              | None \<Rightarrow> ret (Inr (True, definesWorkloads doc)))
   }"

text \<open>The loop of \<open>composeFilesIn\<close>: the compose files among the entries, in directory order.\<close>

fun collectFiles :: "'w Host \<Rightarrow> string \<Rightarrow> DirEntry list \<Rightarrow> ('w, err + (string list \<times> bool)) state" where
  "collectFiles host dir [] = ret (Inr ([], False))"
| "collectFiles host dir (e # es) = do {
     cand \<leftarrow> isComposeCandidate host dir e;
     if \<not> cand then collectFiles host dir es
     else do {
       let path = JoinPath dir (e_Name e);
       r \<leftarrow> checkComposeFile host path;
       case r of
         Inl x \<Rightarrow> ret (Inl x)
       | Inr (isCompose, workloads) \<Rightarrow> do {
           r' \<leftarrow> collectFiles host dir es;
           ret (case r' of
              Inl x \<Rightarrow> Inl x
            | Inr (files, has) \<Rightarrow>
                if isCompose then Inr (path # files, workloads \<or> has) else Inr (files, has))
         }
     }
   }"

definition composeFilesIn :: "'w Host \<Rightarrow> string \<Rightarrow> DirEntry list \<Rightarrow> ('w, err + (string list \<times> bool)) state" where
  "composeFilesIn host dir entries = do {
     r \<leftarrow> collectFiles host dir entries;
     ret (case r of Inl e \<Rightarrow> Inl e | Inr (files, has) \<Rightarrow> Inr (sortByMergeOrder files, has))
   }"

text \<open>The loop over the subdirectories.\<close>

fun discoverSubs :: "'w Host \<Rightarrow> string \<Rightarrow> string \<Rightarrow> DirEntry list \<Rightarrow> ('w, err + Stack list) state" where
  "discoverSubs host composeDir base [] = ret (Inr [])"
| "discoverSubs host composeDir base (e # es) = do {
     s \<leftarrow> subDirOf host composeDir e;
     case s of
       None \<Rightarrow> discoverSubs host composeDir base es
     | Some subDir \<Rightarrow> do {
         r \<leftarrow> ReadDir host subDir;
         case r of
           Inl x \<Rightarrow> ret (Inl (wrapf (''reading '' @ subDir @ '': '') x))
         | Inr subEntries \<Rightarrow> do {
             r2 \<leftarrow> composeFilesIn host subDir subEntries;
             case r2 of
               Inl x \<Rightarrow> ret (Inl x)
             | Inr (files, hasWorkloads) \<Rightarrow>
                 if files = [] \<or> \<not> hasWorkloads then discoverSubs host composeDir base es
                 else do {
                   r3 \<leftarrow> discoverSubs host composeDir base es;
                   ret (case r3 of
                      Inl x \<Rightarrow> Inl x
                    | Inr stacks \<Rightarrow> Inr (\<lparr>k_ProjectName = base @ ''-'' @ sanitizeProjectSuffix (e_Name e),
                        k_Dir = subDir, k_Files = files\<rparr> # stacks))
                 }
           }
       }
   }"

fun firstDuplicate :: "Stack list \<Rightarrow> (Stack \<times> Stack) option" where
  "firstDuplicate (a # b # rest) =
     (if k_ProjectName b = k_ProjectName a then Some (a, b) else firstDuplicate (b # rest))"
| "firstDuplicate _ = None"

text \<open>The end of \<open>discover\<close>: no stack at all and two stacks of one name are errors.\<close>

definition finishStacks :: "string \<Rightarrow> Stack list \<Rightarrow> err + Stack list" where
  "finishStacks composeDir stacks =
     (if stacks = []
      then Inl (Wrap [] (Leaf ErrNoStacks ''no compose stacks found'')
             ('' in '' @ composeDir @ '' (or its immediate subdirectories)''))
      else let stacks' = sort_key k_ProjectName stacks
           in case firstDuplicate stacks' of
                Some (a, b) \<Rightarrow> Inl (errorf (''directories '' @ k_Dir a @ '' and '' @ k_Dir b
                  @ '' both map to compose project '' @ Quote (k_ProjectName b) @ '': rename one so the names differ''))
              | None \<Rightarrow> Inr stacks')"

definition discover :: "'w Host \<Rightarrow> string \<Rightarrow> string \<Rightarrow> ('w, err + Stack list) state" where
  "discover host composeDir base = do {
     r \<leftarrow> ReadDir host composeDir;
     case r of
       Inl e \<Rightarrow>
         if errIs e ErrNotExist
         then ret (Inl (wrapf (''compose_dir '' @ composeDir @ '' does not exist: '') e))
         else ret (Inl (wrapf (''reading compose_dir '' @ composeDir @ '': '') e))
     | Inr entries \<Rightarrow> do {
         r1 \<leftarrow> composeFilesIn host composeDir entries;
         case r1 of
           Inl e \<Rightarrow> ret (Inl e)
         | Inr (rootFiles, rootWorkloads) \<Rightarrow> do {
             let root = (if rootFiles \<noteq> [] \<and> rootWorkloads
                         then [\<lparr>k_ProjectName = base, k_Dir = composeDir, k_Files = rootFiles\<rparr>] else []);
             r2 \<leftarrow> discoverSubs host composeDir base entries;
             case r2 of
               Inl e \<Rightarrow> ret (Inl e)
             | Inr subs \<Rightarrow> ret (finishStacks composeDir (root @ subs))
           }
       }
   }"

section \<open>The cached entry point\<close>

text \<open>The bytes \<open>hashComposeFiles\<close> feeds to the hash, and the fingerprint of a directory.\<close>

fun hashComposeFiles :: "'w Host \<Rightarrow> string \<Rightarrow> DirEntry list \<Rightarrow> ('w, err + string) state" where
  "hashComposeFiles host dir [] = ret (Inr [])"
| "hashComposeFiles host dir (e # es) = do {
     cand \<leftarrow> isComposeCandidate host dir e;
     if \<not> cand then hashComposeFiles host dir es
     else do {
       r \<leftarrow> ReadFile host (JoinPath dir (e_Name e));
       case r of
         Inl x \<Rightarrow> ret (Inl x)
       | Inr data \<Rightarrow> do {
           r' \<leftarrow> hashComposeFiles host dir es;
           ret (case r' of
              Inl x \<Rightarrow> Inl x
            | Inr h \<Rightarrow> Inr (''f'' @ [CHR 0x00] @ e_Name e @ [CHR 0x00] @ itoa (int (length data)) @ [CHR 0x00] @ data @ h))
         }
     }
   }"

fun hashSubDirs :: "'w Host \<Rightarrow> string \<Rightarrow> DirEntry list \<Rightarrow> ('w, err + string) state" where
  "hashSubDirs host composeDir [] = ret (Inr [])"
| "hashSubDirs host composeDir (e # es) = do {
     s \<leftarrow> subDirOf host composeDir e;
     case s of
       None \<Rightarrow> hashSubDirs host composeDir es
     | Some subDir \<Rightarrow> do {
         r \<leftarrow> ReadDir host subDir;
         case r of
           Inl x \<Rightarrow> ret (Inl x)
         | Inr subEntries \<Rightarrow> do {
             r2 \<leftarrow> hashComposeFiles host subDir subEntries;
             case r2 of
               Inl x \<Rightarrow> ret (Inl x)
             | Inr h2 \<Rightarrow> do {
                 r3 \<leftarrow> hashSubDirs host composeDir es;
                 ret (case r3 of
                    Inl x \<Rightarrow> Inl x
                  | Inr h3 \<Rightarrow> Inr (''d'' @ [CHR 0x00] @ subDir @ [CHR 0x00] @ h2 @ h3))
               }
           }
       }
   }"

definition fingerprint :: "'w Host \<Rightarrow> string \<Rightarrow> ('w, err + string) state" where
  "fingerprint host composeDir = do {
     r \<leftarrow> ReadDir host composeDir;
     case r of
       Inl e \<Rightarrow> ret (Inl e)
     | Inr entries \<Rightarrow> do {
         r1 \<leftarrow> hashComposeFiles host composeDir entries;
         case r1 of
           Inl e \<Rightarrow> ret (Inl e)
         | Inr h1 \<Rightarrow> do {
             r2 \<leftarrow> hashSubDirs host composeDir entries;
             ret (case r2 of Inl e \<Rightarrow> Inl e | Inr h2 \<Rightarrow> Inr (sha256 host (h1 @ h2)))
           }
       }
   }"

definition Discover :: "'w Host \<Rightarrow> string \<Rightarrow> string \<Rightarrow> ('w, err + Stack list) state" where
  "Discover host composeDir base = do {
     let key = composeDir @ [CHR 0x00] @ base;
     fp \<leftarrow> fingerprint host composeDir;
     cached \<leftarrow> (case fp of
        Inl _ \<Rightarrow> ret None
      | Inr f \<Rightarrow> do {
          c \<leftarrow> cacheGet host;
          ret (if dc_key c = key \<and> dc_fingerprint c = f then Some (dc_stacks c) else None)
        });
     case cached of
       Some stacks \<Rightarrow> ret (Inr stacks)
     | None \<Rightarrow> do {
         r \<leftarrow> discover host composeDir base;
         _ \<leftarrow> (case (fp, r) of
            (Inr f, Inr stacks) \<Rightarrow> cachePut host \<lparr>dc_key = key, dc_fingerprint = f, dc_stacks = stacks\<rparr>
          | _ \<Rightarrow> ret ());
         ret r
       }
   }"

section \<open>Lemmas\<close>

lemma firstDuplicate_None:
  "sorted (map k_ProjectName ss) \<Longrightarrow> firstDuplicate ss = None \<Longrightarrow> distinct (map k_ProjectName ss)"
proof (induction ss rule: firstDuplicate.induct)
  case (1 a b rest)
  then have "k_ProjectName a < k_ProjectName b" by (auto split: if_splits)
  moreover have "\<forall>s \<in> set rest. k_ProjectName b \<le> k_ProjectName s" using "1.prems" by auto
  ultimately have "k_ProjectName a \<notin> set (map k_ProjectName (b # rest))" by fastforce
  with 1 show ?case by (auto split: if_splits)
qed auto

lemma finishStacks_Inr:
  assumes "finishStacks dir ss = Inr stacks"
  shows "stacks \<noteq> [] \<and> sorted (map k_ProjectName stacks) \<and> distinct (map k_ProjectName stacks)
     \<and> set stacks = set ss"
proof -
  from assms have ne: "ss \<noteq> []" and st: "stacks = sort_key k_ProjectName ss" and dup: "firstDuplicate stacks = None"
    by (auto simp: finishStacks_def Let_def split: if_splits option.splits)
  have sorted: "sorted (map k_ProjectName stacks)" by (simp add: st)
  moreover have "set stacks = set ss" by (simp add: st)
  ultimately show ?thesis using firstDuplicate_None [OF sorted dup] ne by auto
qed

lemma discover_Inr:
  assumes "run_state (discover host dir base) w = (Inr stacks, w')"
  shows "\<exists>ss. finishStacks dir ss = Inr stacks"
  using assms by (auto simp: discover_def Let_def split: prod.splits sum.splits if_splits)

lemma set_sanitize:
  "set (sanitizeProjectSuffix name) \<subseteq>
     {c. inRange (CHR ''a'') (CHR ''z'') c \<or> inRange (CHR ''0'') (CHR ''9'') c \<or> c = CHR ''_'' \<or> c = CHR ''-''}"
  by (auto simp: sanitizeProjectSuffix_def sanitizeRune_def split: list.splits if_splits)

lemma set_sortByMergeOrder [simp]: "set (sortByMergeOrder files) = set files"
  by (simp add: sortByMergeOrder_def)

lemma sortByMergeOrder_ranked:
  "sorted (map (\<lambda>f. mergeRank (BasePath f)) (sortByMergeOrder files))"
proof -
  have "sorted (map (\<lambda>f. (mergeRank (BasePath f), f)) (sortByMergeOrder files))"
    by (simp add: sortByMergeOrder_def)
  then show ?thesis
    by (auto simp: sorted_iff_nth_mono less_eq_prod_def) (metis (no_types) fst_conv leD leI nless_le)
qed

lemma keeps_isComposeCandidate [keeps_intros]:
  "(\<And>p. keeps I (StatIsDir host p)) \<Longrightarrow> keeps I (isComposeCandidate host d e)"
  unfolding isComposeCandidate_def entryIsDir_def by (intro keeps_intros)

lemma keeps_subDirOf [keeps_intros]:
  "(\<And>p. keeps I (StatIsDir host p)) \<Longrightarrow> keeps I (subDirOf host d e)"
  unfolding subDirOf_def entryIsDir_def by (intro keeps_intros)

text \<open>Discovery only reads, besides its cache.\<close>

lemma keeps_discover:
  assumes rd: "\<And>p. keeps I (ReadDir host p)" and rf: "\<And>p. keeps I (ReadFile host p)"
    and sd: "\<And>p. keeps I (StatIsDir host p)"
  shows "keeps I (discover host dir base)"
proof -
  note ops = keeps_intros rd rf sd
  have check: "keeps I (checkComposeFile host p)" for p
    unfolding checkComposeFile_def by (intro ops)
  have collect: "keeps I (collectFiles host p es)" for p es
    by (induction es) (auto intro!: ops check)
  have files: "keeps I (composeFilesIn host p es)" for p es
    unfolding composeFilesIn_def by (intro ops collect)
  have subs: "keeps I (discoverSubs host p b es)" for p b es
    by (induction es) (auto intro!: ops files)
  show ?thesis unfolding discover_def by (intro ops files subs)
qed

lemma keeps_fingerprint:
  assumes rd: "\<And>p. keeps I (ReadDir host p)" and rf: "\<And>p. keeps I (ReadFile host p)"
    and sd: "\<And>p. keeps I (StatIsDir host p)"
  shows "keeps I (fingerprint host dir)"
proof -
  note ops = keeps_intros rd rf sd
  have hash: "keeps I (hashComposeFiles host p es)" for p es
    by (induction es) (auto intro!: ops)
  have hashs: "keeps I (hashSubDirs host p es)" for p es
    by (induction es) (auto intro!: ops hash)
  show ?thesis unfolding fingerprint_def by (intro ops hash hashs)
qed

lemma keeps_Discover [keeps_intros]:
  assumes rd: "\<And>p. keeps I (ReadDir host p)" and rf: "\<And>p. keeps I (ReadFile host p)"
    and sd: "\<And>p. keeps I (StatIsDir host p)" and cg: "keeps I (cacheGet host)" and cp: "\<And>c. keeps I (cachePut host c)"
  shows "keeps I (Discover host dir base)"
  unfolding Discover_def by (intro keeps_intros keeps_discover keeps_fingerprint rd rf sd cg cp)

section \<open>Properties\<close>

text \<open>C38: discovery that succeeds returns at least one stack, and the stacks are sorted by project name
  with no two sharing one; two directories that map to the same project are an error, never a
  silent merge.\<close>

theorem discover_unique_projects:
  assumes "run_state (discover host dir base) w = (Inr stacks, w')"
  shows "stacks \<noteq> [] \<and> sorted (map k_ProjectName stacks) \<and> distinct (map k_ProjectName stacks)"
  using discover_Inr [OF assms] finishStacks_Inr by blast

text \<open>A small directory tree for the witness: two stacks below \<^verbatim>\<open>/d\<close>.\<close>

definition demoHost :: "unit Host" where
  "demoHost = \<lparr>
     ReadFile = (\<lambda>p. ret (Inr ''services'')),
     ReadDir = (\<lambda>p. ret (Inr (if p = ''/d''
        then [\<lparr>e_Name = ''web'', e_Symlink = False, e_Dir = True\<rparr>, \<lparr>e_Name = ''db'', e_Symlink = False, e_Dir = True\<rparr>]
        else [\<lparr>e_Name = ''compose.yml'', e_Symlink = False, e_Dir = False\<rparr>]))),
     StatIsDir = (\<lambda>p. ret (Inr False)),
     cacheGet = ret \<lparr>dc_key = [], dc_fingerprint = [], dc_stacks = []\<rparr>,
     cachePut = (\<lambda>c. ret ()),
     yamlDecode = (\<lambda>data. ([YMap [(data, YMap [(''app'', YNull)])]], None)),
     schemaValidate = (\<lambda>doc. None),
     sha256 = (\<lambda>data. data),
     Getwd = Some ''/''\<rparr>"

theorem discover_unique_projects_witness:
  "\<exists>stacks. run_state (discover demoHost ''/d'' ''p'') () = (Inr stacks, ()) \<and> distinct (map k_ProjectName stacks)
     \<and> map k_ProjectName stacks = [''p-db'', ''p-web'']"
proof -
  have run: "run_state (discover demoHost ''/d'' ''p'') () =
      (Inr [\<lparr>k_ProjectName = ''p-db'', k_Dir = ''/d/db'', k_Files = [''/d/db/compose.yml'']\<rparr>,
            \<lparr>k_ProjectName = ''p-web'', k_Dir = ''/d/web'', k_Files = [''/d/web/compose.yml'']\<rparr>], ())"
    by code_simp
  from discover_unique_projects [OF run] run show ?thesis by simp
qed

text \<open>The compose files of a stack are merged in rank order: base files before overrides, and no file
  is lost or added by the ordering.\<close>

theorem merge_order_ranked:
  "sorted (map (\<lambda>f. mergeRank (BasePath f)) (sortByMergeOrder files)) \<and> set (sortByMergeOrder files) = set files"
  using sortByMergeOrder_ranked by simp

end
