(* ===== verification/Inputs.thy ===== *)
theory Inputs
  imports Discover
begin

text \<open>
  The input set of a project: \<^verbatim>\<open>internal/compose/inputs.go\<close>. \<open>ProjectInputs\<close> collects every path whose
  change can change what a project deploys, and says whether the set is complete. The walker
  follows \<^verbatim>\<open>include\<close> and \<^verbatim>\<open>extends\<close> through files on disk; its recursion depth is bounded by
  \<open>maxIncludeDepth\<close>, which \<open>visit\<close> recurses on.
\<close>

definition maxIncludeDepth :: nat where
  "maxIncludeDepth = 16"

definition isRemoteRef :: "string \<Rightarrow> bool" where
  "isRemoteRef p \<longleftrightarrow> Contains p ''://'' \<or> HasPrefix p ''git@''"

definition resolveInput :: "string \<Rightarrow> string \<Rightarrow> string option" where
  "resolveInput baseDir p =
     (if p = [] \<or> Contains p ''$'' \<or> isRemoteRef p then None
      else if \<not> IsAbs p then (if baseDir = [] then None else Some (Clean (JoinPath baseDir p)))
      else Some (Clean p))"

fun stringElems :: "yaml list \<Rightarrow> string list option" where
  "stringElems [] = Some []"
| "stringElems (YStr s # ys) = map_option (\<lambda>r. s # r) (stringElems ys)"
| "stringElems (_ # ys) = None"

text \<open>A node is \<^const>\<open>None\<close> when the key is absent; an explicit null is the same \<^verbatim>\<open>nil\<close>.\<close>

fun stringList :: "yaml option \<Rightarrow> string list option" where
  "stringList None = Some []"
| "stringList (Some YNull) = Some []"
| "stringList (Some (YStr v)) = Some [v]"
| "stringList (Some (YSeq v)) = stringElems v"
| "stringList (Some _) = None"

fun optionalString :: "yaml option \<Rightarrow> string option" where
  "optionalString None = Some []"
| "optionalString (Some YNull) = Some []"
| "optionalString (Some (YStr v)) = Some v"
| "optionalString (Some _) = None"

section \<open>Declared paths\<close>

text \<open>The accumulator of \<open>declaredPaths\<close>: the paths so far and \<^verbatim>\<open>complete\<close>.\<close>

type_synonym acc = "string list \<times> bool"

definition addPath :: "string \<Rightarrow> string \<Rightarrow> acc \<Rightarrow> acc" where
  "addPath base p a =
     (if p = [] \<or> isRemoteRef p then a
      else case resolveInput base p of
        None \<Rightarrow> (fst a, False)
      | Some f \<Rightarrow> (fst a @ [f], snd a))"

definition buildContextDir :: "string \<Rightarrow> string \<Rightarrow> string option" where
  "buildContextDir workingDir context =
     (if context = [] then (if workingDir = [] then None else Some workingDir)
      else resolveInput workingDir context)"

definition addBuild :: "string \<Rightarrow> Build \<Rightarrow> acc \<Rightarrow> acc" where
  "addBuild dir b a =
     (let a1 = addPath dir (b_Context b) a;
          a2 = (if isRemoteRef (b_Context b) then a1
                else case buildContextDir dir (b_Context b) of
                  Some ctx \<Rightarrow> addPath ctx (b_Dockerfile b) a1
                | None \<Rightarrow> if b_Dockerfile b \<noteq> [] then (fst a1, False) else a1)
      in fold (addPath dir) (b_AdditionalContexts b) a2)"

definition addService :: "string \<Rightarrow> Service \<Rightarrow> acc \<Rightarrow> acc" where
  "addService dir svc a =
     (let a1 = fold (\<lambda>ef. addPath dir (ef_Path ef)) (svc_EnvFiles svc) a;
          a2 = (case svc_Extends svc of None \<Rightarrow> a1 | Some file \<Rightarrow> addPath dir file a1)
      in case svc_Build svc of None \<Rightarrow> a2 | Some b \<Rightarrow> addBuild dir b a2)"

definition declaredPaths :: "Project \<Rightarrow> acc" where
  "declaredPaths project =
     (let dir = p_WorkingDir project;
          a0 = (case resolveInput dir ''.env'' of Some f \<Rightarrow> ([f], True) | None \<Rightarrow> ([], True));
          a1 = fold (\<lambda>name a. case mapLookup (p_Services project) name of
                       None \<Rightarrow> a | Some svc \<Rightarrow> addService dir svc a)
                 (sortedKeys (p_Services project)) a0;
          a2 = fold (addPath dir) (p_Configs project) a1
      in fold (addPath dir) (p_Secrets project) a2)"

section \<open>The walker\<close>

record inputWalker =
  w_paths :: "string list"
  w_seen :: "string list"
  w_complete :: bool

definition incomplete :: "inputWalker \<Rightarrow> inputWalker" where
  "incomplete w = w\<lparr>w_complete := False\<rparr>"

definition addWalked :: "string \<Rightarrow> inputWalker \<Rightarrow> inputWalker" where
  "addWalked p w = w\<lparr>w_paths := w_paths w @ [p]\<rparr>"

text \<open>
  The visits an include or an extends makes go through \<open>vis ref refBase contentsDir\<close>, the visit one
  level deeper.
\<close>

type_synonym 'w visitor = "string \<Rightarrow> string \<Rightarrow> string \<Rightarrow> inputWalker \<Rightarrow> ('w, inputWalker) state"

definition walkInclude :: "'w visitor \<Rightarrow> string list \<Rightarrow> string \<Rightarrow> string list \<Rightarrow> string \<Rightarrow> inputWalker \<Rightarrow> ('w, inputWalker) state" where
  "walkInclude vis paths projectDir envFiles baseDir w =
     (case paths of
        [] \<Rightarrow> ret (incomplete w)
      | p0 # _ \<Rightarrow>
          let includeDir = (if projectDir \<noteq> [] then resolveInput baseDir projectDir
                            else Some (case resolveInput baseDir p0 of Some f \<Rightarrow> DirPath f | None \<Rightarrow> []))
          in (case includeDir of
                None \<Rightarrow> ret (incomplete w)
              | Some includeDir \<Rightarrow>
                  let w1 = fold (\<lambda>f w. case resolveInput baseDir f of
                                  None \<Rightarrow> incomplete w | Some q \<Rightarrow> addWalked q w) envFiles w;
                      w2 = (if envFiles = [] \<and> includeDir \<noteq> []
                            then (case resolveInput includeDir ''.env'' of Some q \<Rightarrow> addWalked q w1 | None \<Rightarrow> w1)
                            else w1)
                  in foldM (\<lambda>p. vis p baseDir includeDir) paths w2))"

definition walkIncludeEntry :: "'w visitor \<Rightarrow> string \<Rightarrow> yaml \<Rightarrow> inputWalker \<Rightarrow> ('w, inputWalker) state" where
  "walkIncludeEntry vis baseDir entry w =
     (case entry of
        YStr e \<Rightarrow> walkInclude vis [e] [] [] baseDir w
      | YMap e \<Rightarrow>
          (case (stringList (mapLookup e ''path''), optionalString (mapLookup e ''project_directory''),
                 stringList (mapLookup e ''env_file'')) of
             (Some paths, Some projectDir, Some envFiles) \<Rightarrow> walkInclude vis paths projectDir envFiles baseDir w
           | _ \<Rightarrow> ret (incomplete w))
      | _ \<Rightarrow> ret (incomplete w))"

definition walkIncludes :: "'w visitor \<Rightarrow> yaml option \<Rightarrow> string \<Rightarrow> inputWalker \<Rightarrow> ('w, inputWalker) state" where
  "walkIncludes vis node baseDir w =
     (case node of
        None \<Rightarrow> ret w
      | Some YNull \<Rightarrow> ret w
      | Some (YSeq entries) \<Rightarrow> foldM (walkIncludeEntry vis baseDir) entries w
      | Some _ \<Rightarrow> ret (incomplete w))"

definition walkExtendsOf :: "'w visitor \<Rightarrow> string \<Rightarrow> yaml option \<Rightarrow> inputWalker \<Rightarrow> ('w, inputWalker) state" where
  "walkExtendsOf vis baseDir svc w =
     (case svc of
        Some (YMap svc) \<Rightarrow>
          (case mapLookup svc ''extends'' of
             Some (YMap extends) \<Rightarrow>
               (case optionalString (mapLookup extends ''file'') of
                  None \<Rightarrow> ret (incomplete w)
                | Some file \<Rightarrow>
                    if file = [] then ret w
                    else case resolveInput baseDir file of
                      Some f \<Rightarrow> vis f baseDir (DirPath f) w
                    | None \<Rightarrow> ret (incomplete w))
           | _ \<Rightarrow> ret w)
      | _ \<Rightarrow> ret w)"

definition walkExtends :: "'w visitor \<Rightarrow> yaml option \<Rightarrow> string \<Rightarrow> inputWalker \<Rightarrow> ('w, inputWalker) state" where
  "walkExtends vis node baseDir w =
     (case node of
        None \<Rightarrow> ret w
      | Some YNull \<Rightarrow> ret w
      | Some (YMap services) \<Rightarrow>
          foldM (\<lambda>name. walkExtendsOf vis baseDir (mapLookup services name)) (sortedKeys services) w
      | Some _ \<Rightarrow> ret (incomplete w))"

text \<open>
  One visit. \<open>deeper\<close> is the visit of the next level, \<^const>\<open>None\<close> at the depth limit.
\<close>

definition visitStep :: "'w Host \<Rightarrow> 'w visitor option \<Rightarrow> 'w visitor" where
  "visitStep host deeper ref refBase contentsDir w =
     (if isRemoteRef ref then ret w
      else case resolveInput refBase ref of
        None \<Rightarrow> ret (incomplete w)
      | Some f \<Rightarrow>
          if f \<in> set (w_seen w) then ret w
          else let w1 = addWalked f (w\<lparr>w_seen := f # w_seen w\<rparr>)
               in case deeper of
                    None \<Rightarrow> ret (incomplete w1)
                  | Some vis \<Rightarrow> do {
                      r \<leftarrow> ReadFile host f;
                      case r of
                        Inl _ \<Rightarrow> ret (incomplete w1)
                      | Inr data \<Rightarrow>
                          (case yamlMappings host data of
                             Inr (doc # _) \<Rightarrow> do {
                               w2 \<leftarrow> walkIncludes vis (mapLookup doc ''include'') contentsDir w1;
                               walkExtends vis (mapLookup doc ''services'') contentsDir w2
                             }
                           | _ \<Rightarrow> ret (incomplete w1))
                    })"

text \<open>\<open>visit n\<close> is the visit at depth \<open>maxIncludeDepth - n\<close>.\<close>

primrec visit :: "'w Host \<Rightarrow> nat \<Rightarrow> 'w visitor" where
  "visit host 0 = visitStep host None"
| "visit host (Suc n) = visitStep host (Some (visit host n))"

definition ProjectInputs :: "'w Host \<Rightarrow> Project \<Rightarrow> ('w, string list \<times> bool) state" where
  "ProjectInputs host project = do {
     w \<leftarrow> foldM (\<lambda>f. visit host maxIncludeDepth f (p_WorkingDir project) (p_WorkingDir project))
            (p_ComposeFiles project) \<lparr>w_paths = [], w_seen = [], w_complete = True\<rparr>;
     (case declaredPaths project of (declared, declaredComplete) \<Rightarrow>
        ret (remdups_adj (sort (w_paths w @ declared)), w_complete w \<and> declaredComplete))
   }"

section \<open>Lemmas\<close>

text \<open>The walker only reads files.\<close>

lemma keeps_walkInclude [keeps_intros]:
  assumes "\<And>r b d w. keeps I (vis r b d w)"
  shows "keeps I (walkInclude vis paths pd ef base w)"
  unfolding walkInclude_def by (intro keeps_intros assms)

lemma keeps_walkIncludes [keeps_intros]:
  assumes "\<And>r b d w. keeps I (vis r b d w)"
  shows "keeps I (walkIncludes vis node base w)"
  unfolding walkIncludes_def walkIncludeEntry_def
  by (auto intro!: keeps_intros assms split: option.split yaml.split prod.split)

lemma keeps_walkExtends [keeps_intros]:
  assumes "\<And>r b d w. keeps I (vis r b d w)"
  shows "keeps I (walkExtends vis node base w)"
  unfolding walkExtends_def walkExtendsOf_def
  by (auto intro!: keeps_intros assms split: option.split yaml.split)

lemma keeps_visit [keeps_intros]:
  assumes "\<And>p. keeps I (ReadFile host p)"
  shows "keeps I (visit host n ref base dir w)"
proof (induction n arbitrary: ref base dir w)
  case 0
  show ?case by (auto simp: visitStep_def intro!: keeps_intros split: option.split)
next
  case (Suc n)
  then show ?case
    by (auto simp: visitStep_def intro!: keeps_intros assms split: option.split sum.split list.split)
qed

lemma keeps_ProjectInputs [keeps_intros]:
  assumes "\<And>p. keeps I (ReadFile host p)"
  shows "keeps I (ProjectInputs host project)"
  unfolding ProjectInputs_def by (intro keeps_intros assms)

end
