(* ===== verification/Deps.thy ===== *)
theory Deps
  imports StateFile Health GitSync Config Notify Discover Inputs
begin

text \<open>
  The dependencies of a reconcile run: \<^verbatim>\<open>Deps\<close>, \<^verbatim>\<open>Options\<close>, \<^verbatim>\<open>Result\<close> and the interfaces of
  \<^verbatim>\<open>internal/reconcile/reconcile.go\<close>. \<open>Deps\<close> is a record of operations over an abstract world: the
  compose service, the snapshotter, the clock, the state store, the lock, the notifier and the
  heartbeat are interfaces of the code; besides them it holds what the code takes from the runtime:
  contexts, wall-clock time, the process-wide mutex and activity counter, and the order in which
  goroutines run. \<open>traced\<close> turns any dependencies into ones that log their effects: the theorems on
  runs are about the logs.
\<close>

record RunOptions =
  op_DryRun :: bool
  op_Force :: bool
  op_Trigger :: string

record RunResult =
  rs_Changed :: bool
  rs_Skipped :: bool
  rs_SkipReason :: string
  rs_Applied :: bool
  rs_Reverted :: bool
  rs_Degraded :: bool
  rs_OldCommit :: string
  rs_NewCommit :: string
  rs_RolledBackTo :: string
  rs_Services :: "string list"
  rs_Updated :: "string list"
  rs_Restarted :: "string list"
  rs_Stacks :: "string list"
  rs_ChangedFiles :: "string list"
  rs_HealthWatch :: duration
  rs_Duration :: duration
  rs_Err :: "err option"
  rs_Notification :: "Embed option"
  rs_NotificationKey :: string

definition emptyResult :: RunResult where
  "emptyResult = \<lparr>rs_Changed = False, rs_Skipped = False, rs_SkipReason = [], rs_Applied = False,
     rs_Reverted = False, rs_Degraded = False, rs_OldCommit = [], rs_NewCommit = [], rs_RolledBackTo = [],
     rs_Services = [], rs_Updated = [], rs_Restarted = [], rs_Stacks = [], rs_ChangedFiles = [],
     rs_HealthWatch = 0, rs_Duration = 0, rs_Err = None, rs_Notification = None, rs_NotificationKey = []\<rparr>"

text \<open>
  \<open>Lock\<close> is \<^const>\<open>None\<close> when the code's \<^verbatim>\<open>Locker\<close> is nil. \<open>FlightTry\<close> and \<open>FlightUnlock\<close> are the mutex that
  \<^verbatim>\<open>singleFlight\<close> returns for the configured state file, \<open>ActivityAdd\<close> and \<open>ActivityLoad\<close> its counter.
  \<open>ZoneOffset\<close> is the offset from UTC of the clock's location at an instant. \<open>Schedule n\<close> proposes the
  order in which \<open>n\<close> goroutines take effect, and \<open>Admit\<close> says whether the next watch gets a slot
  before its context ends.
\<close>

record 'w Deps =
  Cfg :: Config
  Git :: "'w Syncer"
  LoadProject :: "ctx \<Rightarrow> string list \<Rightarrow> string \<Rightarrow> ('w, err + Project) state"
  Pull :: "ctx \<Rightarrow> Project \<Rightarrow> ('w, err option) state"
  Up :: "ctx \<Rightarrow> Project \<Rightarrow> ('w, err option) state"
  Down :: "ctx \<Rightarrow> string \<Rightarrow> ('w, err option) state"
  TakeSnapshot :: "'w Snapshotter"
  Clk :: "'w Clock"
  StoreLoad :: "('w, err + State) state"
  StoreSave :: "State \<Rightarrow> ('w, err option) state"
  NotifierEnabled :: bool
  NotifierSendThrottled :: "ctx \<Rightarrow> string \<Rightarrow> Embed \<Rightarrow> ('w, bool) state"
  HeartbeatPing :: "ctx \<Rightarrow> ('w, unit) state"
  Lock :: "(('w, err + bool) state \<times> ('w, err option) state) option"
  FlightTry :: "('w, bool) state"
  FlightUnlock :: "('w, unit) state"
  ActivityAdd :: "('w, unit) state"
  ActivityLoad :: "('w, nat) state"
  CtxErr :: "'w CtxErr"
  SleepCtx :: "ctx \<Rightarrow> duration \<Rightarrow> ('w, bool) state"
  TimeNow :: "('w, time) state"
  ZoneOffset :: "time \<Rightarrow> duration"
  ParseURL :: "string \<Rightarrow> ParsedURL option"
  HostOS :: "'w Host"
  Schedule :: "nat \<Rightarrow> ('w, nat list) state"
  Admit :: "ctx \<Rightarrow> ('w, bool) state"

definition ClockNow :: "'w Deps \<Rightarrow> ('w, time) state" where
  "ClockNow d = Now (Clk d)"

text \<open>\<^verbatim>\<open>time.Since(start)\<close>.\<close>

definition since :: "'w Deps \<Rightarrow> time \<Rightarrow> ('w, duration) state" where
  "since d start = do { now \<leftarrow> TimeNow d; ret (timeSub now start) }"

text \<open>\<^verbatim>\<open>ctx.Err() != nil\<close>.\<close>

definition ended :: "'w Deps \<Rightarrow> ctx \<Rightarrow> ('w, bool) state" where
  "ended d c = do { e \<leftarrow> CtxErr d c; ret (e \<noteq> None) }"

text \<open>Any proposal made into an order of all \<open>n\<close> goroutines.\<close>

definition completeOrder :: "nat \<Rightarrow> nat list \<Rightarrow> nat list" where
  "completeOrder n xs = (let ys = remdups (filter (\<lambda>i. i < n) xs)
     in ys @ filter (\<lambda>i. i \<notin> set ys) [0..<n])"

lemma set_completeOrder [simp]: "set (completeOrder n xs) = {0..<n}"
  by (auto simp: completeOrder_def Let_def)

lemma distinct_completeOrder [simp]: "distinct (completeOrder n xs)"
  by (auto simp: completeOrder_def Let_def)

section \<open>Traced dependencies\<close>

datatype event =
    EvGit "string list"
  | EvPull
  | EvUp
  | EvDown string
  | EvSave State bool
  | EvLock bool
  | EvUnlock
  | EvFlight bool
  | EvFlightUnlock
  | EvActivity
  | EvActivityLoad nat
  | EvSnapshot string
  | EvSend string
  | EvPing

text \<open>Running an operation in the world with a log, and logging an event after it.\<close>

definition quiet :: "('w, 'a) state \<Rightarrow> (event list \<times> 'w, 'a) state" where
  "quiet m = State (\<lambda>(es, w). case run_state m w of (a, w') \<Rightarrow> (a, (es, w')))"

definition logged :: "('a \<Rightarrow> event) \<Rightarrow> ('w, 'a) state \<Rightarrow> (event list \<times> 'w, 'a) state" where
  "logged ev m = State (\<lambda>(es, w). case run_state m w of (a, w') \<Rightarrow> (a, (es @ [ev a], w')))"

definition tracedHost :: "'w Host \<Rightarrow> (event list \<times> 'w) Host" where
  "tracedHost h = \<lparr>
     ReadFile = (\<lambda>p. quiet (ReadFile h p)),
     ReadDir = (\<lambda>p. quiet (ReadDir h p)),
     StatIsDir = (\<lambda>p. quiet (StatIsDir h p)),
     cacheGet = quiet (cacheGet h),
     cachePut = (\<lambda>c. quiet (cachePut h c)),
     yamlDecode = yamlDecode h,
     schemaValidate = schemaValidate h,
     sha256 = sha256 h,
     Getwd = Getwd h\<rparr>"

definition tracedGit :: "'w Syncer \<Rightarrow> (event list \<times> 'w) Syncer" where
  "tracedGit s = \<lparr>
     Run = (\<lambda>c dir env name args. logged (\<lambda>_. EvGit args) (Run s c dir env name args)),
     RepoPath = RepoPath s, Remote = Remote s, Branch = Branch s, SSHKey = SSHKey s\<rparr>"

definition traced :: "'w Deps \<Rightarrow> (event list \<times> 'w) Deps" where
  "traced d = \<lparr>
     Cfg = Cfg d,
     Git = tracedGit (Git d),
     LoadProject = (\<lambda>c fs n. quiet (LoadProject d c fs n)),
     Pull = (\<lambda>c p. logged (\<lambda>_. EvPull) (Pull d c p)),
     Up = (\<lambda>c p. logged (\<lambda>_. EvUp) (Up d c p)),
     Down = (\<lambda>c n. logged (\<lambda>_. EvDown n) (Down d c n)),
     TakeSnapshot = (\<lambda>c n. logged (\<lambda>_. EvSnapshot n) (TakeSnapshot d c n)),
     Clk = \<lparr>Now = quiet (Now (Clk d)), Sleep = (\<lambda>c t. quiet (Sleep (Clk d) c t))\<rparr>,
     StoreLoad = quiet (StoreLoad d),
     StoreSave = (\<lambda>st. logged (\<lambda>r. EvSave st (r = None)) (StoreSave d st)),
     NotifierEnabled = NotifierEnabled d,
     NotifierSendThrottled = (\<lambda>c k e. logged (\<lambda>_. EvSend k) (NotifierSendThrottled d c k e)),
     HeartbeatPing = (\<lambda>c. logged (\<lambda>_. EvPing) (HeartbeatPing d c)),
     Lock = map_option (\<lambda>(try, un). (logged (\<lambda>r. EvLock (r = Inr True)) try, logged (\<lambda>_. EvUnlock) un)) (Lock d),
     FlightTry = logged EvFlight (FlightTry d),
     FlightUnlock = logged (\<lambda>_. EvFlightUnlock) (FlightUnlock d),
     ActivityAdd = logged (\<lambda>_. EvActivity) (ActivityAdd d),
     ActivityLoad = logged EvActivityLoad (ActivityLoad d),
     CtxErr = (\<lambda>c. quiet (CtxErr d c)),
     SleepCtx = (\<lambda>c t. quiet (SleepCtx d c t)),
     TimeNow = quiet (TimeNow d),
     ZoneOffset = ZoneOffset d,
     ParseURL = ParseURL d,
     HostOS = tracedHost (HostOS d),
     Schedule = (\<lambda>n. quiet (Schedule d n)),
     Admit = (\<lambda>c. quiet (Admit d c))\<rparr>"

lemma keeps_quiet: "keeps (\<lambda>(es, w). P es) (quiet m)"
  by (auto simp: keeps_def quiet_def split: prod.splits)

lemma keeps_logged: "(\<And>es a. P es \<Longrightarrow> P (es @ [ev a])) \<Longrightarrow> keeps (\<lambda>(es, w). P es) (logged ev m)"
  by (auto simp: keeps_def logged_def split: prod.splits)

lemma Cfg_traced [simp]: "Cfg (traced d) = Cfg d"
  by (simp add: traced_def)

end
