(* ===== verification/ReconcileBase.thy ===== *)
theory ReconcileBase
  imports Deps
begin

text \<open>
  The parts a reconcile run is put together from: the stacks of a checkout and which of them a
  change touches, tearing stacks down, the live evaluation behind the pre-flight gate, and the
  writers of the state file (\<^verbatim>\<open>internal/reconcile/reconcile.go\<close>), the concurrent health watch
  (\<^verbatim>\<open>watch.go\<close>), the relevance of a change (the last part of \<^verbatim>\<open>apply.go\<close>) and commit context
  (\<^verbatim>\<open>commitcontext.go\<close>). A function that takes \<^verbatim>\<open>st *state.State\<close> returns the state it leaves there.
\<close>

section \<open>Small helpers\<close>

definition teardownTimeout :: duration where "teardownTimeout = 2 * minute"
definition restoreCheckoutTimeout :: duration where "restoreCheckoutTimeout = 30 * second"
definition commitContextTimeout :: duration where "commitContextTimeout = 10 * second"
definition maxPreflightBlocks :: int where "maxPreflightBlocks = 3"
definition maxHistoryError :: nat where "maxHistoryError = 200"

definition SkipInFlight :: string where "SkipInFlight = ''reconcile already running in this process''"
definition SkipLocked :: string where "SkipLocked = ''another composelock process holds the state lock''"
definition SkipPreflightUnhealthy :: string where
  "SkipPreflightUnhealthy = ''pre-flight gate would block this commit: the live stack is unhealthy''"
definition SkipPaused :: string where "SkipPaused = ''deployments are paused''"
definition SkipOutsideWindow :: string where "SkipOutsideWindow = ''outside the deploy window''"

definition errDegraded :: err where
  "errDegraded = Leaf ErrDegraded ''system is DEGRADED; use --force to retry''"

definition healthOptions :: "Config \<Rightarrow> string \<Rightarrow> bool \<Rightarrow> WatchOptions" where
  "healthOptions cfg projectName expectContainers = \<lparr>
     ProjectName = projectName,
     WatchDuration = seconds (cfg_HealthWatchSeconds cfg),
     PollInterval = seconds (cfg_HealthPollIntervalSeconds cfg),
     UnhealthyStreakLimit = cfg_HealthUnhealthyStreak cfg,
     RestartTolerance = cfg_HealthRestartTolerance cfg,
     ExpectContainers = expectContainers\<rparr>"

definition shortCommit :: "string \<Rightarrow> string" where
  "shortCommit c = (if length c > 7 then take 7 c else c)"

definition resolve :: "'w Deps \<Rightarrow> string \<Rightarrow> string" where
  "resolve d p = resolveUnderRepo (Getwd (HostOS d)) (cfg_RepoPath (Cfg d)) p"

definition truncateError :: "string \<Rightarrow> string" where
  "truncateError msg = (if length msg \<le> maxHistoryError then msg
     else take (runeCut msg maxHistoryError) msg @ ''...'')"

section \<open>Stacks\<close>

definition StacksFor :: "'w Deps \<Rightarrow> ('w, err + Stack list) state" where
  "StacksFor d =
     (if cfg_ComposeDir (Cfg d) \<noteq> []
      then Discover (HostOS d) (resolve d (cfg_ComposeDir (Cfg d))) (cfg_ProjectName (Cfg d))
      else ret (Inr [\<lparr>k_ProjectName = cfg_ProjectName (Cfg d), k_Dir = [],
                      k_Files = [resolve d (cfg_ComposeFile (Cfg d))]\<rparr>]))"

definition stacksAllowingEmpty :: "'w Deps \<Rightarrow> ('w, err + Stack list) state" where
  "stacksAllowingEmpty d = do {
     r \<leftarrow> StacksFor d;
     ret (case r of Inl e \<Rightarrow> if errIs e ErrNoStacks then Inr [] else Inl e | Inr ss \<Rightarrow> Inr ss)
   }"

definition previousStacksAt :: "'w Deps \<Rightarrow> ('w, err + Stack list) state" where
  "previousStacksAt d = stacksAllowingEmpty d"

text \<open>The names not seen before, in order, each once.\<close>

fun unseen :: "string list \<Rightarrow> string list \<Rightarrow> string list" where
  "unseen seen [] = []"
| "unseen seen (n # ns) = (if n \<in> set seen then unseen seen ns else n # unseen (n # seen) ns)"

definition deployedStacks :: "State \<Rightarrow> Stack list \<Rightarrow> Stack list" where
  "deployedStacks st discovered =
     (if LastHealthyStacks st = [] then discovered
      else discovered @ map bareStack (unseen (map k_ProjectName discovered) (LastHealthyStacks st)))"

definition restrictToNames :: "Stack list \<Rightarrow> string list \<Rightarrow> Stack list" where
  "restrictToNames stacks names =
     (if names = [] then stacks
      else map (\<lambda>n. case map_of (rev (map (\<lambda>s. (k_ProjectName s, s)) stacks)) n of
                      Some s \<Rightarrow> s | None \<Rightarrow> bareStack n) names)"

definition stackNames :: "Stack list \<Rightarrow> string list" where
  "stackNames stacks = map k_ProjectName stacks"

definition reportStacks :: "Config \<Rightarrow> string list \<Rightarrow> string list" where
  "reportStacks cfg names = (if cfg_ComposeDir cfg = [] then [] else names)"

definition intersectByProjectName :: "Stack list \<Rightarrow> Stack list \<Rightarrow> Stack list" where
  "intersectByProjectName a b = filter (\<lambda>s. k_ProjectName s \<in> set (stackNames b)) a"

definition vanishedStacks :: "Stack list \<Rightarrow> Stack list \<Rightarrow> Stack list" where
  "vanishedStacks previous current = filter (\<lambda>s. k_ProjectName s \<notin> set (stackNames current)) previous"

section \<open>Which stacks a change touches\<close>

definition dependencyChanged :: "'w Deps \<Rightarrow> string list \<Rightarrow> string list \<Rightarrow> bool" where
  "dependencyChanged d inputs changedFiles =
     list_ex (\<lambda>f. list_ex (\<lambda>i. resolve d f = i \<or> pathUnder i (resolve d f)) inputs) changedFiles"

text \<open>The longest directory that contains a path; the empty string when none does.\<close>

definition bestDir :: "string list \<Rightarrow> string \<Rightarrow> string" where
  "bestDir dirs p = foldl (\<lambda>best dir. if pathUnder dir p \<and> length dir > length best then dir else best) [] dirs"

definition stackDirs :: "'w Deps \<Rightarrow> Stack list \<Rightarrow> string list" where
  "stackDirs d stacks = rev (remdups (rev (map (\<lambda>s. resolve d (k_Dir s)) (filter (\<lambda>s. k_Dir s \<noteq> []) stacks))))"

definition touchedStackDirs :: "'w Deps \<Rightarrow> Stack list \<Rightarrow> string list \<Rightarrow> string set" where
  "touchedStackDirs d stacks changedFiles =
     set (filter (\<lambda>b. b \<noteq> []) (map (\<lambda>f. bestDir (stackDirs d stacks) (resolve d f)) changedFiles))"

text \<open>\<open>None\<close> is "undetermined".\<close>

definition stackInputsMatch :: "'w Deps \<Rightarrow> ctx \<Rightarrow> Stack \<Rightarrow> string list \<Rightarrow> ('w, bool option) state" where
  "stackInputsMatch d c s changedFiles = do {
     r \<leftarrow> LoadProject d c (k_Files s) (k_ProjectName s);
     case r of
       Inl e \<Rightarrow> ret None
     | Inr project \<Rightarrow> do {
         p \<leftarrow> ProjectInputs (HostOS d) project;
         ret (Some (if \<not> snd p then True else dependencyChanged d (fst p) changedFiles))
       }
   }"

definition filterStep :: "'w Deps \<Rightarrow> ctx \<Rightarrow> string set \<Rightarrow> string list \<Rightarrow> Stack \<Rightarrow> Stack list \<times> bool \<Rightarrow> ('w, Stack list \<times> bool) state" where
  "filterStep d c touched changedFiles s acc =
     (if k_Dir s = [] \<or> resolve d (k_Dir s) \<in> touched then ret (fst acc @ [s], snd acc)
      else do {
        m \<leftarrow> stackInputsMatch d c s changedFiles;
        ret (case m of
           None \<Rightarrow> (fst acc, True)
         | Some match \<Rightarrow> (if match then fst acc @ [s] else fst acc, snd acc))
      })"

definition filterChanged ::
  "'w Deps \<Rightarrow> ctx \<Rightarrow> Stack list \<Rightarrow> Stack list \<Rightarrow> string list \<Rightarrow> ('w, Stack list \<times> bool) state" where
  "filterChanged d c stacks previous changedFiles =
     foldM (filterStep d c (touchedStackDirs d (stacks @ previous) changedFiles) changedFiles) stacks ([], False)"

section \<open>Whether a change is relevant at all\<close>

definition stackFilesChanged :: "'w Deps \<Rightarrow> string list \<Rightarrow> string list \<Rightarrow> bool" where
  "stackFilesChanged d fs changedFiles =
     list_ex (\<lambda>f. resolve d f \<in> set (map (resolve d) fs)) changedFiles"

definition composeFileChanged :: "'w Deps \<Rightarrow> string \<Rightarrow> string list \<Rightarrow> bool" where
  "composeFileChanged d composeFile changedFiles = stackFilesChanged d [composeFile] changedFiles"

definition composeDirRelevant :: "'w Deps \<Rightarrow> string \<Rightarrow> string list \<Rightarrow> bool" where
  "composeDirRelevant d composeDir changedFiles =
     list_ex (\<lambda>f. pathUnder (resolve d composeDir) (resolve d f)) changedFiles"

definition projectInputsRelevant :: "'w Deps \<Rightarrow> ctx \<Rightarrow> string list \<Rightarrow> string \<Rightarrow> string list \<Rightarrow> ('w, bool) state" where
  "projectInputsRelevant d c fs projectName changedFiles = do {
     r \<leftarrow> LoadProject d c fs projectName;
     case r of
       Inl e \<Rightarrow> ret True
     | Inr project \<Rightarrow> do {
         p \<leftarrow> ProjectInputs (HostOS d) project;
         ret (if \<not> snd p then True else dependencyChanged d (fst p) changedFiles)
       }
   }"

fun anyRelevant :: "'w Deps \<Rightarrow> ctx \<Rightarrow> string list \<Rightarrow> Stack list \<Rightarrow> ('w, bool) state" where
  "anyRelevant d c changedFiles [] = ret False"
| "anyRelevant d c changedFiles (s # ss) = do {
     b \<leftarrow> projectInputsRelevant d c (k_Files s) (k_ProjectName s) changedFiles;
     if b then ret True else anyRelevant d c changedFiles ss
   }"

definition composeDirInputsRelevant :: "'w Deps \<Rightarrow> ctx \<Rightarrow> string list \<Rightarrow> ('w, bool) state" where
  "composeDirInputsRelevant d c changedFiles = do {
     r \<leftarrow> stacksAllowingEmpty d;
     case r of
       Inl e \<Rightarrow> ret True
     | Inr stacks \<Rightarrow> anyRelevant d c changedFiles stacks
   }"

definition composeFileRelevant :: "'w Deps \<Rightarrow> ctx \<Rightarrow> string list \<Rightarrow> ('w, bool) state" where
  "composeFileRelevant d c changedFiles =
     (if composeFileChanged d (cfg_ComposeFile (Cfg d)) changedFiles then ret True
      else projectInputsRelevant d c [resolve d (cfg_ComposeFile (Cfg d))] (cfg_ProjectName (Cfg d)) changedFiles)"

definition relevantChange :: "'w Deps \<Rightarrow> ctx \<Rightarrow> string list \<Rightarrow> ('w, bool) state" where
  "relevantChange d c changedFiles =
     (if cfg_ComposeDir (Cfg d) \<noteq> []
      then (if composeDirRelevant d (cfg_ComposeDir (Cfg d)) changedFiles then ret True
            else composeDirInputsRelevant d c changedFiles)
      else composeFileRelevant d c changedFiles)"

section \<open>Tearing stacks down\<close>

definition listOrNone :: "string list \<Rightarrow> string" where
  "listOrNone names = (if names = [] then ''none'' else Join names '', '')"

definition downStack :: "'w Deps \<Rightarrow> ctx \<Rightarrow> string \<Rightarrow> ('w, err option) state" where
  "downStack d c projectName = Down d (WithTimeout c teardownTimeout) projectName"

text \<open>The goroutines in the order in which they take effect; their results by index.\<close>

definition downAll :: "'w Deps \<Rightarrow> ctx \<Rightarrow> Stack list \<Rightarrow> ('w, nat \<rightharpoonup> err) state" where
  "downAll d c stacks = do {
     order \<leftarrow> Schedule d (length stacks);
     foldM (\<lambda>i failures. do {
         r \<leftarrow> downStack d c (k_ProjectName (stacks ! i));
         ret (failures(i := r))
       }) (completeOrder (length stacks) order) Map.empty
   }"

definition teardownErrors :: "Stack list \<Rightarrow> (nat \<rightharpoonup> err) \<Rightarrow> err option" where
  "teardownErrors stacks failures =
     (let failed = filter (\<lambda>(i, s). failures i \<noteq> None) (enumerate 0 stacks);
          removed = map (k_ProjectName \<circ> snd) (filter (\<lambda>(i, s). failures i = None) (enumerate 0 stacks));
          remaining = map (k_ProjectName \<circ> snd) failed;
          errs = map (\<lambda>(i, s). map_option (wrapf (''tearing down '' @ k_ProjectName s @ '': '')) (failures i)) failed
      in if failed = [] then None
         else errJoin (errs @ [Some (errorf (''torn down: '' @ listOrNone removed @ ''; still running: '' @ listOrNone remaining))]))"

definition tearDownStacks :: "'w Deps \<Rightarrow> ctx \<Rightarrow> Stack list \<Rightarrow> ('w, err option) state" where
  "tearDownStacks d c stacks =
     (if stacks = [] then ret None
      else do {
        failures \<leftarrow> downAll d (WithoutCancel c) stacks;
        ret (teardownErrors stacks failures)
      })"

section \<open>The live stack\<close>

record liveState =
  lv_snapshots :: "string \<rightharpoonup> Snapshot"
  lv_healthy :: bool
  lv_reason :: string

fun evaluateNames :: "'w Deps \<Rightarrow> ctx \<Rightarrow> string list \<Rightarrow> (string \<rightharpoonup> Snapshot) \<Rightarrow> ('w, err + liveState) state" where
  "evaluateNames d c [] snaps = ret (Inr \<lparr>lv_snapshots = snaps, lv_healthy = True, lv_reason = []\<rparr>)"
| "evaluateNames d c (name # names) snaps = do {
     r \<leftarrow> TakeSnapshot d c name;
     case r of
       Inl e \<Rightarrow> ret (Inl (wrapf (''snapshot of '' @ name @ '': '') e))
     | Inr snap \<Rightarrow>
         (case EvaluatePreflight snap of
            (False, reason) \<Rightarrow> ret (Inr \<lparr>lv_snapshots = snaps(name \<mapsto> snap), lv_healthy = False,
                                       lv_reason = name @ '': '' @ reason\<rparr>)
          | (True, _) \<Rightarrow> evaluateNames d c names (snaps(name \<mapsto> snap)))
   }"

definition evaluateLive :: "'w Deps \<Rightarrow> ctx \<Rightarrow> Stack list \<Rightarrow> ('w, err + liveState) state" where
  "evaluateLive d c stacks =
     evaluateNames d c (if stackNames stacks = [] then [cfg_ProjectName (Cfg d)] else stackNames stacks) Map.empty"

definition snapshotOf :: "(string \<rightharpoonup> Snapshot) \<Rightarrow> string \<Rightarrow> Snapshot" where
  "snapshotOf m name = (case m name of None \<Rightarrow> emptySnapshot | Some s \<Rightarrow> s)"

text \<open>\<open>None\<close> is "not known".\<close>

definition updatedServices ::
  "Config \<Rightarrow> (string \<rightharpoonup> Snapshot) \<Rightarrow> (string \<rightharpoonup> Snapshot) \<Rightarrow> Stack list \<Rightarrow> (string list \<times> string list) option" where
  "updatedServices cfg before after stacks =
     (if cfg_HealthWatchSeconds cfg \<le> 0 then None
      else if list_ex (\<lambda>s. after (k_ProjectName s) = None) stacks then None
      else let diff = (\<lambda>f. remdups_adj (sort (concat (map (\<lambda>s.
                 f (snapshotOf before (k_ProjectName s)) (snapshotOf after (k_ProjectName s))) stacks))))
           in Some (diff ChangedServices, diff RestartedServices))"

section \<open>Writing the state\<close>

definition recordOutcome :: "'w Deps \<Rightarrow> State \<Rightarrow> StateResult \<Rightarrow> string \<Rightarrow> ('w, State) state" where
  "recordOutcome d st result commit = do {
     now \<leftarrow> ClockNow d;
     let next = st\<lparr>LastResult := result, LastAttemptAt := now\<rparr>;
     let next = (if commit \<noteq> [] then next\<lparr>LastAttemptCommit := commit\<rparr> else next);
     r \<leftarrow> StoreSave d next;
     ret (case r of Some e \<Rightarrow> st | None \<Rightarrow> next)
   }"

definition promoted :: "State \<Rightarrow> string \<Rightarrow> string list \<Rightarrow> time \<Rightarrow> State" where
  "promoted st commit stacks now =
     (ForgetAllFailed (st\<lparr>LastHealthyCommit := commit, LastHealthyAt := now, LastHealthyStacks := stacks,
        LastCheckoutCommit := commit, PendingCommit := [], PendingSince := zeroTime, PendingAttempts := 0,
        PendingStacks := [], PendingRevert := False, PreflightBlocks := 0\<rparr>))
       \<lparr>LastAttemptCommit := commit, LastAttemptAt := now, LastResult := ResultSuccess\<rparr>"

definition promoteHealthy :: "'w Deps \<Rightarrow> State \<Rightarrow> string \<Rightarrow> string list \<Rightarrow> ('w, err option \<times> State) state" where
  "promoteHealthy d st commit stacks = do {
     now \<leftarrow> ClockNow d;
     let next = promoted st commit stacks now;
     r \<leftarrow> StoreSave d next;
     ret (case r of Some e \<Rightarrow> (Some (wrapf ''saving state: '' e), st) | None \<Rightarrow> (None, next))
   }"

definition recordHistory :: "'w Deps \<Rightarrow> RunResult \<Rightarrow> time \<Rightarrow> ('w, unit) state" where
  "recordHistory d result runStart =
     (if \<not> rs_Applied result \<and> \<not> rs_Reverted result \<and> \<not> rs_Degraded result \<and> rs_Err result = None then ret ()
      else do {
        r \<leftarrow> StoreLoad d;
        case r of
          Inl e \<Rightarrow> ret ()
        | Inr st \<Rightarrow>
            if LastAttemptAt st < runStart \<or> LastResult st = ResultSkippedKnownBad then ret ()
            else do {
              let entry = \<lparr>d_At = LastAttemptAt st, d_Commit = rs_NewCommit result, d_Result = LastResult st,
                    d_RolledBackTo = rs_RolledBackTo result,
                    d_Error = (case rs_Err result of None \<Rightarrow> [] | Some e \<Rightarrow> truncateError (errText e)), d_Repeats = 0\<rparr>;
              _ \<leftarrow> StoreSave d (Record st entry);
              ret ()
            }
      })"

section \<open>The concurrent watch\<close>

record stackWatchOutcome =
  swo_stack :: Stack
  swo_result :: WatchResult
  swo_err :: "err option"

definition expectsContainers :: "Project list \<Rightarrow> nat \<Rightarrow> bool" where
  "expectsContainers projects i \<longleftrightarrow> i < length projects \<and> p_Services (projects ! i) \<noteq> []"

text \<open>
  One watch goroutine. \<open>cancelled\<close> says whether an unhealthy stack has cancelled the watch context
  before this watch ends; a watch that does not get a slot before that reports the context's error.
\<close>

definition watchOne ::
  "'w Deps \<Rightarrow> ctx \<Rightarrow> Stack list \<Rightarrow> Project list \<Rightarrow> nat \<Rightarrow> (nat \<rightharpoonup> stackWatchOutcome) \<times> bool \<Rightarrow>
     ('w, (nat \<rightharpoonup> stackWatchOutcome) \<times> bool) state" where
  "watchOne d c stacks projects i acc = do {
     let s = stacks ! i;
     let watchCtx = WithCancel c (snd acc);
     admitted \<leftarrow> Admit d watchCtx;
     if \<not> admitted then do {
       e \<leftarrow> CtxErr d watchCtx;
       ret ((fst acc)(i \<mapsto> \<lparr>swo_stack = s, swo_result = zeroResult, swo_err = e\<rparr>), snd acc)
     } else do {
       r \<leftarrow> Watch (CtxErr d) (TakeSnapshot d) (Clk d) watchCtx
             (healthOptions (Cfg d) (k_ProjectName s) (expectsContainers projects i));
       ret (case r of
          Inl e \<Rightarrow> ((fst acc)(i \<mapsto> \<lparr>swo_stack = s, swo_result = zeroResult, swo_err = Some e\<rparr>), snd acc)
        | Inr res \<Rightarrow> ((fst acc)(i \<mapsto> \<lparr>swo_stack = s, swo_result = res, swo_err = None\<rparr>),
                     snd acc \<or> w_Outcome res \<noteq> Healthy))
     }
   }"

definition watchAll :: "'w Deps \<Rightarrow> ctx \<Rightarrow> Stack list \<Rightarrow> Project list \<Rightarrow> ('w, stackWatchOutcome list) state" where
  "watchAll d c stacks projects = do {
     order \<leftarrow> Schedule d (length stacks);
     r \<leftarrow> foldM (watchOne d c stacks projects) (completeOrder (length stacks) order) (Map.empty, False);
     ret (map (\<lambda>i. case fst r i of Some o' \<Rightarrow> o'
            | None \<Rightarrow> \<lparr>swo_stack = stacks ! i, swo_result = zeroResult, swo_err = None\<rparr>) [0..<length stacks])
   }"

text \<open>The loop over the outcomes: the combined verdict, the baselines, the reasons, the stacks that were
  not evaluated.\<close>

record watchSummary =
  ws_combined :: WatchResult
  ws_baselines :: "string \<rightharpoonup> Snapshot"
  ws_reasons :: "string list"
  ws_notEvaluated :: "string list"

fun combineOutcomes ::
  "'w Deps \<Rightarrow> ctx \<Rightarrow> stackWatchOutcome list \<Rightarrow> watchSummary \<Rightarrow> ('w, err + watchSummary) state" where
  "combineOutcomes d c [] sm = ret (Inr sm)"
| "combineOutcomes d c (o' # os) sm =
     (let name = k_ProjectName (swo_stack o')
      in case swo_err o' of
           Some e \<Rightarrow> do {
             over \<leftarrow> ended d c;
             if \<not> over \<and> errIs e Canceled
             then combineOutcomes d c os (sm\<lparr>ws_notEvaluated := ws_notEvaluated sm @ [name]\<rparr>)
             else ret (Inl (wrapf (''stack '' @ name @ '': '') e))
           }
         | None \<Rightarrow>
             let sm' = sm\<lparr>ws_baselines := (ws_baselines sm)(name \<mapsto> w_Baseline (swo_result o'))\<rparr>
             in combineOutcomes d c os
                  (if w_Outcome (swo_result o') \<noteq> Healthy
                   then sm'\<lparr>ws_combined := (ws_combined sm')\<lparr>w_Outcome := Unhealthy,
                          w_Failures := w_Failures (ws_combined sm')
                            @ map (\<lambda>f. name @ '': '' @ f) (w_Failures (swo_result o'))\<rparr>,
                          ws_reasons := ws_reasons sm' @ [name @ '': '' @ w_Reason (swo_result o')]\<rparr>
                   else sm'))"

text \<open>What \<^verbatim>\<open>watchStacks\<close> does once every goroutine has ended.\<close>

definition joinOutcomes ::
  "'w Deps \<Rightarrow> ctx \<Rightarrow> stackWatchOutcome list \<Rightarrow> ('w, err + (WatchResult \<times> (string \<rightharpoonup> Snapshot))) state" where
  "joinOutcomes d c outcomes = do {
     r \<leftarrow> combineOutcomes d c outcomes \<lparr>ws_combined = zeroResult\<lparr>w_Outcome := Healthy\<rparr>, ws_baselines = Map.empty,
            ws_reasons = [], ws_notEvaluated = []\<rparr>;
     ret (case r of
        Inl e \<Rightarrow> Inl e
      | Inr sm \<Rightarrow>
          let reasons = ws_reasons sm @ (if ws_notEvaluated sm \<noteq> []
                then [''not evaluated, stopped early: '' @ Join (ws_notEvaluated sm) '', ''] else [])
          in Inr ((ws_combined sm)\<lparr>w_Reason := Join reasons ''; ''\<rparr>, ws_baselines sm))
   }"

definition watchStacks ::
  "'w Deps \<Rightarrow> ctx \<Rightarrow> Stack list \<Rightarrow> Project list \<Rightarrow> ('w, err + (WatchResult \<times> (string \<rightharpoonup> Snapshot))) state" where
  "watchStacks d c stacks projects =
     (if stacks = [] then ret (Inr (zeroResult\<lparr>w_Outcome := Healthy\<rparr>, Map.empty))
      else do {
        outcomes \<leftarrow> watchAll d c stacks projects;
        joinOutcomes d c outcomes
      })"
section \<open>Commit context of a notification\<close>

definition describeCommit :: "'w Deps \<Rightarrow> ctx \<Rightarrow> string \<Rightarrow> ('w, CommitInfo option) state" where
  "describeCommit d c commit = do {
     r \<leftarrow> Describe (Git d) c commit;
     ret (case r of Inl e \<Rightarrow> None
       | Inr (subject, author) \<Rightarrow> Some \<lparr>ci_ID = commit, ci_Subject = subject, ci_Author = author\<rparr>)
   }"

definition repoWebURL :: "'w Deps \<Rightarrow> ctx \<Rightarrow> ('w, string) state" where
  "repoWebURL d c =
     (if cfg_RepoURL (Cfg d) \<noteq> [] then ret (TrimSuffix (cfg_RepoURL (Cfg d)) ''/'')
      else do {
        r \<leftarrow> RemoteURL (Git d) c;
        ret (case r of Inl e \<Rightarrow> [] | Inr remote \<Rightarrow> WebURL (ParseURL d) remote)
      })"

definition addCommitContext :: "'w Deps \<Rightarrow> ctx \<Rightarrow> Embed \<Rightarrow> string \<Rightarrow> string \<Rightarrow> ('w, Embed) state" where
  "addCommitContext d c0 emb base rollback =
     (let commit = Embed_Commit emb; c = WithTimeout (WithoutCancel c0) commitContextTimeout
      in if commit = [] \<or> \<not> NotifierEnabled d then ret emb
         else do {
           r \<leftarrow> describeCommit d c commit;
           case r of
             None \<Rightarrow> ret emb
           | Some info \<Rightarrow> do {
               url \<leftarrow> repoWebURL d c;
               let cx = \<lparr>cx_RepoURL = url, cx_Commit = info, cx_Base = [], cx_Count = 0, cx_Rollback = None\<rparr>;
               cx' \<leftarrow> (if rollback \<noteq> [] \<and> rollback \<noteq> commit then do {
                        r2 \<leftarrow> describeCommit d c rollback;
                        ret (case r2 of None \<Rightarrow> cx | Some rb \<Rightarrow> cx\<lparr>cx_Rollback := Some rb, cx_Base := rollback\<rparr>)
                      }
                      else if base \<noteq> [] \<and> base \<noteq> commit then do {
                        n \<leftarrow> CountCommits (Git d) c base commit;
                        ret (case n of Inl e \<Rightarrow> cx\<lparr>cx_Base := base\<rparr> | Inr k \<Rightarrow> cx\<lparr>cx_Base := base, cx_Count := k\<rparr>)
                      }
                      else ret cx);
               ret (AddCommitContext emb cx')
             }
         })"

end
