(* ===== verification/Revert.thy ===== *)
theory Revert
  imports ReconcileBase
begin

text \<open>
  Rolling back: \<^verbatim>\<open>internal/reconcile/revert.go\<close>. \<open>doRevert\<close> checks out the last healthy commit, tears down
  stacks that do not exist there, brings the affected stacks up and watches them; it ends reverted,
  interrupted (to be resumed by the next run) or degraded. \<open>preflightRecovery\<close>, the empty commit,
  stands for a rollback that no commit caused.
\<close>

definition preflightRecovery :: string where
  "preflightRecovery = []"

definition degradedKey :: "string \<Rightarrow> string \<Rightarrow> string" where
  "degradedKey failedCommit target =
     (if failedCommit = preflightRecovery then ''degraded:preflight:'' @ target else ''degraded:'' @ failedCommit)"

definition reportedCommit :: "string \<Rightarrow> string \<Rightarrow> string" where
  "reportedCommit failedCommit target = (if failedCommit = preflightRecovery then target else failedCommit)"

definition degradedState :: "State \<Rightarrow> string \<Rightarrow> time \<Rightarrow> State" where
  "degradedState st failedCommit now =
     (let next = st\<lparr>LastResult := ResultDegraded, LastAttemptAt := now, PendingCommit := [], PendingSince := zeroTime,
        PendingAttempts := 0, PendingStacks := [], PendingRevert := False\<rparr>
      in if failedCommit \<noteq> preflightRecovery
         then (MarkFailed next failedCommit now)\<lparr>LastAttemptCommit := failedCommit\<rparr> else next)"

definition degrade ::
  "'w Deps \<Rightarrow> State \<Rightarrow> string \<Rightarrow> string \<Rightarrow> string list \<Rightarrow> err \<Rightarrow> time \<Rightarrow> ('w, RunResult \<times> State) state" where
  "degrade d st failedCommit target stacks e start = do {
     now \<leftarrow> ClockNow d;
     let next = degradedState st failedCommit now;
     saveErr \<leftarrow> StoreSave d next;
     let e' = (case saveErr of Some x \<Rightarrow> Wrap2 [] e '' (saving degraded state also failed: '' x '')'' | None \<Rightarrow> e);
     dur \<leftarrow> since d start;
     let emb = BuildEmbed ((report OutcomeFailure ''ComposeLock: DEGRADED, manual intervention required'')\<lparr>
           rp_Commit := reportedCommit failedCommit target, rp_Branch := cfg_Branch (Cfg d),
           rp_Stacks := reportStacks (Cfg d) stacks, rp_Duration := dur, rp_Err := Some e'\<rparr>);
     ret (emptyResult\<lparr>rs_Degraded := True, rs_RolledBackTo := target, rs_Err := Some e',
            rs_Notification := Some emb, rs_NotificationKey := degradedKey failedCommit target\<rparr>,
          case saveErr of Some x \<Rightarrow> st | None \<Rightarrow> next)
   }"

definition interruptedState :: "State \<Rightarrow> string \<Rightarrow> string list \<Rightarrow> time \<Rightarrow> State" where
  "interruptedState st failedCommit names now =
     (let next = st\<lparr>PendingRevert := True, PendingCommit := failedCommit\<rparr>;
          next = (if names \<noteq> [] then next\<lparr>PendingStacks := names\<rparr> else next);
          next = (if IsZero (PendingSince next) then next\<lparr>PendingSince := now\<rparr> else next);
          next = (if failedCommit \<noteq> preflightRecovery
                  then (MarkFailed next failedCommit now)\<lparr>LastAttemptCommit := failedCommit\<rparr> else next)
      in next\<lparr>LastAttemptAt := now, LastResult := ResultFailedApply\<rparr>)"

definition revertInterrupted ::
  "'w Deps \<Rightarrow> ctx \<Rightarrow> State \<Rightarrow> string \<Rightarrow> string \<Rightarrow> Stack list \<Rightarrow> err \<Rightarrow> time \<Rightarrow> ('w, RunResult \<times> State) state" where
  "revertInterrupted d c st failedCommit target stacks e start = do {
     now \<leftarrow> ClockNow d;
     let next = interruptedState st failedCommit (stackNames stacks) now;
     saveErr \<leftarrow> StoreSave d next;
     let e' = (case saveErr of Some x \<Rightarrow> Wrap2 [] e '' (saving interrupted revert state also failed: '' x '')'' | None \<Rightarrow> e);
     let st' = (case saveErr of Some x \<Rightarrow> st | None \<Rightarrow> next);
     over \<leftarrow> ended d c;
     if over then ret (emptyResult\<lparr>rs_RolledBackTo := target, rs_Err := Some e'\<rparr>, st')
     else do {
       dur \<leftarrow> since d start;
       let emb = BuildEmbed ((report OutcomeFailure ''ComposeLock: revert interrupted, will resume'')\<lparr>
             rp_Commit := reportedCommit failedCommit target, rp_Branch := cfg_Branch (Cfg d),
             rp_Stacks := reportStacks (Cfg d) (stackNames stacks), rp_Duration := dur, rp_Err := Some e'\<rparr>);
       ret (emptyResult\<lparr>rs_RolledBackTo := target, rs_Err := Some e', rs_Notification := Some emb,
              rs_NotificationKey := ''revert-interrupted:'' @ reportedCommit failedCommit target\<rparr>, st')
     }
   }"

definition revertFailed ::
  "'w Deps \<Rightarrow> ctx \<Rightarrow> State \<Rightarrow> string \<Rightarrow> string \<Rightarrow> Stack list \<Rightarrow> err \<Rightarrow> time \<Rightarrow> ('w, RunResult \<times> State) state" where
  "revertFailed d c st failedCommit target stacks e start = do {
     over \<leftarrow> ended d c;
     if over \<or> IsInfraError e then revertInterrupted d c st failedCommit target stacks e start
     else degrade d st failedCommit target (stackNames stacks) e start
   }"

text \<open>The loop that loads the projects of the stacks and checks their env files.\<close>

definition loadForRevert :: "'w Deps \<Rightarrow> ctx \<Rightarrow> Stack \<Rightarrow> ('w, err + Project) state" where
  "loadForRevert d c s = do {
     r \<leftarrow> LoadProject d c (k_Files s) (k_ProjectName s);
     case r of
       Inl e \<Rightarrow> ret (Inl (wrapf (''loading project '' @ k_ProjectName s @ '' for revert: '') e))
     | Inr project \<Rightarrow> do {
         r2 \<leftarrow> CheckEnvFiles (HostOS d) project;
         ret (case r2 of
            Some e \<Rightarrow> Inl (wrapf (''env_file missing for revert of '' @ k_ProjectName s @ '': '') e)
          | None \<Rightarrow> Inr project)
       }
   }"

definition upForRevert :: "'w Deps \<Rightarrow> ctx \<Rightarrow> Stack \<times> Project \<Rightarrow> ('w, err + string list) state" where
  "upForRevert d c = (\<lambda>(s, project). do {
     r \<leftarrow> Up d c project;
     ret (case r of
        Some e \<Rightarrow> Inl (wrapf (''compose up during revert of '' @ k_ProjectName s @ '': '') e)
      | None \<Rightarrow> Inr (serviceNames project))
   })"

definition revertedState :: "State \<Rightarrow> string \<Rightarrow> string \<Rightarrow> time \<Rightarrow> State" where
  "revertedState st failedCommit target now =
     (let next = st\<lparr>PendingCommit := [], PendingSince := zeroTime, PendingAttempts := 0, PendingStacks := [],
        PendingRevert := False, LastCheckoutCommit := target, LastAttemptAt := now\<rparr>;
          next = (if failedCommit \<noteq> preflightRecovery
                  then next\<lparr>LastAttemptCommit := failedCommit, PreflightBlocks := 0\<rparr> else next)
      in next\<lparr>LastResult := ResultReverted\<rparr>)"

text \<open>The end of \<open>doRevert\<close>, after a healthy watch.\<close>

definition finishRevert ::
  "'w Deps \<Rightarrow> State \<Rightarrow> string \<Rightarrow> string \<Rightarrow> Stack list \<Rightarrow> string list \<Rightarrow> string \<Rightarrow> time \<Rightarrow> ('w, RunResult \<times> State) state" where
  "finishRevert d st failedCommit target revertStacks allServices reason start = do {
     let watchDuration = seconds (cfg_HealthWatchSeconds (Cfg d));
     now \<leftarrow> ClockNow d;
     let next = revertedState st failedCommit target now;
     saved \<leftarrow> StoreSave d next;
     case saved of
       Some e \<Rightarrow> ret (emptyResult\<lparr>rs_Reverted := True, rs_RolledBackTo := target, rs_HealthWatch := watchDuration,
                         rs_Err := Some (wrapf ''saving state: '' e)\<rparr>, st)
     | None \<Rightarrow> do {
         let title = (if failedCommit = preflightRecovery then ''ComposeLock: restored last healthy commit''
                      else ''ComposeLock: reverted, healthy again'');
         let key = (if failedCommit = preflightRecovery then ''preflight-recovered:'' @ target else ''reverted:'' @ failedCommit);
         let revertErr = errorf (reason @ '', reverted to '' @ shortCommit target @ '': healthy again'');
         dur \<leftarrow> since d start;
         let emb = BuildEmbed ((report OutcomeRecovered title)\<lparr>
               rp_Commit := reportedCommit failedCommit target, rp_Branch := cfg_Branch (Cfg d), rp_Services := allServices,
               rp_Stacks := reportStacks (Cfg d) (stackNames revertStacks), rp_HealthWatch := watchDuration,
               rp_Duration := dur, rp_Err := Some revertErr\<rparr>);
         ret (emptyResult\<lparr>rs_Reverted := True, rs_RolledBackTo := target, rs_HealthWatch := watchDuration,
                rs_Err := Some revertErr, rs_Notification := Some emb, rs_NotificationKey := key\<rparr>, next)
       }
   }"

text \<open>The middle of \<open>doRevert\<close>: bring the stacks of the target up and watch them.\<close>

definition applyRevert ::
  "'w Deps \<Rightarrow> ctx \<Rightarrow> State \<Rightarrow> string \<Rightarrow> string \<Rightarrow> Stack list \<Rightarrow> string \<Rightarrow> time \<Rightarrow> ('w, RunResult \<times> State) state" where
  "applyRevert d c st failedCommit target revertStacks reason start = do {
     loaded \<leftarrow> tryEach (loadForRevert d c) revertStacks;
     case loaded of
       Inl e \<Rightarrow> revertFailed d c st failedCommit target revertStacks e start
     | Inr projects \<Rightarrow> do {
         upped \<leftarrow> tryEach (upForRevert d c) (zip revertStacks projects);
         case upped of
           Inl e \<Rightarrow> revertFailed d c st failedCommit target revertStacks e start
         | Inr ups \<Rightarrow> do {
             watched \<leftarrow> watchStacks d c revertStacks projects;
             case watched of
               Inl e \<Rightarrow> revertInterrupted d c st failedCommit target revertStacks (wrapf ''health watch during revert: '' e) start
             | Inr (watchResult, _) \<Rightarrow>
                 if w_Outcome watchResult \<noteq> Healthy
                 then degrade d st failedCommit target (stackNames revertStacks)
                        (errorf (''revert to '' @ shortCommit target @ '' also failed health watch ('' @ w_Reason watchResult
                           @ ''): manual intervention required'')) start
                 else finishRevert d st failedCommit target revertStacks (concat ups) reason start
           }
       }
   }"

definition doRevert ::
  "'w Deps \<Rightarrow> ctx \<Rightarrow> State \<Rightarrow> Stack list \<Rightarrow> string \<Rightarrow> string \<Rightarrow> time \<Rightarrow> ('w, RunResult \<times> State) state" where
  "doRevert d c st stacks failedCommit reason start =
     (let target = LastHealthyCommit st
      in if target = [] then
           degrade d st failedCommit [] (stackNames stacks)
             (errorf (''no rollback target available ('' @ reason @ '')'')) start
         else do {
           r \<leftarrow> Checkout (Git d) c target;
           case r of
             Some e \<Rightarrow> revertFailed d c st failedCommit target stacks
                         (wrapf (''checking out rollback target '' @ target @ '': '') e) start
           | None \<Rightarrow> do {
               let st = st\<lparr>LastCheckoutCommit := target\<rparr>;
               r2 \<leftarrow> stacksAllowingEmpty d;
               case r2 of
                 Inl e \<Rightarrow> revertFailed d c st failedCommit target stacks
                             (wrapf ''discovering compose stacks at rollback target: '' e) start
               | Inr targetStacks \<Rightarrow> do {
                   r3 \<leftarrow> tearDownStacks d c (vanishedStacks stacks targetStacks);
                   case r3 of
                     Some e \<Rightarrow> revertFailed d c st failedCommit target stacks e start
                   | None \<Rightarrow> applyRevert d c st failedCommit target (intersectByProjectName targetStacks stacks) reason start
                 }
             }
         })"

end
