(* ===== verification/ApplyRun.thy ===== *)
theory ApplyRun
  imports Revert
begin

text \<open>
  A normal run: \<^verbatim>\<open>internal/reconcile/apply.go\<close>. \<open>runNormal\<close> fetches, weighs the change, passes the
  pre-flight gate and hands the commit to \<open>applyAndWatch\<close>, which checks it out, brings the changed
  stacks up, watches them and promotes the commit or rolls back. Go's \<^verbatim>\<open>result.ChangedFiles != nil\<close> is
  a non-empty list: \<open>splitNUL\<close> never returns an empty slice that is not nil.
\<close>

section \<open>Ending a run early\<close>

definition restoreCheckout :: "'w Deps \<Rightarrow> ctx \<Rightarrow> string \<Rightarrow> ('w, err option) state" where
  "restoreCheckout d c commit =
     (if commit = [] then ret None
      else do {
        r \<leftarrow> Checkout (Git d) (WithTimeout (WithoutCancel c) restoreCheckoutTimeout) commit;
        ret (map_option (wrapf (''restoring checkout to '' @ shortCommit commit @ '': '')) r)
      })"

definition failureReport :: "'w Deps \<Rightarrow> string \<Rightarrow> string \<Rightarrow> err option \<Rightarrow> Embed" where
  "failureReport d title commit e = BuildEmbed ((report OutcomeFailure title)\<lparr>
     rp_Commit := commit, rp_Branch := cfg_Branch (Cfg d), rp_Err := e\<rparr>)"

definition abortBeforeUp ::
  "'w Deps \<Rightarrow> ctx \<Rightarrow> State \<Rightarrow> RunResult \<Rightarrow> string \<Rightarrow> err \<Rightarrow> ('w, RunResult \<times> State) state" where
  "abortBeforeUp d c st result title e = do {
     restoreErr \<leftarrow> restoreCheckout d c (rs_OldCommit result);
     let result = result\<lparr>rs_Err := errJoin [Some e, restoreErr]\<rparr>;
     over \<leftarrow> ended d c;
     if over then ret (result, st)
     else do {
       st' \<leftarrow> recordOutcome d st ResultFailedApply (rs_NewCommit result);
       ret (result\<lparr>rs_Notification := Some (failureReport d (''ComposeLock: '' @ title) (rs_NewCommit result) (rs_Err result)),
              rs_NotificationKey := ''abort:'' @ title @ '':'' @ rs_NewCommit result\<rparr>, st')
     }
   }"

definition abortApply ::
  "'w Deps \<Rightarrow> ctx \<Rightarrow> State \<Rightarrow> RunResult \<Rightarrow> string \<Rightarrow> err \<Rightarrow> ('w, RunResult \<times> State) state" where
  "abortApply d c st result title e =
     (if IsInfraError e then abortBeforeUp d c st result title e
      else do {
        now \<leftarrow> ClockNow d;
        abortBeforeUp d c (MarkFailed st (rs_NewCommit result) now) result title e
      })"

definition applyIncomplete ::
  "'w Deps \<Rightarrow> ctx \<Rightarrow> State \<Rightarrow> RunResult \<Rightarrow> string \<Rightarrow> string \<Rightarrow> err \<Rightarrow> ('w, RunResult \<times> State) state" where
  "applyIncomplete d c st result title key e = do {
     let result = result\<lparr>rs_Err := Some e\<rparr>;
     over \<leftarrow> ended d c;
     if over then ret (result, st)
     else do {
       st' \<leftarrow> recordOutcome d st ResultFailedApply (rs_NewCommit result);
       ret (result\<lparr>rs_Notification := Some (failureReport d (''ComposeLock: '' @ title) (rs_NewCommit result) (Some e)),
              rs_NotificationKey := key @ '':'' @ rs_NewCommit result\<rparr>, st')
     }
   }"

definition applyInterrupted ::
  "'w Deps \<Rightarrow> State \<Rightarrow> RunResult \<Rightarrow> string \<Rightarrow> err \<Rightarrow> ('w, RunResult \<times> State) state" where
  "applyInterrupted d st result projectName e = do {
     let result = result\<lparr>rs_Err := Some (wrapf (''compose up of '' @ projectName @ '' hit an infrastructure error: '') e)\<rparr>;
     st' \<leftarrow> recordOutcome d st ResultFailedApply (rs_NewCommit result);
     ret (result\<lparr>rs_Notification := Some (failureReport d ''ComposeLock: infrastructure error during apply, will retry''
              (rs_NewCommit result) (rs_Err result)),
            rs_NotificationKey := ''infra:'' @ rs_NewCommit result\<rparr>, st')
   }"

definition failAndRevert ::
  "'w Deps \<Rightarrow> ctx \<Rightarrow> State \<Rightarrow> Stack list \<Rightarrow> RunResult \<Rightarrow> string \<Rightarrow> time \<Rightarrow> ('w, RunResult \<times> State) state" where
  "failAndRevert d c st stacks result reason start = do {
     now \<leftarrow> ClockNow d;
     let st = (MarkFailed st (rs_NewCommit result) now)\<lparr>LastResult := ResultFailedApply\<rparr>;
     _ \<leftarrow> StoreSave d st;
     p \<leftarrow> doRevert d c st stacks (rs_NewCommit result) reason start;
     (case p of (revertResult, st') \<Rightarrow>
        ret (result\<lparr>rs_Reverted := rs_Reverted revertResult, rs_Degraded := rs_Degraded revertResult,
               rs_RolledBackTo := rs_RolledBackTo revertResult, rs_Err := rs_Err revertResult,
               rs_Notification := rs_Notification revertResult, rs_NotificationKey := rs_NotificationKey revertResult,
               rs_HealthWatch := wrap64 (rs_HealthWatch result + rs_HealthWatch revertResult)\<rparr>, st'))
   }"

section \<open>Moving the checkout without applying\<close>

definition recordCheckout :: "'w Deps \<Rightarrow> State \<Rightarrow> string \<Rightarrow> ('w, err option \<times> State) state" where
  "recordCheckout d st commit = do {
     now \<leftarrow> ClockNow d;
     let next = st\<lparr>LastCheckoutCommit := commit, LastAttemptCommit := commit, LastAttemptAt := now,
                   LastResult := ResultSuccess\<rparr>;
     r \<leftarrow> StoreSave d next;
     ret (case r of Some e \<Rightarrow> (Some (wrapf ''saving state: '' e), st) | None \<Rightarrow> (None, next))
   }"

definition advanceCheckout :: "'w Deps \<Rightarrow> ctx \<Rightarrow> State \<Rightarrow> RunResult \<Rightarrow> ('w, RunResult \<times> State) state" where
  "advanceCheckout d c st result = do {
     r \<leftarrow> Checkout (Git d) c (rs_NewCommit result);
     case r of
       Some e \<Rightarrow> abortBeforeUp d c st result ''checkout failed'' e
     | None \<Rightarrow> do {
         q \<leftarrow> recordCheckout d st (rs_NewCommit result);
         ret (case q of
            (Some e, st') \<Rightarrow> (result\<lparr>rs_Err := Some e\<rparr>, st')
          | (None, st') \<Rightarrow> (result, st'))
       }
   }"

definition checkoutDrifted :: "State \<Rightarrow> string \<Rightarrow> bool" where
  "checkoutDrifted st head \<longleftrightarrow> head \<noteq> [] \<and> head \<noteq> ExpectedCheckout st"

section \<open>Applying a commit\<close>

definition loadForApply :: "'w Deps \<Rightarrow> ctx \<Rightarrow> Stack \<Rightarrow> ('w, (string \<times> err) + Project) state" where
  "loadForApply d c s = do {
     r \<leftarrow> LoadProject d c (k_Files s) (k_ProjectName s);
     case r of
       Inl e \<Rightarrow> ret (Inl (''loading compose project failed'', wrapf (''loading project '' @ k_ProjectName s @ '': '') e))
     | Inr project \<Rightarrow> do {
         r2 \<leftarrow> CheckEnvFiles (HostOS d) project;
         ret (case r2 of Some e \<Rightarrow> Inl (''env_file missing'', e) | None \<Rightarrow> Inr project)
       }
   }"

definition pullForApply :: "'w Deps \<Rightarrow> ctx \<Rightarrow> Stack \<times> Project \<Rightarrow> ('w, (string \<times> err) + unit) state" where
  "pullForApply d c = (\<lambda>(s, project). do {
     r \<leftarrow> Pull d c project;
     ret (case r of
        Some e \<Rightarrow> Inl (''pulling images failed'', wrapf (''pulling images for '' @ k_ProjectName s @ '': '') e)
      | None \<Rightarrow> Inr ())
   })"

text \<open>The first stack whose \<^verbatim>\<open>compose up\<close> fails, with its error; otherwise the services.\<close>

definition upForApply :: "'w Deps \<Rightarrow> ctx \<Rightarrow> Stack \<times> Project \<Rightarrow> ('w, (Stack \<times> err) + string list) state" where
  "upForApply d c = (\<lambda>(s, project). do {
     r \<leftarrow> Up d c project;
     ret (case r of Some e \<Rightarrow> Inl (s, e) | None \<Rightarrow> Inr (serviceNames project))
   })"

definition pendingState :: "State \<Rightarrow> string \<Rightarrow> string list \<Rightarrow> time \<Rightarrow> State" where
  "pendingState st commit names now =
     (let next = (if PendingCommit st \<noteq> commit then st\<lparr>PendingAttempts := 0, PendingSince := now\<rparr>
                  else if IsZero (PendingSince st) then st\<lparr>PendingSince := now\<rparr> else st)
      in next\<lparr>PendingCommit := commit, PendingStacks := names, LastCheckoutCommit := commit,
              LastAttemptCommit := commit, LastAttemptAt := now\<rparr>)"

text \<open>After \<^verbatim>\<open>compose up\<close> of every changed stack: the watch and the verdict on the commit.\<close>

definition watchAndPromote ::
  "'w Deps \<Rightarrow> ctx \<Rightarrow> State \<Rightarrow> RunResult \<Rightarrow> Stack list \<Rightarrow> Stack list \<Rightarrow> Stack list \<Rightarrow> Project list \<Rightarrow>
     (string \<rightharpoonup> Snapshot) \<Rightarrow> time \<Rightarrow> ('w, RunResult \<times> State) state" where
  "watchAndPromote d c st result stacks changedStacks vanished projects before start = do {
     let commit = rs_NewCommit result;
     watched \<leftarrow> watchStacks d c changedStacks projects;
     case watched of
       Inl e \<Rightarrow> applyIncomplete d c st result ''health watch did not complete'' ''watch'' (wrapf ''health watch: '' e)
     | Inr (watchResult, baselines) \<Rightarrow> do {
         let result = result\<lparr>rs_HealthWatch := seconds (cfg_HealthWatchSeconds (Cfg d))\<rparr>;
         if w_Outcome watchResult = Healthy then do {
           down \<leftarrow> tearDownStacks d c vanished;
           case down of
             Some e \<Rightarrow> applyIncomplete d c st result ''tearing down removed stacks failed'' ''teardown'' e
           | None \<Rightarrow> do {
               p \<leftarrow> promoteHealthy d st commit (stackNames stacks);
               (case p of
                  (Some e, st') \<Rightarrow> ret (result\<lparr>rs_Err := Some e\<rparr>, st')
                | (None, st') \<Rightarrow> do {
                    let us = updatedServices (Cfg d) before baselines changedStacks;
                    let result = result\<lparr>rs_Updated := (case us of None \<Rightarrow> [] | Some (u, _) \<Rightarrow> u),
                                       rs_Restarted := (case us of None \<Rightarrow> [] | Some (_, r) \<Rightarrow> r)\<rparr>;
                    dur \<leftarrow> since d start;
                    let emb = BuildEmbed ((report OutcomeSuccess ''ComposeLock: deployed successfully'')\<lparr>
                          rp_Commit := commit, rp_Branch := cfg_Branch (Cfg d), rp_Services := rs_Services result,
                          rp_Updated := rs_Updated result, rp_UpdatedKnown := (us \<noteq> None), rp_Restarted := rs_Restarted result,
                          rp_Stacks := reportStacks (Cfg d) (rs_Stacks result), rp_HealthWatch := rs_HealthWatch result,
                          rp_Duration := dur\<rparr>);
                    ret (result\<lparr>rs_Notification := Some emb\<rparr>, st')
                  })
             }
         }
         else failAndRevert d c st changedStacks result
                (''applied '' @ shortCommit commit @ '' failed health watch ('' @ w_Reason watchResult @ '')'') start
       }
   }"

text \<open>From the saved pending state on: \<^verbatim>\<open>compose up\<close> of every changed stack.\<close>

definition upAndWatch ::
  "'w Deps \<Rightarrow> ctx \<Rightarrow> State \<Rightarrow> RunResult \<Rightarrow> Stack list \<Rightarrow> Stack list \<Rightarrow> Stack list \<Rightarrow> Project list \<Rightarrow>
     (string \<rightharpoonup> Snapshot) \<Rightarrow> time \<Rightarrow> ('w, RunResult \<times> State) state" where
  "upAndWatch d c st result stacks changedStacks vanished projects before start = do {
     upped \<leftarrow> tryEach (upForApply d c) (zip changedStacks projects);
     case upped of
       Inl (s, e) \<Rightarrow> do {
         over \<leftarrow> ended d c;
         if over then ret (result\<lparr>rs_Err := Some (wrapf ''compose up interrupted: '' e)\<rparr>, st)
         else if IsInfraError e then applyInterrupted d st result (k_ProjectName s) e
         else failAndRevert d c st changedStacks result
                (''applying '' @ shortCommit (rs_NewCommit result) @ '' ('' @ k_ProjectName s @ '') failed: '' @ errText e) start
       }
     | Inr ups \<Rightarrow>
         watchAndPromote d c st (result\<lparr>rs_Applied := True, rs_Services := concat ups, rs_Stacks := stackNames changedStacks\<rparr>)
           stacks changedStacks vanished projects before start
   }"

text \<open>From the decided set of changed stacks on: load, pull, save the pending state.\<close>

definition applyChanged ::
  "'w Deps \<Rightarrow> ctx \<Rightarrow> State \<Rightarrow> RunResult \<Rightarrow> Stack list \<Rightarrow> Stack list \<Rightarrow> Stack list \<Rightarrow>
     (string \<rightharpoonup> Snapshot) \<Rightarrow> time \<Rightarrow> ('w, RunResult \<times> State) state" where
  "applyChanged d c st result stacks changedStacks vanished before start = do {
     loaded \<leftarrow> tryEach (loadForApply d c) changedStacks;
     case loaded of
       Inl (title, e) \<Rightarrow> abortApply d c st result title e
     | Inr projects \<Rightarrow> do {
         pulled \<leftarrow> tryEach (pullForApply d c) (zip changedStacks projects);
         case pulled of
           Inl (title, e) \<Rightarrow> abortApply d c st result title e
         | Inr _ \<Rightarrow> do {
             now \<leftarrow> ClockNow d;
             let next = pendingState st (rs_NewCommit result) (stackNames changedStacks) now;
             saved \<leftarrow> StoreSave d next;
             case saved of
               Some e \<Rightarrow> abortBeforeUp d c st result ''saving state failed'' (wrapf ''saving state: '' e)
             | None \<Rightarrow> upAndWatch d c next result stacks changedStacks vanished projects before start
           }
       }
   }"

definition applyNothing ::
  "'w Deps \<Rightarrow> ctx \<Rightarrow> State \<Rightarrow> RunResult \<Rightarrow> Stack list \<Rightarrow> Stack list \<Rightarrow> bool \<Rightarrow> ('w, RunResult \<times> State) state" where
  "applyNothing d c st result stacks vanished undetermined = do {
     down \<leftarrow> tearDownStacks d c vanished;
     case down of
       Some e \<Rightarrow> applyIncomplete d c st result ''tearing down removed stacks failed'' ''teardown'' e
     | None \<Rightarrow> do {
         let result = result\<lparr>rs_Skipped := True\<rparr>;
         if undetermined then ret (result, st)
         else do {
           p \<leftarrow> promoteHealthy d st (rs_NewCommit result) (stackNames stacks);
           ret (case p of (Some e, st') \<Rightarrow> (result\<lparr>rs_Err := Some e\<rparr>, st') | (None, st') \<Rightarrow> (result, st'))
         }
       }
   }"

definition changedStacksOf ::
  "'w Deps \<Rightarrow> ctx \<Rightarrow> State \<Rightarrow> RunResult \<Rightarrow> Stack list \<Rightarrow> Stack list \<Rightarrow> string list \<Rightarrow> ('w, Stack list \<times> bool) state" where
  "changedStacksOf d c st result stacks previousStacks pendingStacks =
     (if LastHealthyCommit st = [] then ret (stacks, False)
      else if rs_ChangedFiles result \<noteq> [] then filterChanged d c stacks previousStacks (rs_ChangedFiles result)
      else if pendingStacks \<noteq> [] then ret (restrictToNames stacks pendingStacks, False)
      else ret (stacks, False))"

definition applyAndWatch ::
  "'w Deps \<Rightarrow> ctx \<Rightarrow> State \<Rightarrow> RunResult \<Rightarrow> Stack list \<Rightarrow> string list \<Rightarrow> (string \<rightharpoonup> Snapshot) \<Rightarrow> time \<Rightarrow>
     ('w, RunResult \<times> State) state" where
  "applyAndWatch d c st result previousStacks pendingStacks before start = do {
     r \<leftarrow> Checkout (Git d) c (rs_NewCommit result);
     case r of
       Some e \<Rightarrow> abortBeforeUp d c st result ''checkout failed'' e
     | None \<Rightarrow> do {
         r2 \<leftarrow> stacksAllowingEmpty d;
         case r2 of
           Inl e \<Rightarrow> abortApply d c st result ''discovering compose stacks failed'' e
         | Inr stacks \<Rightarrow> do {
             ch \<leftarrow> changedStacksOf d c st result stacks previousStacks pendingStacks;
             (if fst ch = []
              then applyNothing d c st result stacks (vanishedStacks previousStacks stacks) (snd ch)
              else applyChanged d c st result stacks (fst ch) (vanishedStacks previousStacks stacks) before start)
           }
       }
   }"

section \<open>The pre-flight gate\<close>

definition clearPreflightBlocks :: "'w Deps \<Rightarrow> State \<Rightarrow> ('w, State) state" where
  "clearPreflightBlocks d st =
     (if PreflightBlocks st = 0 then ret st
      else do {
        let next = st\<lparr>PreflightBlocks := 0\<rparr>;
        r \<leftarrow> StoreSave d next;
        ret (case r of Some e \<Rightarrow> st | None \<Rightarrow> next)
      })"

definition carryOver :: "RunResult \<Rightarrow> RunResult \<Rightarrow> RunResult" where
  "carryOver r result = r\<lparr>rs_Changed := rs_Changed result, rs_OldCommit := rs_OldCommit result,
     rs_NewCommit := rs_NewCommit result, rs_ChangedFiles := rs_ChangedFiles result\<rparr>"

definition preflightBlocked ::
  "'w Deps \<Rightarrow> ctx \<Rightarrow> RunOptions \<Rightarrow> State \<Rightarrow> RunResult \<Rightarrow> Stack list \<Rightarrow> string \<Rightarrow> time \<Rightarrow> ('w, RunResult \<times> State) state" where
  "preflightBlocked d c opts st result previousStacks reason start = do {
     let st = (if op_Force opts then st\<lparr>PreflightBlocks := 0\<rparr> else st);
     if PreflightBlocks st \<ge> maxPreflightBlocks then do {
       p \<leftarrow> degrade d st preflightRecovery (LastHealthyCommit st) (stackNames previousStacks)
             (errorf (''pre-flight gate blocked '' @ itoa (PreflightBlocks st) @ '' consecutive runs ('' @ reason
                @ ''): manual intervention required'')) start;
       ret (carryOver (fst p) result, snd p)
     } else do {
       let next = st\<lparr>PreflightBlocks := PreflightBlocks st + 1\<rparr>;
       r \<leftarrow> StoreSave d next;
       let st = (case r of Some e \<Rightarrow> st | None \<Rightarrow> next);
       p \<leftarrow> doRevert d c st previousStacks preflightRecovery (''pre-flight: live stack unhealthy: '' @ reason) start;
       ret (carryOver (fst p) result, snd p)
     }
   }"

section \<open>The normal run\<close>

text \<open>From the previous stacks on: evaluate the live stacks, then block, stop at a dry run, or apply.\<close>

definition gateAndApply ::
  "'w Deps \<Rightarrow> ctx \<Rightarrow> RunOptions \<Rightarrow> State \<Rightarrow> RunResult \<Rightarrow> Stack list \<Rightarrow> time \<Rightarrow> ('w, RunResult \<times> State) state" where
  "gateAndApply d c opts st result previousStacks start = do {
     r \<leftarrow> evaluateLive d c previousStacks;
     case r of
       Inl e \<Rightarrow> do {
         let result = result\<lparr>rs_Err := Some (wrapf ''pre-flight snapshot: '' e)\<rparr>;
         over \<leftarrow> ended d c;
         if over then ret (result, st)
         else do {
           st' \<leftarrow> recordOutcome d st ResultFailedPreflight (rs_NewCommit result);
           ret (result\<lparr>rs_Notification := Some (failureReport d ''ComposeLock: pre-flight check failed'' (rs_NewCommit result) (rs_Err result)),
                  rs_NotificationKey := ''preflight:'' @ rs_NewCommit result\<rparr>, st')
         }
       }
     | Inr live \<Rightarrow>
         if op_DryRun opts then
           ret (if \<not> lv_healthy live
                then result\<lparr>rs_Skipped := True, rs_SkipReason := SkipPreflightUnhealthy,
                       rs_Err := Some (errorf (''pre-flight gate would block this commit: '' @ lv_reason live))\<rparr>
                else result, st)
         else if \<not> lv_healthy live then preflightBlocked d c opts st result previousStacks (lv_reason live) start
         else do {
           st' \<leftarrow> clearPreflightBlocks d st;
           applyAndWatch d c st' result (deployedStacks st' previousStacks) [] (lv_snapshots live) start
         }
   }"

definition gatherAndGate ::
  "'w Deps \<Rightarrow> ctx \<Rightarrow> RunOptions \<Rightarrow> State \<Rightarrow> RunResult \<Rightarrow> time \<Rightarrow> ('w, RunResult \<times> State) state" where
  "gatherAndGate d c opts st result start = do {
     r \<leftarrow> previousStacksAt d;
     case r of
       Inr previousStacks \<Rightarrow> gateAndApply d c opts st result previousStacks start
     | Inl e \<Rightarrow> do {
         over \<leftarrow> ended d c;
         if over then ret (result\<lparr>rs_Err := Some (wrapf ''discovering compose stacks: '' e)\<rparr>, st)
         else gateAndApply d c opts st result (deployedStacks st []) start
       }
   }"

text \<open>The deploy window: whether it is closed now for a changed commit.\<close>

definition windowClosed :: "'w Deps \<Rightarrow> bool \<Rightarrow> ('w, bool) state" where
  "windowClosed d changed =
     (case Window (Cfg d) of
        None \<Rightarrow> ret False
      | Some w \<Rightarrow> if \<not> changed then ret False
          else do { now \<leftarrow> ClockNow d; ret (\<not> WindowOpen w (ZoneOffset d now) now) })"

definition runFetched ::
  "'w Deps \<Rightarrow> ctx \<Rightarrow> RunOptions \<Rightarrow> State \<Rightarrow> GitResult \<Rightarrow> time \<Rightarrow> ('w, RunResult \<times> State) state" where
  "runFetched d c opts st g start = do {
     let result = emptyResult\<lparr>rs_Changed := g_Changed g, rs_OldCommit := g_OldCommit g, rs_NewCommit := g_NewCommit g,
                    rs_ChangedFiles := g_ChangedFiles g\<rparr>;
     if \<not> g_Changed g \<and> \<not> checkoutDrifted st (g_OldCommit g) then ret (result, st)
     else if IsKnownBad st (g_NewCommit g) \<and> \<not> op_Force opts then do {
       st' \<leftarrow> recordOutcome d st ResultSkippedKnownBad (g_NewCommit g);
       ret (result\<lparr>rs_Skipped := True\<rparr>, st')
     }
     else do {
       closed \<leftarrow> windowClosed d (g_Changed g);
       if closed then ret (result\<lparr>rs_Skipped := True, rs_SkipReason := SkipOutsideWindow\<rparr>, st)
       else if \<not> g_Changed g
         then gatherAndGate d c opts st (result\<lparr>rs_Changed := True, rs_ChangedFiles := []\<rparr>) start
       else do {
         irrelevant \<leftarrow> (if LastHealthyCommit st \<noteq> []
                        then do { rel \<leftarrow> relevantChange d c (g_ChangedFiles g); ret (\<not> rel) } else ret False);
         if irrelevant then advanceCheckout d c st (result\<lparr>rs_Skipped := True\<rparr>)
         else gatherAndGate d c opts st result start
       }
     }
   }"

definition runNormal ::
  "'w Deps \<Rightarrow> ctx \<Rightarrow> RunOptions \<Rightarrow> State \<Rightarrow> time \<Rightarrow> ('w, RunResult \<times> State) state" where
  "runNormal d c opts st start = do {
     r \<leftarrow> Fetch (CtxErr d) (SleepCtx d) (Git d) c (cfg_RetryAttempts (Cfg d)) (seconds (cfg_RetryDelaySeconds (Cfg d)));
     case r of
       Inl e \<Rightarrow> do {
         over \<leftarrow> ended d c;
         if over then ret (emptyResult\<lparr>rs_Err := Some e\<rparr>, st)
         else do {
           st' \<leftarrow> recordOutcome d st ResultFailedGit [];
           ret (emptyResult\<lparr>rs_Err := Some e,
                  rs_Notification := Some (failureReport d ''ComposeLock: git sync failed'' [] (Some e)),
                  rs_NotificationKey := ''git-sync''\<rparr>, st')
         }
       }
     | Inr g \<Rightarrow> runFetched d c opts st g start
   }"

end
