(* ===== verification/Reconcile.thy ===== *)
theory Reconcile
  imports ApplyRun
begin

text \<open>
  The entry point: crash recovery (\<^verbatim>\<open>internal/reconcile/recovery.go\<close>) and \<open>Reconcile\<close> itself with its
  locks, the paused run and the refusal of a degraded system (\<^verbatim>\<open>reconcile.go\<close>).
\<close>

section \<open>Crash recovery\<close>

definition maxRecoveryAttempts :: int where
  "maxRecoveryAttempts = 3"

definition recoveryAttemptGrace :: duration where
  "recoveryAttemptGrace = 15 * minute"

definition supersedingCommit :: "'w Deps \<Rightarrow> ctx \<Rightarrow> RunOptions \<Rightarrow> State \<Rightarrow> string \<Rightarrow> ('w, string) state" where
  "supersedingCommit d c opts st pending = do {
     r \<leftarrow> Fetch (CtxErr d) (SleepCtx d) (Git d) c (cfg_RetryAttempts (Cfg d)) (seconds (cfg_RetryDelaySeconds (Cfg d)));
     ret (case r of
        Inl e \<Rightarrow> []
      | Inr g \<Rightarrow> if g_NewCommit g = [] \<or> g_NewCommit g = pending then []
                 else if IsKnownBad st (g_NewCommit g) \<and> \<not> op_Force opts then []
                 else g_NewCommit g)
   }"

definition countRecoveryAttempt :: "'w Deps \<Rightarrow> State \<Rightarrow> ('w, err option \<times> State) state" where
  "countRecoveryAttempt d st = do {
     let next = st\<lparr>PendingAttempts := PendingAttempts st + 1\<rparr>;
     r \<leftarrow> StoreSave d next;
     ret (case r of Some e \<Rightarrow> (Some (wrapf ''saving state: '' e), st) | None \<Rightarrow> (None, next))
   }"

definition recoveryBudget :: "Config \<Rightarrow> duration" where
  "recoveryBudget cfg = wrap64 (maxRecoveryAttempts * wrap64 (seconds (cfg_HealthWatchSeconds cfg) + recoveryAttemptGrace))"

definition recoveryExpired :: "'w Deps \<Rightarrow> State \<Rightarrow> ('w, duration \<times> bool) state" where
  "recoveryExpired d st =
     (let budget = recoveryBudget (Cfg d)
      in if IsZero (PendingSince st) then ret (budget, False)
         else do { now \<leftarrow> ClockNow d; ret (budget, timeSub now (PendingSince st) > budget) })"

text \<open>From the discovered stacks on: resume a revert, roll back, or apply.\<close>

definition recoverStacks ::
  "'w Deps \<Rightarrow> ctx \<Rightarrow> State \<Rightarrow> string \<Rightarrow> string \<Rightarrow> Stack list \<Rightarrow> time \<Rightarrow> ('w, RunResult \<times> State) state" where
  "recoverStacks d c st commit superseding discovered start =
     (if RevertInProgress st then do {
        q \<leftarrow> countRecoveryAttempt d st;
        (case q of
           (Some e, st') \<Rightarrow> ret (emptyResult\<lparr>rs_NewCommit := commit, rs_Err := Some e\<rparr>, st')
         | (None, st') \<Rightarrow> do {
             p \<leftarrow> doRevert d c st' (restrictToNames discovered (PendingStacks st')) commit
                   (''crash recovery: resumed revert of '' @ shortCommit commit) start;
             ret ((fst p)\<lparr>rs_NewCommit := commit\<rparr>, snd p)
           })
      } else do {
        r \<leftarrow> evaluateLive d c discovered;
        case r of
          Inl e \<Rightarrow> ret (emptyResult\<lparr>rs_NewCommit := commit, rs_Err := Some (wrapf ''crash recovery: live snapshot: '' e)\<rparr>, st)
        | Inr live \<Rightarrow> do {
            q \<leftarrow> countRecoveryAttempt d st;
            (case q of
               (Some e, st') \<Rightarrow> ret (emptyResult\<lparr>rs_NewCommit := commit, rs_Err := Some e\<rparr>, st')
             | (None, st') \<Rightarrow>
                 if \<not> lv_healthy live then do {
                   p \<leftarrow> doRevert d c st' (restrictToNames discovered (PendingStacks st')) commit
                         (''crash recovery: live stack unhealthy: '' @ lv_reason live) start;
                   ret ((fst p)\<lparr>rs_NewCommit := commit\<rparr>, snd p)
                 }
                 else if superseding \<noteq> [] then
                   applyAndWatch d c st' (emptyResult\<lparr>rs_Changed := True, rs_NewCommit := superseding, rs_OldCommit := commit\<rparr>)
                     (deployedStacks st' discovered) [] (lv_snapshots live) start
                 else
                   applyAndWatch d c st' (emptyResult\<lparr>rs_NewCommit := commit, rs_OldCommit := LastHealthyCommit st'\<rparr>)
                     (deployedStacks st' discovered) (PendingStacks st') (lv_snapshots live) start)
          }
      })"

text \<open>The attempt and time limits: the error with which recovery gives up, if it does.\<close>

definition recoverySpent :: "'w Deps \<Rightarrow> State \<Rightarrow> string \<Rightarrow> string \<Rightarrow> ('w, err option) state" where
  "recoverySpent d st commit superseding =
     (if superseding \<noteq> [] then ret None
      else if PendingAttempts st \<ge> maxRecoveryAttempts
        then ret (Some (errorf (''crash recovery for '' @ shortCommit commit @ '' failed ''
               @ itoa (PendingAttempts st) @ '' times: manual intervention required'')))
      else do {
        x \<leftarrow> recoveryExpired d st;
        ret (if snd x
          then Some (errorf (''crash recovery for '' @ shortCommit commit @ '' has been pending longer than ''
                 @ durationString (fst x) @ '': manual intervention required''))
          else None)
      })"

text \<open>\<^verbatim>\<open>--force\<close> starts the attempts afresh.\<close>

definition forceRecovery :: "'w Deps \<Rightarrow> RunOptions \<Rightarrow> State \<Rightarrow> ('w, State) state" where
  "forceRecovery d opts st =
     (if op_Force opts then do { now \<leftarrow> ClockNow d; ret (st\<lparr>PendingAttempts := 0, PendingSince := now\<rparr>) }
      else ret st)"

definition recoverFromCrash ::
  "'w Deps \<Rightarrow> ctx \<Rightarrow> RunOptions \<Rightarrow> State \<Rightarrow> time \<Rightarrow> ('w, RunResult \<times> State) state" where
  "recoverFromCrash d c opts st0 start = do {
     let commit = PendingCommit st0;
     if op_DryRun opts then ret (emptyResult\<lparr>rs_NewCommit := commit\<rparr>, st0)
     else do {
       st \<leftarrow> forceRecovery d opts st0;
       superseding \<leftarrow> (if \<not> RevertInProgress st then supersedingCommit d c opts st commit else ret []);
       spent \<leftarrow> recoverySpent d st commit superseding;
       case spent of
         Some e \<Rightarrow> degrade d st commit [] [] e start
       | None \<Rightarrow> do {
           r \<leftarrow> previousStacksAt d;
           case r of
             Inl e \<Rightarrow> ret (emptyResult\<lparr>rs_NewCommit := commit, rs_Err := Some (wrapf ''discovering compose stacks: '' e)\<rparr>, st)
           | Inr discovered \<Rightarrow> recoverStacks d c st commit superseding discovered start
         }
     }
   }"

section \<open>A run under the lock\<close>

definition pausedRun :: "'w Deps \<Rightarrow> ctx \<Rightarrow> ('w, RunResult) state" where
  "pausedRun d c = do {
     let result = emptyResult\<lparr>rs_Skipped := True, rs_SkipReason := SkipPaused\<rparr>;
     r \<leftarrow> Fetch (CtxErr d) (SleepCtx d) (Git d) c 1 0;
     ret (case r of
        Inl e \<Rightarrow> result
      | Inr g \<Rightarrow> result\<lparr>rs_Changed := g_Changed g, rs_OldCommit := g_OldCommit g, rs_NewCommit := g_NewCommit g\<rparr>)
   }"

definition reconcileLocked :: "'w Deps \<Rightarrow> ctx \<Rightarrow> RunOptions \<Rightarrow> time \<Rightarrow> ('w, RunResult) state" where
  "reconcileLocked d c opts start = do {
     r \<leftarrow> StoreLoad d;
     case r of
       Inl e \<Rightarrow> ret (emptyResult\<lparr>rs_Err := Some (wrapf ''loading state: '' e)\<rparr>)
     | Inr st \<Rightarrow> do {
         now \<leftarrow> ClockNow d;
         if Paused st now then pausedRun d c
         else if LastResult st = ResultDegraded \<and> \<not> op_Force opts
           then ret (emptyResult\<lparr>rs_Degraded := True, rs_NewCommit := LastAttemptCommit st, rs_Err := Some errDegraded\<rparr>)
         else do {
           p \<leftarrow> (if Pending st then recoverFromCrash d c opts st start else runNormal d c opts st start);
           ret (fst p)
         }
       }
   }"

definition underLock :: "'w Deps \<Rightarrow> ctx \<Rightarrow> RunOptions \<Rightarrow> time \<Rightarrow> ('w, RunResult) state" where
  "underLock d c opts start = do {
     runStart \<leftarrow> ClockNow d;
     result \<leftarrow> reconcileLocked d c opts start;
     _ \<leftarrow> (if \<not> op_DryRun opts then recordHistory d result runStart else ret ());
     ret result
   }"

text \<open>The deferred calls run in reverse order: the state lock first, then the activity counter and the
  single-flight mutex.\<close>

definition lockedRun :: "'w Deps \<Rightarrow> ctx \<Rightarrow> RunOptions \<Rightarrow> time \<Rightarrow> ('w, RunResult) state" where
  "lockedRun d c opts start =
     (case Lock d of
        None \<Rightarrow> underLock d c opts start
      | Some (tryLock, unlock) \<Rightarrow> do {
          r \<leftarrow> tryLock;
          case r of
            Inl e \<Rightarrow> ret (emptyResult\<lparr>rs_Err := Some (wrapf ''acquiring state lock: '' e)\<rparr>)
          | Inr held \<Rightarrow>
              if \<not> held then ret (emptyResult\<lparr>rs_Skipped := True, rs_SkipReason := SkipLocked\<rparr>)
              else do {
                result \<leftarrow> underLock d c opts start;
                _ \<leftarrow> unlock;
                ret result
              }
        })"

definition Reconcile :: "'w Deps \<Rightarrow> ctx \<Rightarrow> RunOptions \<Rightarrow> ('w, RunResult) state" where
  "Reconcile d c opts = do {
     start \<leftarrow> TimeNow d;
     free \<leftarrow> FlightTry d;
     if \<not> free then do {
       dur \<leftarrow> since d start;
       ret (emptyResult\<lparr>rs_Skipped := True, rs_SkipReason := SkipInFlight, rs_Duration := dur\<rparr>)
     } else do {
       _ \<leftarrow> ActivityAdd d;
       result \<leftarrow> lockedRun d c opts start;
       _ \<leftarrow> ActivityAdd d;
       _ \<leftarrow> FlightUnlock d;
       result \<leftarrow> (case rs_Notification result of
          None \<Rightarrow> ret result
        | Some emb \<Rightarrow> do {
            emb' \<leftarrow> addCommitContext d c emb (rs_OldCommit result) (rs_RolledBackTo result);
            ret (result\<lparr>rs_Notification := Some emb'\<rparr>)
          });
       _ \<leftarrow> (if \<not> op_DryRun opts \<and> rs_SkipReason result \<noteq> SkipInFlight \<and> rs_SkipReason result \<noteq> SkipLocked
             then HeartbeatPing d c else ret ());
       dur \<leftarrow> since d start;
       ret (result\<lparr>rs_Duration := dur\<rparr>)
     }
   }"

end
