(* ===== verification/Contract.thy ===== *)
theory Contract
  imports Reconcile
begin

text \<open>
  The contracts under which a run is verified. Locale \<open>querying_deps\<close> is the promise of the
  dependencies that git queries, files and clocks keep an invariant of the world, \<open>reading_deps\<close> that
  snapshots of containers do too; everything a run does before it acts
  rests on it alone. Locale \<open>acting_deps\<close> extends it by what acting may do: which states may be
  saved (\<open>S\<close>), which commits may be checked out (\<open>C\<close>) and whether Docker may be touched. Locale
  \<open>revert_contract\<close> is what a rollback needs on top, and \<open>run_contract\<close> adds how saved states evolve: which commits may be marked as failed (\<open>F\<close>) and promoted
  (\<open>P\<close>), and that \<open>S\<close> looks only at the record of commits. Every part of a run is proved once to keep the invariant and to
  leave a state in \<open>S\<close>; the theorems on runs are interpretations at the traced dependencies with
  different choices of these parameters.
\<close>

text \<open>A git command line that does not check anything out.\<close>

definition gitQuery :: "string list \<Rightarrow> bool" where
  "gitQuery args \<longleftrightarrow> args \<noteq> [] \<and> hd args \<noteq> ''checkout''"

locale querying_deps =
  fixes d :: "'w Deps" and I :: "'w \<Rightarrow> bool"
  assumes load_project: "keeps I (LoadProject d c fs n)"
    and now: "keeps I (Now (Clk d))"
    and sleep: "keeps I (Sleep (Clk d) c t)"
    and store_load: "keeps I (StoreLoad d)"
    and ctx_err: "keeps I (CtxErr d c)"
    and sleep_ctx: "keeps I (SleepCtx d c t)"
    and time_now: "keeps I (TimeNow d)"
    and schedule: "keeps I (Schedule d k)"
    and admit: "keeps I (Admit d c)"
    and read_dir: "keeps I (ReadDir (HostOS d) p)"
    and read_file: "keeps I (ReadFile (HostOS d) p)"
    and stat: "keeps I (StatIsDir (HostOS d) p)"
    and cache_get: "keeps I (cacheGet (HostOS d))"
    and cache_put: "keeps I (cachePut (HostOS d) dc)"
    and git_query: "gitQuery args \<Longrightarrow> keeps I (Run (Git d) c dir env name args)"
begin

lemmas queries = load_project now sleep store_load ctx_err sleep_ctx time_now schedule admit
  read_dir read_file stat cache_get cache_put

lemma keeps_ended: "keeps I (ended d c)"
  unfolding ended_def by (intro keeps_intros queries)

lemma keeps_since: "keeps I (since d t)"
  unfolding since_def by (intro keeps_intros queries)

lemma keeps_ClockNow: "keeps I (ClockNow d)"
  unfolding ClockNow_def by (rule queries)

lemma keeps_git: "gitQuery args \<Longrightarrow> keeps I (git (Git d) c t args)" and keeps_run: "gitQuery args \<Longrightarrow> keeps I (run (Git d) c t args)"
  unfolding git_def run_def by (intro keeps_intros git_query; simp)+

lemma keeps_Fetch: "keeps I (Fetch (CtxErr d) (SleepCtx d) (Git d) c n t)"
  unfolding Fetch_def retry_def fetch_def Preview_def
  by (intro keeps_intros keeps_retryLoop keeps_git keeps_run queries) (simp_all add: gitQuery_def)

lemma keeps_Describe: "keeps I (Describe (Git d) c commit)"
  unfolding Describe_def by (intro keeps_intros keeps_git) (simp_all add: gitQuery_def)

lemma keeps_CountCommits: "keeps I (CountCommits (Git d) c a b)"
  unfolding CountCommits_def by (intro keeps_intros keeps_git) (simp_all add: gitQuery_def)

lemma keeps_RemoteURL: "keeps I (RemoteURL (Git d) c)"
  unfolding RemoteURL_def by (intro keeps_intros keeps_git) (simp_all add: gitQuery_def)

lemma keeps_addCommitContext: "keeps I (addCommitContext d c emb base rollback)"
  unfolding addCommitContext_def describeCommit_def repoWebURL_def
  by (intro keeps_intros keeps_Describe keeps_CountCommits keeps_RemoteURL)

lemma keeps_stacks: "keeps I (stacksAllowingEmpty d)"
  unfolding stacksAllowingEmpty_def StacksFor_def by (intro keeps_intros queries)

lemma keeps_previous: "keeps I (previousStacksAt d)"
  unfolding previousStacksAt_def by (rule keeps_stacks)

lemma keeps_filterChanged: "keeps I (filterChanged d c stacks previous changed)"
  unfolding filterChanged_def filterStep_def stackInputsMatch_def by (intro keeps_intros queries)

lemma keeps_projectInputsRelevant: "keeps I (projectInputsRelevant d c fs n changed)"
  unfolding projectInputsRelevant_def by (intro keeps_intros queries)

lemma keeps_anyRelevant: "keeps I (anyRelevant d c changed stacks)"
  by (induction stacks) (auto intro!: keeps_intros keeps_projectInputsRelevant)

lemma keeps_relevantChange: "keeps I (relevantChange d c changed)"
  unfolding relevantChange_def composeDirInputsRelevant_def composeFileRelevant_def
  by (intro keeps_intros keeps_anyRelevant keeps_projectInputsRelevant keeps_stacks)

lemma keeps_combineOutcomes: "keeps I (combineOutcomes d c os sm)"
  by (induction os arbitrary: sm) (auto intro!: keeps_intros keeps_ended simp: Let_def split: option.split)

lemma keeps_CheckEnv: "keeps I (CheckEnvFiles (HostOS d) p)"
  by (intro keeps_intros queries)

lemma keeps_loadForRevert: "keeps I (loadForRevert d c s)"
  unfolding loadForRevert_def by (intro keeps_intros queries keeps_CheckEnv)

lemma keeps_loadForApply: "keeps I (loadForApply d c s)"
  unfolding loadForApply_def by (intro keeps_intros queries keeps_CheckEnv)

lemma keeps_changedStacksOf: "keeps I (changedStacksOf d c st result stacks previous pending)"
  unfolding changedStacksOf_def by (intro keeps_intros keeps_filterChanged)

lemma keeps_supersedingCommit: "keeps I (supersedingCommit d c opts st pending)"
  unfolding supersedingCommit_def by (intro keeps_intros keeps_Fetch)

lemma keeps_pausedRun: "keeps I (pausedRun d c)"
  unfolding pausedRun_def by (intro keeps_intros keeps_Fetch)

lemma keeps_windowClosed: "keeps I (windowClosed d changed)"
  unfolding windowClosed_def by (intro keeps_intros keeps_ClockNow)

lemma keeps_recoveryExpired: "keeps I (recoveryExpired d st)"
  unfolding recoveryExpired_def by (intro keeps_intros keeps_ClockNow)

lemma keeps_recoverySpent: "keeps I (recoverySpent d st commit superseding)"
  unfolding recoverySpent_def by (intro keeps_intros keeps_recoveryExpired)

end

locale reading_deps = querying_deps d I for d :: "'w Deps" and I :: "'w \<Rightarrow> bool" +
  assumes snapshot: "keeps I (TakeSnapshot d c n)"
begin

lemmas reads = queries snapshot

lemma keeps_evaluateNames: "keeps I (evaluateNames d c names snaps)"
  by (induction names arbitrary: snaps) (auto intro!: keeps_intros reads split: bool.split)

lemma keeps_evaluateLive: "keeps I (evaluateLive d c stacks)"
  unfolding evaluateLive_def by (rule keeps_evaluateNames)

lemma keeps_watchStacks: "keeps I (watchStacks d c stacks projects)"
  unfolding watchStacks_def joinOutcomes_def watchAll_def watchOne_def
  by (intro keeps_intros keeps_combineOutcomes reads)

end

definition sameRecord :: "State \<Rightarrow> State \<Rightarrow> bool" where
  "sameRecord st st' \<longleftrightarrow> LastHealthyCommit st' = LastHealthyCommit st \<and> LastHealthyStacks st' = LastHealthyStacks st
     \<and> FailedCommits st' = FailedCommits st \<and> LastFailedCommit st' = LastFailedCommit st \<and> History st' = History st
     \<and> SchemaVersion st' = SchemaVersion st"

text \<open>What a load gives under the invariant, that the history may be extended, and that a run that is not
  a dry run may act.\<close>

definition storeGives :: "'w Deps \<Rightarrow> ('w \<Rightarrow> bool) \<Rightarrow> (State \<Rightarrow> bool) \<Rightarrow> bool" where
  "storeGives d I S \<longleftrightarrow> (\<forall>w st w'. I w \<longrightarrow> run_state (StoreLoad d) w = (Inr st, w') \<longrightarrow> S st)"

definition historyGrows :: "(State \<Rightarrow> bool) \<Rightarrow> bool" where
  "historyGrows S \<longleftrightarrow> (\<forall>st e. S st \<longrightarrow> S (Record st e))"

definition unrestricted ::
  "(string \<Rightarrow> bool) \<Rightarrow> (string \<Rightarrow> bool) \<Rightarrow> (string \<Rightarrow> bool) \<Rightarrow> bool \<Rightarrow> RunOptions \<Rightarrow> bool" where
  "unrestricted C F P act opts \<longleftrightarrow> (\<forall>x. C x \<and> F x \<and> P x) \<and> (op_DryRun opts \<or> act)"

locale acting_deps = reading_deps d I for d :: "'w Deps" and I :: "'w \<Rightarrow> bool" +
  fixes S :: "State \<Rightarrow> bool" and C :: "string \<Rightarrow> bool" and mayUp mayDown mayPull :: bool
  assumes save: "S st \<Longrightarrow> keeps I (StoreSave d st)"
    and checkout: "C commit \<Longrightarrow> validCommit commit \<Longrightarrow>
      keeps I (Run (Git d) c dir env name [''checkout'', ''--detach'', ''--force'', commit])"
    and up: "mayUp \<Longrightarrow> keeps I (Up d c p)"
    and down: "mayDown \<Longrightarrow> keeps I (Down d c n)"
    and pull: "mayPull \<Longrightarrow> keeps I (Pull d c p)"
begin

lemma wp_save: "S st \<Longrightarrow> I w \<Longrightarrow> (\<And>r w'. I w' \<Longrightarrow> Q r w') \<Longrightarrow> wp (StoreSave d st) Q w"
  by (rule wp_keepsI [OF save])

lemma keeps_Checkout: "C commit \<Longrightarrow> keeps I (Checkout (Git d) c commit)"
  unfolding Checkout_def git_def run_def
  by (cases "validCommit commit") (auto intro!: keeps_intros checkout simp: checkCommit_def)

lemma wp_Checkout: "C commit \<Longrightarrow> I w \<Longrightarrow> (\<And>r w'. I w' \<Longrightarrow> Q r w') \<Longrightarrow> wp (Checkout (Git d) c commit) Q w"
  by (rule wp_keepsI [OF keeps_Checkout])

lemma keeps_tearDown: "(stacks \<noteq> [] \<Longrightarrow> mayDown) \<Longrightarrow> keeps I (tearDownStacks d c stacks)"
  unfolding tearDownStacks_def downAll_def downStack_def by (intro keeps_intros schedule down; simp)

lemma wp_tearDown:
  "mayDown \<Longrightarrow> I w \<Longrightarrow> (\<And>r w'. I w' \<Longrightarrow> Q r w') \<Longrightarrow> wp (tearDownStacks d c stacks) Q w"
  by (rule wp_keepsI [OF keeps_tearDown])

lemmas wp_reads = keeps_ended [THEN wp_keepsI] keeps_since [THEN wp_keepsI] keeps_ClockNow [THEN wp_keepsI]
  store_load [THEN wp_keepsI] keeps_Fetch [THEN wp_keepsI] keeps_stacks [THEN wp_keepsI] keeps_previous [THEN wp_keepsI]
  keeps_relevantChange [THEN wp_keepsI] keeps_evaluateLive [THEN wp_keepsI] keeps_watchStacks [THEN wp_keepsI]
  keeps_changedStacksOf [THEN wp_keepsI] keeps_supersedingCommit [THEN wp_keepsI] keeps_pausedRun [THEN wp_keepsI]
  keeps_windowClosed [THEN wp_keepsI] keeps_recoverySpent [THEN wp_keepsI] keeps_addCommitContext [THEN wp_keepsI]

lemma keeps_upForRevert: "mayUp \<Longrightarrow> keeps I (upForRevert d c sp)"
  unfolding upForRevert_def by (intro keeps_intros up)

lemma wp_restoreCheckout: "(commit \<noteq> [] \<Longrightarrow> C commit) \<Longrightarrow> I w \<Longrightarrow> (\<And>r w'. I w' \<Longrightarrow> Q r w') \<Longrightarrow> wp (restoreCheckout d c commit) Q w"
  unfolding restoreCheckout_def by (intro wp_intros wp_Checkout) auto

lemma keeps_upForApply: "mayUp \<Longrightarrow> keeps I (upForApply d c sp)"
  unfolding upForApply_def by (intro keeps_intros up)

lemma keeps_pullForApply: "mayPull \<Longrightarrow> keeps I (pullForApply d c sp)"
  unfolding pullForApply_def by (intro keeps_intros pull)

end

text \<open>
  Rolling back on its own: \<open>T\<close> holds of the state a rollback starts from, \<open>S\<close> of the three kinds of state
  it saves.
\<close>

locale revert_contract = acting_deps d I S C mayUp mayDown mayPull
  for d :: "'w Deps" and I :: "'w \<Rightarrow> bool" and S :: "State \<Rightarrow> bool" and C :: "string \<Rightarrow> bool" and mayUp mayDown mayPull :: bool +
  fixes T :: "State \<Rightarrow> bool" and failed :: string
  assumes T_checkout: "T st \<Longrightarrow> T (st\<lparr>LastCheckoutCommit := x\<rparr>)"
    and S_degraded: "T st \<Longrightarrow> S (degradedState st failed t)"
    and S_interrupted: "T st \<Longrightarrow> S (interruptedState st failed names t)"
    and S_reverted: "T st \<Longrightarrow> S (revertedState st failed target t)"
begin

lemma wp_degrade:
  assumes "T st" and "I w" and "\<And>r st' w'. I w' \<Longrightarrow> S st' \<or> T st' \<Longrightarrow> Q (r, st') w'"
  shows "wp (degrade d st failed target stacks e start) Q w"
  unfolding degrade_def
  by (intro wp_intros wp_reads wp_save assms(2)) (auto intro!: assms(3) S_degraded assms(1) split: option.split)

lemma wp_revertInterrupted:
  assumes "T st" and "I w" and "\<And>r st' w'. I w' \<Longrightarrow> S st' \<or> T st' \<Longrightarrow> Q (r, st') w'"
  shows "wp (revertInterrupted d c st failed target stacks e start) Q w"
  unfolding revertInterrupted_def
  by (intro wp_intros wp_reads wp_save assms(2)) (auto intro!: assms(3) S_interrupted assms(1) split: option.split)

lemma wp_revertFailed:
  assumes "T st" and "I w" and "\<And>r st' w'. I w' \<Longrightarrow> S st' \<or> T st' \<Longrightarrow> Q (r, st') w'"
  shows "wp (revertFailed d c st failed target stacks e start) Q w"
  unfolding revertFailed_def
  by (intro wp_intros wp_reads wp_revertInterrupted wp_degrade) (use assms in auto)

lemma wp_finishRevert:
  assumes "T st" and "I w" and "\<And>r st' w'. I w' \<Longrightarrow> S st' \<or> T st' \<Longrightarrow> Q (r, st') w'"
  shows "wp (finishRevert d st failed target stacks svcs reason start) Q w"
  unfolding finishRevert_def
  using S_reverted [OF assms(1)] by (intro wp_intros wp_reads wp_save) (auto intro!: assms)

lemma wp_applyRevert:
  assumes "mayUp" and "T st" and "I w" and "\<And>r st' w'. I w' \<Longrightarrow> S st' \<or> T st' \<Longrightarrow> Q (r, st') w'"
  shows "wp (applyRevert d c st failed target stacks reason start) Q w"
  unfolding applyRevert_def
  by (intro wp_intros wp_reads wp_keepsI [OF keeps_tryEach] wp_revertFailed wp_revertInterrupted wp_degrade
      wp_finishRevert) (use assms in \<open>auto intro!: keeps_loadForRevert keeps_upForRevert\<close>)

lemma wp_doRevert:
  assumes "mayUp" and "mayDown" and "C (LastHealthyCommit st)" and "T st" and "I w"
    and "\<And>r st' w'. I w' \<Longrightarrow> S st' \<or> T st' \<Longrightarrow> Q (r, st') w'"
  shows "wp (doRevert d c st stacks failed reason start) Q w"
  unfolding doRevert_def
  by (intro wp_intros wp_reads wp_Checkout wp_tearDown wp_revertFailed wp_degrade wp_applyRevert)
    (use assms in \<open>auto intro: T_checkout\<close>)

end

locale run_contract = acting_deps d I S C mayUp mayDown mayPull
  for d :: "'w Deps" and I :: "'w \<Rightarrow> bool" and S :: "State \<Rightarrow> bool" and C F P :: "string \<Rightarrow> bool"
    and mayUp mayDown mayPull :: bool +
  assumes S_frame: "S st \<Longrightarrow> sameRecord st st' \<Longrightarrow> S st'"
    and S_mark: "F commit \<Longrightarrow> S st \<Longrightarrow> S (MarkFailed st commit t)"
    and S_promote: "P commit \<Longrightarrow> S st \<Longrightarrow> S (promoted st commit names t)"
begin

lemma wp_recordOutcome:
  assumes "S st" "I w" "\<And>st' w'. I w' \<Longrightarrow> S st' \<Longrightarrow> LastHealthyCommit st' = LastHealthyCommit st \<Longrightarrow> Q st' w'"
  shows "wp (recordOutcome d st result commit) Q w"
  unfolding recordOutcome_def
  by (intro wp_intros wp_reads wp_save assms(1,2) assms(3)) (auto simp: sameRecord_def intro!: assms S_frame [OF assms(1)] split: option.splits)


text \<open>The states the writers leave differ from the one they are given in the fields of \<^const>\<open>sameRecord\<close>
  only by a mark or a promotion.\<close>

lemma S_marked: "F c \<Longrightarrow> S st \<Longrightarrow> sameRecord st st1 \<Longrightarrow> sameRecord (MarkFailed st1 c t) st2 \<Longrightarrow> S st2"
  by (rule S_frame [OF S_mark [OF _ S_frame]])

lemma S_degradedState:
  assumes "failed \<noteq> [] \<Longrightarrow> F failed" and "S st"
  shows "S (degradedState st failed t)"
proof (cases "failed = []")
  case True
  then show ?thesis
    by (intro S_frame [OF assms(2)]) (simp add: degradedState_def preflightRecovery_def sameRecord_def)
next
  case False
  then show ?thesis
    by (intro S_marked [OF assms(1) assms(2), of "st\<lparr>LastResult := ResultDegraded, LastAttemptAt := t, PendingCommit := [],
          PendingSince := zeroTime, PendingAttempts := 0, PendingStacks := [], PendingRevert := False\<rparr>"])
      (simp_all add: degradedState_def preflightRecovery_def sameRecord_def Let_def)
qed

lemma S_interruptedState:
  assumes "failed \<noteq> [] \<Longrightarrow> F failed" and "S st"
  shows "S (interruptedState st failed names t)"
proof -
  let ?n1 = "st\<lparr>PendingRevert := True, PendingCommit := failed\<rparr>"
  let ?n2 = "if names \<noteq> [] then ?n1\<lparr>PendingStacks := names\<rparr> else ?n1"
  let ?n3 = "if IsZero (PendingSince ?n2) then ?n2\<lparr>PendingSince := t\<rparr> else ?n2"
  have frame: "sameRecord st ?n3" by (simp add: sameRecord_def)
  show ?thesis
  proof (cases "failed = []")
    case True
    then have "interruptedState st failed names t = ?n3\<lparr>LastAttemptAt := t, LastResult := ResultFailedApply\<rparr>"
      by (simp add: interruptedState_def preflightRecovery_def Let_def)
    then show ?thesis by (intro S_frame [OF assms(2)]) (simp add: sameRecord_def)
  next
    case False
    then have "interruptedState st failed names t =
        (MarkFailed ?n3 failed t)\<lparr>LastAttemptCommit := failed, LastAttemptAt := t, LastResult := ResultFailedApply\<rparr>"
      by (simp add: interruptedState_def preflightRecovery_def Let_def)
    then show ?thesis
      using False by (intro S_marked [OF assms(1) assms(2) frame]) (simp_all add: sameRecord_def)
  qed
qed

lemma sameRecord_revertedState: "sameRecord st (revertedState st failed target t)"
  by (simp add: sameRecord_def revertedState_def Let_def)

lemma sameRecord_pendingState: "sameRecord st (pendingState st commit names t)"
  by (simp add: sameRecord_def pendingState_def Let_def)

lemma reverts:
  assumes "failed \<noteq> [] \<Longrightarrow> F failed"
  shows "revert_contract d I S C mayUp mayDown mayPull S failed"
  by unfold_locales
    (auto intro: S_degradedState S_interruptedState assms S_frame [OF _ sameRecord_revertedState] S_frame simp: sameRecord_def)

lemma wp_degrade:
  assumes "failed \<noteq> [] \<Longrightarrow> F failed" and "S st" and "I w" and "\<And>r st' w'. I w' \<Longrightarrow> S st' \<Longrightarrow> Q (r, st') w'"
  shows "wp (degrade d st failed target stacks e start) Q w"
  by (rule revert_contract.wp_degrade [OF reverts]) (use assms in auto)

lemma wp_doRevert:
  assumes "mayUp" and "mayDown" and "C (LastHealthyCommit st)" and "failed \<noteq> [] \<Longrightarrow> F failed" and "S st" and "I w"
    and "\<And>r st' w'. I w' \<Longrightarrow> S st' \<Longrightarrow> Q (r, st') w'"
  shows "wp (doRevert d c st stacks failed reason start) Q w"
  by (rule revert_contract.wp_doRevert [OF reverts]) (use assms in auto)


section \<open>Applying\<close>

lemma wp_abortBeforeUp:
  assumes "rs_OldCommit result \<noteq> [] \<Longrightarrow> C (rs_OldCommit result)" and "S st" and "I w"
    and "\<And>r st' w'. I w' \<Longrightarrow> S st' \<Longrightarrow> Q (r, st') w'"
  shows "wp (abortBeforeUp d c st result title e) Q w"
  unfolding abortBeforeUp_def
  by (intro wp_intros wp_reads wp_restoreCheckout wp_recordOutcome) (use assms in auto)

lemma wp_abortApply:
  assumes "rs_OldCommit result \<noteq> [] \<Longrightarrow> C (rs_OldCommit result)" and "\<not> IsInfraError e \<Longrightarrow> F (rs_NewCommit result)"
    and "S st" and "I w" and "\<And>r st' w'. I w' \<Longrightarrow> S st' \<Longrightarrow> Q (r, st') w'"
  shows "wp (abortApply d c st result title e) Q w"
  unfolding abortApply_def
  by (intro wp_intros wp_reads wp_abortBeforeUp) (use assms in \<open>auto intro: S_mark\<close>)

lemma wp_applyIncomplete:
  assumes "S st" and "I w" and "\<And>r st' w'. I w' \<Longrightarrow> S st' \<Longrightarrow> Q (r, st') w'"
  shows "wp (applyIncomplete d c st result title key e) Q w"
  unfolding applyIncomplete_def
  by (intro wp_intros wp_reads wp_recordOutcome) (use assms in auto)

lemma wp_applyInterrupted:
  assumes "S st" and "I w" and "\<And>r st' w'. I w' \<Longrightarrow> S st' \<Longrightarrow> Q (r, st') w'"
  shows "wp (applyInterrupted d st result n e) Q w"
  unfolding applyInterrupted_def
  by (intro wp_intros wp_reads wp_recordOutcome) (use assms in auto)

lemma wp_failAndRevert:
  assumes "mayUp" and "mayDown" and "C (LastHealthyCommit st)" and "F (rs_NewCommit result)" and "S st" and "I w"
    and "\<And>r st' w'. I w' \<Longrightarrow> S st' \<Longrightarrow> Q (r, st') w'"
  shows "wp (failAndRevert d c st stacks result reason start) Q w"
proof -
  have marked: "S ((MarkFailed st (rs_NewCommit result) t)\<lparr>LastResult := ResultFailedApply\<rparr>)" for t
    by (rule S_marked [OF assms(4,5)]) (simp_all add: sameRecord_def)
  show ?thesis
    unfolding failAndRevert_def
    by (intro wp_intros wp_reads wp_save wp_doRevert) (use assms marked in auto)
qed

lemma wp_promoteHealthy:
  assumes "P commit" and "S st" and "I w"
    and "\<And>r st' w'. I w' \<Longrightarrow> S st' \<Longrightarrow> Q (r, st') w'"
  shows "wp (promoteHealthy d st commit names) Q w"
  unfolding promoteHealthy_def
  by (intro wp_intros wp_reads wp_save) (use assms in \<open>auto intro: S_promote split: option.split\<close>)

lemma wp_applyNothing:
  assumes "mayDown" and "P (rs_NewCommit result)" and "S st" and "I w"
    and "\<And>r st' w'. I w' \<Longrightarrow> S st' \<Longrightarrow> Q (r, st') w'"
  shows "wp (applyNothing d c st result stacks vanished undetermined) Q w"
  unfolding applyNothing_def
  by (intro wp_intros wp_tearDown wp_applyIncomplete wp_promoteHealthy)
    (use assms in \<open>auto split: prod.split option.split\<close>)

lemma wp_watchAndPromote:
  assumes "mayUp" and "mayDown" and "C (LastHealthyCommit st)" and "F (rs_NewCommit result)" and "P (rs_NewCommit result)"
    and "S st" and "I w" and "\<And>r st' w'. I w' \<Longrightarrow> S st' \<Longrightarrow> Q (r, st') w'"
  shows "wp (watchAndPromote d c st result stacks changed vanished projects before start) Q w"
  unfolding watchAndPromote_def
  by (intro wp_intros wp_reads wp_tearDown wp_applyIncomplete wp_promoteHealthy wp_failAndRevert) (use assms in auto)

lemma wp_upAndWatch:
  assumes "mayUp" and "mayDown" and "C (LastHealthyCommit st)" and "F (rs_NewCommit result)" and "P (rs_NewCommit result)"
    and "S st" and "I w" and "\<And>r st' w'. I w' \<Longrightarrow> S st' \<Longrightarrow> Q (r, st') w'"
  shows "wp (upAndWatch d c st result stacks changed vanished projects before start) Q w"
  unfolding upAndWatch_def
  by (intro wp_intros wp_reads wp_keepsI [OF keeps_tryEach] wp_applyInterrupted wp_failAndRevert wp_watchAndPromote)
    (use assms in \<open>auto intro: keeps_upForApply\<close>)

lemma wp_applyChanged:
  assumes "mayUp" and "mayDown" and "mayPull" and "C (LastHealthyCommit st)"
    and "rs_OldCommit result \<noteq> [] \<Longrightarrow> C (rs_OldCommit result)" and "F (rs_NewCommit result)" and "P (rs_NewCommit result)"
    and "S st" and "I w" and "\<And>r st' w'. I w' \<Longrightarrow> S st' \<Longrightarrow> Q (r, st') w'"
  shows "wp (applyChanged d c st result stacks changed vanished before start) Q w"
proof -
  have pend: "S (pendingState st a b t)" "LastHealthyCommit (pendingState st a b t) = LastHealthyCommit st" for a b t
    using S_frame [OF assms(8) sameRecord_pendingState] sameRecord_pendingState [of st a b t] by (auto simp: sameRecord_def)
  show ?thesis
    unfolding applyChanged_def
    by (intro wp_intros wp_reads wp_keepsI [OF keeps_tryEach] wp_abortApply wp_abortBeforeUp wp_save wp_upAndWatch)
      (use assms pend in \<open>auto intro: keeps_loadForApply keeps_pullForApply\<close>)
qed

lemma wp_applyAndWatch:
  assumes "mayUp" and "mayDown" and "mayPull" and "C (LastHealthyCommit st)" and "C (rs_NewCommit result)"
    and "rs_OldCommit result \<noteq> [] \<Longrightarrow> C (rs_OldCommit result)" and "F (rs_NewCommit result)" and "P (rs_NewCommit result)"
    and "S st" and "I w" and "\<And>r st' w'. I w' \<Longrightarrow> S st' \<Longrightarrow> Q (r, st') w'"
  shows "wp (applyAndWatch d c st result previous pending before start) Q w"
  unfolding applyAndWatch_def
  by (intro wp_intros wp_reads wp_Checkout wp_abortApply wp_abortBeforeUp wp_applyNothing wp_applyChanged) (use assms in auto)

lemma wp_advanceCheckout:
  assumes "C (rs_NewCommit result)" and "rs_OldCommit result \<noteq> [] \<Longrightarrow> C (rs_OldCommit result)"
    and "S st" and "I w" and "\<And>r st' w'. I w' \<Longrightarrow> S st' \<Longrightarrow> Q (r, st') w'"
  shows "wp (advanceCheckout d c st result) Q w"
proof -
  have rec: "S (st\<lparr>LastCheckoutCommit := a, LastAttemptCommit := a, LastAttemptAt := t, LastResult := ResultSuccess\<rparr>)" for a t
    by (rule S_frame [OF assms(3)]) (simp add: sameRecord_def)
  show ?thesis
    unfolding advanceCheckout_def recordCheckout_def
    by (intro wp_intros wp_reads wp_Checkout wp_abortBeforeUp wp_save)
      (use assms rec in \<open>auto split: option.split prod.split\<close>)
qed

lemma wp_preflightBlocked:
  assumes "mayUp" and "mayDown" and "C (LastHealthyCommit st)" and "S st" and "I w"
    and "\<And>r st' w'. I w' \<Longrightarrow> S st' \<Longrightarrow> Q (r, st') w'"
  shows "wp (preflightBlocked d c opts st result previous reason start) Q w"
proof -
  have blocks: "S (st\<lparr>PreflightBlocks := n\<rparr>)" for n
    by (rule S_frame [OF assms(4)]) (simp add: sameRecord_def)
  show ?thesis
    unfolding preflightBlocked_def
    by (intro wp_intros wp_save wp_degrade wp_doRevert)
      (use assms blocks in \<open>auto simp: preflightRecovery_def split: option.splits if_splits\<close>)
qed


section \<open>Whole runs\<close>

lemma wp_clearPreflightBlocks:
  assumes "S st" and "I w"
    and "\<And>st' w'. I w' \<Longrightarrow> S st' \<Longrightarrow> LastHealthyCommit st' = LastHealthyCommit st \<Longrightarrow> Q st' w'"
  shows "wp (clearPreflightBlocks d st) Q w"
proof -
  have "S (st\<lparr>PreflightBlocks := 0\<rparr>)"
    by (rule S_frame [OF assms(1)]) (simp add: sameRecord_def)
  then show ?thesis
    unfolding clearPreflightBlocks_def
    by (intro wp_intros wp_save) (use assms in \<open>auto split: option.split\<close>)
qed

lemma wp_gateAndApply:
  assumes "\<not> op_DryRun opts \<Longrightarrow> mayUp \<and> mayDown \<and> mayPull" and "C (LastHealthyCommit st)" and "C (rs_NewCommit result)"
    and "rs_OldCommit result \<noteq> [] \<Longrightarrow> C (rs_OldCommit result)" and "F (rs_NewCommit result)" and "P (rs_NewCommit result)"
    and "S st" and "I w" and "\<And>r st' w'. I w' \<Longrightarrow> S st' \<Longrightarrow> Q (r, st') w'"
  shows "wp (gateAndApply d c opts st result previous start) Q w"
  unfolding gateAndApply_def
  by (intro wp_intros wp_reads wp_recordOutcome wp_preflightBlocked wp_clearPreflightBlocks wp_applyAndWatch)
    (use assms in auto)

lemma wp_gatherAndGate:
  assumes "\<not> op_DryRun opts \<Longrightarrow> mayUp \<and> mayDown \<and> mayPull" and "C (LastHealthyCommit st)" and "C (rs_NewCommit result)"
    and "rs_OldCommit result \<noteq> [] \<Longrightarrow> C (rs_OldCommit result)" and "F (rs_NewCommit result)" and "P (rs_NewCommit result)"
    and "S st" and "I w" and "\<And>r st' w'. I w' \<Longrightarrow> S st' \<Longrightarrow> Q (r, st') w'"
  shows "wp (gatherAndGate d c opts st result start) Q w"
  unfolding gatherAndGate_def
  by (intro wp_intros wp_reads wp_gateAndApply) (use assms in auto)

lemma wp_runFetched:
  assumes "\<not> op_DryRun opts \<Longrightarrow> mayUp \<and> mayDown \<and> mayPull" and "C (LastHealthyCommit st)" and "C (g_NewCommit g)"
    and "g_OldCommit g \<noteq> [] \<Longrightarrow> C (g_OldCommit g)" and "F (g_NewCommit g)" and "P (g_NewCommit g)"
    and "S st" and "I w" and "\<And>r st' w'. I w' \<Longrightarrow> S st' \<Longrightarrow> Q (r, st') w'"
  shows "wp (runFetched d c opts st g start) Q w"
  unfolding runFetched_def
  by (intro wp_intros wp_reads wp_recordOutcome wp_gatherAndGate wp_advanceCheckout) (use assms in auto)

lemma wp_runNormal:
  assumes "\<not> op_DryRun opts \<Longrightarrow> mayUp \<and> mayDown \<and> mayPull" and "\<And>x. C x" and "\<And>x. F x" and "\<And>x. P x"
    and "S st" and "I w" and "\<And>r st' w'. I w' \<Longrightarrow> S st' \<Longrightarrow> Q (r, st') w'"
  shows "wp (runNormal d c opts st start) Q w"
  unfolding runNormal_def
  by (intro wp_intros wp_reads wp_recordOutcome wp_runFetched) (use assms in auto)

lemma wp_countRecoveryAttempt:
  assumes "S st" and "I w"
    and "\<And>r st' w'. I w' \<Longrightarrow> S st' \<Longrightarrow> LastHealthyCommit st' = LastHealthyCommit st \<Longrightarrow> Q (r, st') w'"
  shows "wp (countRecoveryAttempt d st) Q w"
proof -
  have "S (st\<lparr>PendingAttempts := n\<rparr>)" for n
    by (rule S_frame [OF assms(1)]) (simp add: sameRecord_def)
  then show ?thesis
    unfolding countRecoveryAttempt_def
    by (intro wp_intros wp_save) (use assms in \<open>auto split: option.split\<close>)
qed

lemma wp_recoverStacks:
  assumes "mayUp" and "mayDown" and "mayPull" and "\<And>x. C x" and "\<And>x. F x" and "\<And>x. P x"
    and "S st" and "I w" and "\<And>r st' w'. I w' \<Longrightarrow> S st' \<Longrightarrow> Q (r, st') w'"
  shows "wp (recoverStacks d c st commit superseding discovered start) Q w"
  unfolding recoverStacks_def
  by (intro wp_intros wp_reads wp_countRecoveryAttempt wp_doRevert wp_applyAndWatch) (use assms in auto)

lemma wp_forceRecovery:
  assumes "S st" and "I w"
    and "\<And>st' w'. I w' \<Longrightarrow> S st' \<Longrightarrow> LastHealthyCommit st' = LastHealthyCommit st \<Longrightarrow> Q st' w'"
  shows "wp (forceRecovery d opts st) Q w"
proof -
  have "S (st\<lparr>PendingAttempts := n, PendingSince := t\<rparr>)" for n t
    by (rule S_frame [OF assms(1)]) (simp add: sameRecord_def)
  then show ?thesis
    unfolding forceRecovery_def by (intro wp_intros wp_reads) (use assms in auto)
qed

lemma wp_recoverFromCrash:
  assumes "\<not> op_DryRun opts \<Longrightarrow> mayUp \<and> mayDown \<and> mayPull" and "\<And>x. C x" and "\<And>x. F x" and "\<And>x. P x"
    and "S st" and "I w" and "\<And>r st' w'. I w' \<Longrightarrow> S st' \<Longrightarrow> Q (r, st') w'"
  shows "wp (recoverFromCrash d c opts st start) Q w"
  unfolding recoverFromCrash_def
  by (intro wp_intros wp_reads wp_forceRecovery wp_degrade wp_recoverStacks) (use assms in auto)

lemma wp_load:
  assumes "storeGives d I S" and "I w" and "\<And>r w'. I w' \<Longrightarrow> (\<And>st. r = Inr st \<Longrightarrow> S st) \<Longrightarrow> Q r w'"
  shows "wp (StoreLoad d) Q w"
proof (rule wpI)
  fix r w' assume run: "run_state (StoreLoad d) w = (r, w')"
  show "Q r w'"
  proof (rule assms(3))
    show "I w'" by (rule keepsD [OF store_load assms(2) run])
    show "S st" if "r = Inr st" for st using assms(1,2) run that by (auto simp: storeGives_def)
  qed
qed

lemma wp_reconcileLocked:
  assumes "unrestricted C F P (mayUp \<and> mayDown \<and> mayPull) opts" and "storeGives d I S" and "I w" and "\<And>r w'. I w' \<Longrightarrow> Q r w'"
  shows "wp (reconcileLocked d c opts start) Q w"
  unfolding reconcileLocked_def
  by (intro wp_intros wp_load keeps_ClockNow [THEN wp_keepsI] keeps_pausedRun [THEN wp_keepsI] wp_recoverFromCrash wp_runNormal)
    (use assms in \<open>auto simp: unrestricted_def\<close>)

lemma wp_recordHistory:
  assumes "storeGives d I S" and "historyGrows S" and "I w" and "\<And>r w'. I w' \<Longrightarrow> Q r w'"
  shows "wp (recordHistory d result t) Q w"
  unfolding recordHistory_def
  by (intro wp_intros wp_load wp_save) (use assms in \<open>auto simp: historyGrows_def\<close>)

lemma wp_underLock:
  assumes "unrestricted C F P (mayUp \<and> mayDown \<and> mayPull) opts" and "storeGives d I S" and "historyGrows S" and "I w" and "\<And>r w'. I w' \<Longrightarrow> Q r w'"
  shows "wp (underLock d c opts start) Q w"
  unfolding underLock_def
  by (intro wp_intros keeps_ClockNow [THEN wp_keepsI] wp_reconcileLocked wp_recordHistory) (use assms in auto)

lemma keeps_Reconcile:
  assumes "unrestricted C F P (mayUp \<and> mayDown \<and> mayPull) opts" and "storeGives d I S" and "historyGrows S"
    and locks: "\<And>tryLock unlock. Lock d = Some (tryLock, unlock) \<Longrightarrow> keeps I tryLock \<and> keeps I unlock"
    and flight: "keeps I (FlightTry d)" "keeps I (FlightUnlock d)" "keeps I (ActivityAdd d)"
    and ping: "\<And>c. keeps I (HeartbeatPing d c)"
  shows "keeps I (Reconcile d c opts)"
proof -
  have under: "keeps I (underLock d c opts start)" for start
    by (rule keeps_wpI, rule wp_underLock [OF assms(1-3)])
  have "keeps I (lockedRun d c opts start)" for start
    unfolding lockedRun_def using locks
    by (auto intro!: keeps_intros under split: option.split)
  then show ?thesis
    unfolding Reconcile_def
    by (intro keeps_intros flight ping keeps_since time_now keeps_addCommitContext)
qed

end

end
