(* ===== verification/Traces.thy ===== *)
theory Traces
  imports Contract
begin

text \<open>
  The contract at the traced dependencies. \<open>permits\<close> says which events a choice of the contract's
  parameters allows; \<open>extends\<close> is the invariant "the log is the given one, followed by permitted
  events". Each interpretation of \<open>run_contract\<close> below is one reading of all logs of a run; the
  theorems of \<open>RunProperties\<close> rest on them. The second part is a concrete host for witnesses.
\<close>

text \<open>\<open>u\<close>, \<open>dn\<close>, \<open>pl\<close>: whether stacks may be brought up, torn down, images pulled; \<open>lk\<close>: whether locks may
  be taken and pings and notifications sent.\<close>

fun permits ::
  "(State \<Rightarrow> bool) \<Rightarrow> (string \<Rightarrow> bool) \<Rightarrow> bool \<Rightarrow> bool \<Rightarrow> bool \<Rightarrow> bool \<Rightarrow> event \<Rightarrow> bool" where
  "permits S C u dn pl lk (EvGit args) \<longleftrightarrow>
     gitQuery args \<or> (\<exists>commit. args = [''checkout'', ''--detach'', ''--force'', commit] \<and> validCommit commit \<and> C commit)"
| "permits S C u dn pl lk EvPull \<longleftrightarrow> pl"
| "permits S C u dn pl lk EvUp \<longleftrightarrow> u"
| "permits S C u dn pl lk (EvDown _) \<longleftrightarrow> dn"
| "permits S C u dn pl lk (EvSave st _) \<longleftrightarrow> S st"
| "permits S C u dn pl lk (EvSnapshot _) \<longleftrightarrow> True"
| "permits S C u dn pl lk _ \<longleftrightarrow> lk"

definition extends :: "event list \<Rightarrow> (event \<Rightarrow> bool) \<Rightarrow> event list \<times> 'w \<Rightarrow> bool" where
  "extends es0 ok = (\<lambda>(es, w). \<exists>es'. es = es0 @ es' \<and> list_all ok es')"

lemma keeps_quiet_extends: "keeps (extends es0 ok) (quiet m)"
  unfolding extends_def by (rule keeps_quiet)

lemma keeps_logged_extends: "(\<And>a. ok (ev a)) \<Longrightarrow> keeps (extends es0 ok) (logged ev m)"
  unfolding extends_def by (rule keeps_logged) auto

lemma keeps_lock_extends:
  "(\<And>b. ok (EvLock b)) \<Longrightarrow> ok EvUnlock \<Longrightarrow> Lock (traced d) = Some (tryLock, unlock) \<Longrightarrow>
     keeps (extends es0 ok) tryLock \<and> keeps (extends es0 ok) unlock"
  by (auto simp: traced_def intro!: keeps_logged_extends)

lemma extends_self [simp]: "extends es0 ok (es0, w)"
  by (simp add: extends_def)

lemma extends_Nil [simp]: "extends [] ok (es, w) \<longleftrightarrow> list_all ok es"
  by (simp add: extends_def)

lemma traced_querying: "(\<And>args. gitQuery args \<Longrightarrow> ok (EvGit args)) \<Longrightarrow> querying_deps (traced d) (extends es0 ok)"
  by unfold_locales
    (simp_all add: traced_def tracedHost_def tracedGit_def keeps_quiet_extends keeps_logged_extends)

lemma traced_reading:
  "(\<And>args. gitQuery args \<Longrightarrow> ok (EvGit args)) \<Longrightarrow> (\<And>n. ok (EvSnapshot n)) \<Longrightarrow> reading_deps (traced d) (extends es0 ok)"
  by unfold_locales
    (simp_all add: traced_def tracedHost_def tracedGit_def keeps_quiet_extends keeps_logged_extends)

lemma traced_acting: "acting_deps (traced d) (extends es0 (permits S C u dn pl lk)) S C u dn pl"
proof (rule acting_deps.intro)
  show "reading_deps (traced d) (extends es0 (permits S C u dn pl lk))"
    by (rule traced_reading) simp_all
  show "acting_deps_axioms (traced d) (extends es0 (permits S C u dn pl lk)) S C u dn pl"
    by unfold_locales (auto simp: traced_def tracedGit_def intro!: keeps_logged_extends)
qed

lemma traced_contract:
  assumes "\<And>st st'. S st \<Longrightarrow> sameRecord st st' \<Longrightarrow> S st'"
    and "\<And>commit st t. F commit \<Longrightarrow> S st \<Longrightarrow> S (MarkFailed st commit t)"
    and "\<And>commit st names t. P commit \<Longrightarrow> S st \<Longrightarrow> S (promoted st commit names t)"
  shows "run_contract (traced d) (extends es0 (permits S C u dn pl lk)) S C F P u dn pl"
  by (rule run_contract.intro [OF traced_acting]) (unfold_locales, auto intro: assms)

text \<open>The effect of a traced save on the log.\<close>

lemma wp_traced_save:
  "(\<And>r w'. run_state (StoreSave d st) w = (r, w') \<Longrightarrow> Q r (es @ [EvSave st (r = None)], w')) \<Longrightarrow>
     wp (StoreSave (traced d) st) Q (es, w)"
  by (simp add: wp_def traced_def logged_def split: prod.splits)

lemma wp_quiet: "(\<And>a w'. run_state m w = (a, w') \<Longrightarrow> Q a (es, w')) \<Longrightarrow> wp (quiet m) Q (es, w)"
  by (simp add: wp_def quiet_def split: prod.splits)

lemma wp_logged: "(\<And>a w'. run_state m w = (a, w') \<Longrightarrow> Q a (es @ [ev a], w')) \<Longrightarrow> wp (logged ev m) Q (es, w)"
  by (simp add: wp_def logged_def split: prod.splits)

lemma wp_traced_now: "(\<And>t w'. Q t (es, w')) \<Longrightarrow> wp (ClockNow (traced d)) Q (es, w)"
  by (simp add: ClockNow_def traced_def wp_quiet)

lemma wp_traced_load:
  "(\<And>r w'. run_state (StoreLoad d) w = (r, w') \<Longrightarrow> Q r (es, w')) \<Longrightarrow> wp (StoreLoad (traced d)) Q (es, w)"
  by (simp add: traced_def wp_quiet)

text \<open>The operations of a whole run that are not part of the contract.\<close>

lemma keeps_traced_run:
  assumes "\<And>b. ok (EvLock b)" "ok EvUnlock" "\<And>b. ok (EvFlight b)" "ok EvFlightUnlock" "ok EvActivity" "ok EvPing"
  shows "Lock (traced d) = Some (tryLock, unlock) \<Longrightarrow> keeps (extends es0 ok) tryLock \<and> keeps (extends es0 ok) unlock"
    and "keeps (extends es0 ok) (FlightTry (traced d))" and "keeps (extends es0 ok) (FlightUnlock (traced d))"
    and "keeps (extends es0 ok) (ActivityAdd (traced d))" and "keeps (extends es0 ok) (HeartbeatPing (traced d) c)"
  using assms by (auto simp: traced_def intro!: keeps_logged_extends keeps_quiet_extends)

section \<open>The interpretations\<close>

text \<open>Runs on well-formed states, with nothing else restricted.\<close>

lemma wfState_sameRecord: "wfState st \<Longrightarrow> sameRecord st st' \<Longrightarrow> wfState st'"
  by (simp add: wfState_def sameRecord_def)

lemma wfState_promoted: "wfState st \<Longrightarrow> wfState (promoted st commit names t)"
  by (simp add: wfState_def promoted_def ForgetAllFailed_def)

interpretation wf_run: run_contract "traced d" "extends es0 (permits wfState (\<lambda>_. True) True True True True)"
  wfState "\<lambda>_. True" "\<lambda>_. True" "\<lambda>_. True" True True True for d :: "'w Deps" and es0
  by (rule traced_contract) (simp_all add: wfState_sameRecord wfState_MarkFailed wfState_promoted)

text \<open>Runs with nothing restricted, and runs that take no locks.\<close>

interpretation any_run: run_contract "traced d" "extends es0 (permits (\<lambda>_. True) (\<lambda>_. True) True True True lk)"
  "\<lambda>_. True" "\<lambda>_. True" "\<lambda>_. True" "\<lambda>_. True" True True True for d :: "'w Deps" and es0 lk
  by (rule traced_contract) simp_all

text \<open>Runs that may not touch Docker, and runs that may not bring a stack up.\<close>

interpretation dry_run: run_contract "traced d" "extends es0 (permits (\<lambda>_. True) (\<lambda>_. True) False False False True)"
  "\<lambda>_. True" "\<lambda>_. True" "\<lambda>_. True" "\<lambda>_. True" False False False for d :: "'w Deps" and es0
  by (rule traced_contract) simp_all

interpretation no_up: run_contract "traced d" "extends es0 (permits (\<lambda>_. True) (\<lambda>_. True) False True True True)"
  "\<lambda>_. True" "\<lambda>_. True" "\<lambda>_. True" "\<lambda>_. True" False True True for d :: "'w Deps" and es0
  by (rule traced_contract) simp_all

text \<open>Rolling back to the commit \<open>lh\<close>: nothing else is checked out and no state forgets it.\<close>

interpretation rollback: run_contract "traced d"
  "extends es0 (permits (\<lambda>s. LastHealthyCommit s = lh) (\<lambda>x. x = lh) True True False False)"
  "\<lambda>s. LastHealthyCommit s = lh" "\<lambda>x. x = lh" "\<lambda>_. True" "\<lambda>_. False" True True False
  for d :: "'w Deps" and es0 and lh :: string
  by (rule traced_contract) (simp_all add: sameRecord_def)

text \<open>After a failed apply: every state remembers the commit as bad.\<close>

lemma IsKnownBad_mark: "IsKnownBad st commit \<Longrightarrow> IsKnownBad (MarkFailed st commit t) commit"
  by (rule MarkFailed_known_bad) (auto simp: IsKnownBad_def)

lemma IsKnownBad_sameRecord: "IsKnownBad st commit \<Longrightarrow> sameRecord st st' \<Longrightarrow> IsKnownBad st' commit"
  by (auto simp: IsKnownBad_def sameRecord_def split: if_splits)

interpretation bad_run: run_contract "traced d"
  "extends es0 (permits (\<lambda>s. IsKnownBad s bad) (\<lambda>_. True) True True False False)"
  "\<lambda>s. IsKnownBad s bad" "\<lambda>_. True" "\<lambda>x. x = bad" "\<lambda>_. False" True True False
  for d :: "'w Deps" and es0 and bad :: string
  by (rule traced_contract) (auto intro: IsKnownBad_mark IsKnownBad_sameRecord)

text \<open>Runs that condemn no commit: the failed-commit memory stays what it was.\<close>

definition failedMemory :: "State \<Rightarrow> string \<times> string list" where
  "failedMemory s = (LastFailedCommit s, FailedCommits s)"

interpretation lenient: run_contract "traced d"
  "extends es0 (permits (\<lambda>s. failedMemory s = mem) (\<lambda>_. True) True True True False)"
  "\<lambda>s. failedMemory s = mem" "\<lambda>_. True" "\<lambda>_. False" "\<lambda>_. False" True True True
  for d :: "'w Deps" and es0 and mem
  by (rule traced_contract) (auto simp: sameRecord_def failedMemory_def)

text \<open>Programs that only read.\<close>

interpretation reads: reading_deps "traced d" "extends es0 (permits (\<lambda>_. False) (\<lambda>_. False) False False False False)"
  for d :: "'w Deps" and es0
  by (rule traced_reading) simp_all

text \<open>Any choice of permitted events.\<close>

interpretation acts: acting_deps "traced d" "extends es0 (permits S C u dn pl lk)" S C u dn pl
  for d :: "'w Deps" and es0 S C u dn pl lk
  by (rule traced_acting)

section \<open>Concrete dependencies\<close>

text \<open>
  A host with one compose project whose branch has moved from \<^verbatim>\<open>aaaa\<close> to \<^verbatim>\<open>bbbb\<close> by a change of the
  compose file. The health watch is off; \<open>st\<close> is what the store holds, \<open>up\<close> what \<^verbatim>\<open>compose up\<close> answers and
  \<open>snap\<close> what every snapshot shows.
\<close>

definition demoGit :: "'w Syncer" where
  "demoGit = \<lparr>Run = (\<lambda>c dir env name args. ret
       (if args = [''rev-parse'', ''--verify'', ''--end-of-options'', ''HEAD''] then ''aaaa''
        else if hd args = ''rev-parse'' then ''bbbb''
        else if hd args = ''diff'' then ''docker-compose.yml'' @ [CHR 0x00] else [], None)),
     RepoPath = ''/r'', Remote = ''origin'', Branch = ''main'', SSHKey = []\<rparr>"

definition demoProject :: Project where
  "demoProject = \<lparr>p_WorkingDir = ''/r'', p_ComposeFiles = [''/r/docker-compose.yml''],
     p_Services = [(''web'', \<lparr>svc_Image = ''nginx'', svc_EnvFiles = [], svc_Extends = None, svc_Build = None,
       svc_Provider = False, svc_PullPolicy = []\<rparr>)], p_Configs = [], p_Secrets = []\<rparr>"

definition calmDeps :: "State \<Rightarrow> err option \<Rightarrow> Snapshot \<Rightarrow> 'w Deps" where
  "calmDeps st up snap = \<lparr>
     Cfg = Default\<lparr>cfg_RepoPath := ''/r'', cfg_HealthWatchSeconds := 0\<rparr>,
     Git = demoGit,
     LoadProject = (\<lambda>c fs n. ret (Inr demoProject)),
     Pull = (\<lambda>c p. ret None), Up = (\<lambda>c p. ret up), Down = (\<lambda>c n. ret None),
     TakeSnapshot = (\<lambda>c n. ret (Inr snap)),
     Clk = \<lparr>Now = ret 1, Sleep = (\<lambda>c t. ret True)\<rparr>,
     StoreLoad = ret (Inr st), StoreSave = (\<lambda>st. ret None),
     NotifierEnabled = False, NotifierSendThrottled = (\<lambda>c k e. ret True), HeartbeatPing = (\<lambda>c. ret ()),
     Lock = Some (ret (Inr True), ret None),
     FlightTry = ret True, FlightUnlock = ret (), ActivityAdd = ret (), ActivityLoad = ret 0,
     CtxErr = (\<lambda>c. ret None), SleepCtx = (\<lambda>c t. ret True), TimeNow = ret 1,
     ZoneOffset = (\<lambda>t. 0), ParseURL = (\<lambda>s. None), HostOS = demoConfigHost,
     Schedule = (\<lambda>n. ret []), Admit = (\<lambda>c. ret True)\<rparr>"

abbreviation demoDeps :: "State \<Rightarrow> err option \<Rightarrow> Snapshot \<Rightarrow> unit Deps" where
  "demoDeps \<equiv> calmDeps"

lemmas demoDeps_def = calmDeps_def

definition demoOpts :: RunOptions where
  "demoOpts = \<lparr>op_DryRun = False, op_Force = False, op_Trigger = ''cli''\<rparr>"

definition demoState :: State where
  "demoState = New\<lparr>LastHealthyCommit := ''aaaa'', LastCheckoutCommit := ''aaaa''\<rparr>"

lemma demo_run: obtains r es where "run_state m ([], ()) = (r, (es, ()))"
  by (cases "run_state m ([], ())") auto

lemma demo_pair_run: obtains r st' es where "run_state m ([], ()) = ((r, st'), (es, ()))"
  by (cases "run_state m ([], ())") auto

text \<open>
  A host with memory: the commit that is checked out and the stored state. The branch is at \<^verbatim>\<open>bbbb\<close> and
  differs by the file \<open>file\<close> from every checkout; \<open>upOf\<close> says what \<^verbatim>\<open>compose up\<close> answers at a commit. Runs on
  it, rollbacks included, are evaluated in full by the witnesses.
\<close>

record repo =
  r_Head :: string
  r_State :: State

definition repoGit :: "string \<Rightarrow> repo Syncer" where
  "repoGit file = \<lparr>Run = (\<lambda>c dir env name args.
       if hd args = ''checkout'' then do { w \<leftarrow> State_Monad.get; State_Monad.set (w\<lparr>r_Head := last args\<rparr>); ret ([], None) }
       else if hd args = ''rev-parse'' then do { w \<leftarrow> State_Monad.get; ret (if last args = ''HEAD'' then r_Head w else ''bbbb'', None) }
       else ret (if hd args = ''diff'' then file @ [CHR 0x00] else [], None)),
     RepoPath = ''/r'', Remote = ''origin'', Branch = ''main'', SSHKey = []\<rparr>"

definition repoDeps :: "string \<Rightarrow> (string \<Rightarrow> err option) \<Rightarrow> repo Deps" where
  "repoDeps file upOf = \<lparr>
     Cfg = Default\<lparr>cfg_RepoPath := ''/r'', cfg_HealthWatchSeconds := 0\<rparr>,
     Git = repoGit file,
     LoadProject = (\<lambda>c fs n. ret (Inr demoProject)),
     Pull = (\<lambda>c p. ret None), Up = (\<lambda>c p. do { w \<leftarrow> State_Monad.get; ret (upOf (r_Head w)) }), Down = (\<lambda>c n. ret None),
     TakeSnapshot = (\<lambda>c n. ret (Inr demoSnapshot)),
     Clk = \<lparr>Now = ret 1, Sleep = (\<lambda>c t. ret True)\<rparr>,
     StoreLoad = do { w \<leftarrow> State_Monad.get; ret (Inr (r_State w)) },
     StoreSave = (\<lambda>st. do { w \<leftarrow> State_Monad.get; State_Monad.set (w\<lparr>r_State := st\<rparr>); ret None }),
     NotifierEnabled = False, NotifierSendThrottled = (\<lambda>c k e. ret True), HeartbeatPing = (\<lambda>c. ret ()),
     Lock = Some (ret (Inr True), ret None),
     FlightTry = ret True, FlightUnlock = ret (), ActivityAdd = ret (), ActivityLoad = ret 0,
     CtxErr = (\<lambda>c. ret None), SleepCtx = (\<lambda>c t. ret True), TimeNow = ret 1,
     ZoneOffset = (\<lambda>t. 0), ParseURL = (\<lambda>s. None),
     HostOS = demoConfigHost\<lparr>yamlDecode := (\<lambda>_. ([YMap [(''services'', YMap [])]], None))\<rparr>,
     Schedule = (\<lambda>n. ret []), Admit = (\<lambda>c. ret True)\<rparr>"
definition upFailsAt :: "string \<Rightarrow> string \<Rightarrow> err option" where
  "upFailsAt commit head = (if head = commit then Some (errorf ''port already allocated'') else None)"

definition repoAt :: "State \<Rightarrow> repo" where
  "repoAt st = \<lparr>r_Head = ExpectedCheckout st, r_State = st\<rparr>"

text \<open>The log and the final world of a run on this host; the run in which \<^verbatim>\<open>bbbb\<close> does not come up.\<close>

definition repoRun :: "string \<Rightarrow> string \<Rightarrow> RunOptions \<Rightarrow> State \<Rightarrow> RunResult \<times> event list \<times> repo" where
  "repoRun file bad opts st = run_state (Reconcile (traced (repoDeps file (upFailsAt bad))) CallerCtx opts) ([], repoAt st)"

lemma repoRun_traced:
  obtains r es w where "repoRun file bad opts st = (r, (es, w))"
    "run_state (Reconcile (traced (repoDeps file (upFailsAt bad))) CallerCtx opts) ([], repoAt st) = (r, (es, w))"
  by (cases "repoRun file bad opts st") (auto simp: repoRun_def)

end
