(* ===== verification/RunProperties.thy ===== *)
theory RunProperties
  imports Traces
begin

text \<open>
  What runs do, as properties of their logs: whole runs of \<open>Reconcile\<close>, then rollbacks, applying a
  commit, the pre-flight gate, crash recovery and the locks.
\<close>

section \<open>Whole runs\<close>

text \<open>C13: whatever happens during a run, every state it saves is well-formed, provided the store hands out
  well-formed states: the failed-commit memory stays a bounded set that contains the latest
  failure and the history stays bounded on every path, error paths and rollbacks included.\<close>

theorem run_saves_wf_states:
  assumes "run_state (Reconcile (traced d) c opts) ([], w) = (r, (es, w'))"
    and "\<forall>w st w'. run_state (StoreLoad d) w = (Inr st, w') \<longrightarrow> wfState st"
    and "EvSave s ok \<in> set es"
  shows "wfState s"
proof -
  have "keeps (extends [] (permits wfState (\<lambda>_. True) True True True True)) (Reconcile (traced d) c opts)"
  proof (rule wf_run.keeps_Reconcile)
    show "storeGives (traced d) (extends [] (permits wfState (\<lambda>_. True) True True True True)) wfState"
      using assms(2) by (auto simp: storeGives_def traced_def quiet_def split: prod.splits)
  qed (simp_all add: historyGrows_def wfState_Record unrestricted_def keeps_traced_run)
  from keepsD [OF this _ assms(1)] assms(3) show ?thesis by (auto simp: list_all_iff)
qed

theorem run_saves_wf_states_witness:
  "\<exists>r es. run_state (Reconcile (traced (demoDeps demoState None demoSnapshot)) CallerCtx demoOpts) ([], ()) = (r, (es, ()))
     \<and> list_all (\<lambda>e. case e of EvSave st ok \<Rightarrow> wfState st | _ \<Rightarrow> True) es"
proof -
  obtain r es where run: "run_state (Reconcile (traced (demoDeps demoState None demoSnapshot)) CallerCtx demoOpts) ([], ())
      = (r, (es, ()))" by (rule demo_run)
  have "\<forall>w st w'. run_state (StoreLoad (demoDeps demoState None demoSnapshot)) w = (Inr st, w') \<longrightarrow> wfState st"
    by (simp add: demoDeps_def demoState_def wfState_def New_def zeroState_def)
  from run_saves_wf_states [OF run this] run show ?thesis
    by (auto simp: list_all_iff split: event.split)
qed

text \<open>C14: a dry run never pulls images, starts containers or tears a stack down, whatever the repository,
  the state file and Docker answer.\<close>

theorem dry_run_leaves_docker_alone:
  assumes "op_DryRun opts"
    and "run_state (Reconcile (traced d) c opts) ([], w) = (r, (es, w'))"
  shows "EvUp \<notin> set es \<and> EvPull \<notin> set es \<and> EvDown n \<notin> set es"
proof -
  have "keeps (extends [] (permits (\<lambda>_. True) (\<lambda>_. True) False False False True)) (Reconcile (traced d) c opts)"
    by (rule dry_run.keeps_Reconcile)
      (simp_all add: storeGives_def historyGrows_def unrestricted_def assms(1) keeps_traced_run)
  from keepsD [OF this _ assms(2)] show ?thesis by (auto simp: list_all_iff)
qed

theorem dry_run_leaves_docker_alone_witness:
  "\<exists>r es w. repoRun ''docker-compose.yml'' ''bbbb'' (demoOpts\<lparr>op_DryRun := True\<rparr>) demoState = (r, (es, w))
     \<and> rs_Changed r \<and> EvUp \<notin> set es"
proof -
  let ?opts = "demoOpts\<lparr>op_DryRun := True\<rparr>"
  obtain r es w where run: "repoRun ''docker-compose.yml'' ''bbbb'' ?opts demoState = (r, (es, w))"
    "run_state (Reconcile (traced (repoDeps ''docker-compose.yml'' (upFailsAt ''bbbb''))) CallerCtx ?opts) ([], repoAt demoState) = (r, (es, w))"
    by (rule repoRun_traced)
  have "rs_Changed (fst (repoRun ''docker-compose.yml'' ''bbbb'' ?opts demoState))" by code_simp
  moreover have "op_DryRun ?opts" by simp
  ultimately show ?thesis using dry_run_leaves_docker_alone [OF _ run(2)] run(1) by simp
qed

text \<open>Every git command of a run is a query or a forced checkout of a commit id: a run never hands git a
  checkout of anything that is not 4 to 64 hexadecimal characters, on no path.\<close>

theorem run_checks_out_commit_ids:
  assumes "run_state (Reconcile (traced d) c opts) ([], w) = (r, (es, w'))" and "EvGit args \<in> set es"
  shows "gitQuery args \<or> (\<exists>commit. args = [''checkout'', ''--detach'', ''--force'', commit] \<and> validCommit commit)"
proof -
  let ?ok = "permits (\<lambda>_. True) (\<lambda>_. True) True True True True"
  have "keeps (extends [] ?ok) (Reconcile (traced d) c opts)"
    by (rule any_run.keeps_Reconcile)
      (simp_all add: storeGives_def historyGrows_def unrestricted_def keeps_traced_run)
  from keepsD [OF this _ assms(1)] have "list_all ?ok es" by simp
  with assms(2) have "?ok (EvGit args)" unfolding list_all_iff by blast
  then show ?thesis by simp
qed

theorem run_checks_out_commit_ids_witness:
  "\<exists>r es w. repoRun ''docker-compose.yml'' ''bbbb'' demoOpts demoState = (r, (es, w)) \<and> rs_Reverted r
     \<and> EvGit [''checkout'', ''--detach'', ''--force'', ''aaaa''] \<in> set es
     \<and> EvGit [''checkout'', ''--detach'', ''--force'', ''main''] \<notin> set es"
proof -
  obtain r es w where run: "repoRun ''docker-compose.yml'' ''bbbb'' demoOpts demoState = (r, (es, w))"
    "run_state (Reconcile (traced (repoDeps ''docker-compose.yml'' (upFailsAt ''bbbb''))) CallerCtx demoOpts) ([], repoAt demoState) = (r, (es, w))"
    by (rule repoRun_traced)
  have "let (r, es, w) = repoRun ''docker-compose.yml'' ''bbbb'' demoOpts demoState in
      rs_Reverted r \<and> EvGit [''checkout'', ''--detach'', ''--force'', ''aaaa''] \<in> set es" by code_simp
  moreover have "\<not> validCommit ''main''" by code_simp
  ultimately show ?thesis using run_checks_out_commit_ids [OF run(2), of "[''checkout'', ''--detach'', ''--force'', ''main'']"] run(1)
    by (auto simp: gitQuery_def)
qed

section \<open>Rollbacks\<close>

text \<open>C1: a rollback goes to the last healthy commit and nowhere else: from the moment a revert starts,
  the only commit that is checked out is the last healthy one of the state it was given, no image is
  pulled, and every state it saves still names that commit as the last healthy one, whether the
  rollback succeeds, is interrupted or ends degraded.\<close>

theorem rollback_only_to_last_healthy:
  assumes "run_state (doRevert (traced d) c st stacks failed reason start) ([], w) = ((r, st'), (es, w'))"
  shows "(\<forall>args. EvGit args \<in> set es \<and> \<not> gitQuery args \<longrightarrow>
            args = [''checkout'', ''--detach'', ''--force'', LastHealthyCommit st])
    \<and> EvPull \<notin> set es
    \<and> (\<forall>s ok. EvSave s ok \<in> set es \<longrightarrow> LastHealthyCommit s = LastHealthyCommit st)
    \<and> LastHealthyCommit st' = LastHealthyCommit st"
proof -
  let ?lh = "LastHealthyCommit st"
  let ?ok = "permits (\<lambda>s. LastHealthyCommit s = ?lh) (\<lambda>x. x = ?lh) True True False False"
  have "wp (doRevert (traced d) c st stacks failed reason start)
      (\<lambda>p v. extends [] ?ok v \<and> LastHealthyCommit (snd p) = ?lh) ([], w)"
    by (rule rollback.wp_doRevert) auto
  from wpD [OF this assms] have all: "\<forall>e \<in> set es. ?ok e" and lh: "LastHealthyCommit st' = ?lh"
    by (simp_all add: list_all_iff)
  from lh show ?thesis by (auto dest: all [rule_format])
qed

theorem rollback_only_to_last_healthy_witness:
  "\<exists>r st' es w. run_state (doRevert (traced (repoDeps ''docker-compose.yml'' (upFailsAt ''bbbb''))) CallerCtx demoState [bareStack ''my-stack'']
       ''bbbb'' ''broken'' 0) ([], repoAt demoState) = ((r, st'), (es, w)) \<and> EvUp \<in> set es \<and> LastHealthyCommit st' = ''aaaa''
     \<and> EvGit [''checkout'', ''--detach'', ''--force'', ''bbbb''] \<notin> set es"
proof -
  let ?run = "run_state (doRevert (traced (repoDeps ''docker-compose.yml'' (upFailsAt ''bbbb''))) CallerCtx demoState [bareStack ''my-stack'']
       ''bbbb'' ''broken'' 0) ([], repoAt demoState)"
  obtain r st' es w where run: "?run = ((r, st'), (es, w))" by (metis prod.collapse)
  have "EvUp \<in> set (fst (snd ?run))" by code_simp
  moreover have "\<not> gitQuery [''checkout'', ''--detach'', ''--force'', ''bbbb'']" "LastHealthyCommit demoState = ''aaaa''"
    by code_simp+
  ultimately show ?thesis using rollback_only_to_last_healthy [OF run] run by auto
qed

text \<open>C9: a failed apply condemns the commit: from the moment a commit fails to come up or fails its health
  watch, every state that is saved and the state the run ends with know the commit as bad, so that
  no later run without \<^verbatim>\<open>--force\<close> applies it again.\<close>

theorem failed_apply_marks_known_bad:
  assumes "run_state (failAndRevert (traced d) c st stacks result reason start) ([], w) = ((r, st'), (es, w'))"
    and "rs_NewCommit result \<noteq> []"
  shows "(\<forall>s ok. EvSave s ok \<in> set es \<longrightarrow> IsKnownBad s (rs_NewCommit result)) \<and> IsKnownBad st' (rs_NewCommit result)"
proof -
  let ?bad = "rs_NewCommit result"
  let ?ok = "permits (\<lambda>s. IsKnownBad s ?bad) (\<lambda>_. True) True True False False"
  have marked: "IsKnownBad ((MarkFailed st ?bad t)\<lparr>LastResult := ResultFailedApply\<rparr>) ?bad" for t
    using assms(2) by (simp add: IsKnownBad_def)
  have "wp (failAndRevert (traced d) c st stacks result reason start) (\<lambda>p v. extends [] ?ok v \<and> IsKnownBad (snd p) ?bad) ([], w)"
    unfolding failAndRevert_def
    by (intro wp_intros bad_run.wp_reads bad_run.wp_save [where bad = ?bad] bad_run.wp_doRevert [where bad = ?bad])
      (auto simp: marked)
  from wpD [OF this assms(1)] show ?thesis by (auto simp: list_all_iff)
qed

theorem failed_apply_marks_known_bad_witness:
  "\<exists>r st' es w. run_state (failAndRevert (traced (repoDeps ''docker-compose.yml'' (upFailsAt ''bbbb''))) CallerCtx demoState [bareStack ''my-stack'']
       (emptyResult\<lparr>rs_NewCommit := ''bbbb''\<rparr>) ''broken'' 0) ([], repoAt demoState) = ((r, st'), (es, w))
     \<and> rs_Reverted r \<and> IsKnownBad st' ''bbbb''"
proof -
  let ?run = "run_state (failAndRevert (traced (repoDeps ''docker-compose.yml'' (upFailsAt ''bbbb''))) CallerCtx demoState [bareStack ''my-stack'']
       (emptyResult\<lparr>rs_NewCommit := ''bbbb''\<rparr>) ''broken'' 0) ([], repoAt demoState)"
  obtain r st' es w where run: "?run = ((r, st'), (es, w))" by (metis prod.collapse)
  have "rs_Reverted (fst (fst ?run))" by code_simp
  with failed_apply_marks_known_bad [OF run] run show ?thesis by simp
qed

section \<open>Applying a commit\<close>

text \<open>Every \<^verbatim>\<open>compose up\<close> of the log comes after a successful save that names the commit as pending and
  as the checkout.\<close>

definition upsRecorded :: "string \<Rightarrow> event list \<Rightarrow> bool" where
  "upsRecorded commit es \<longleftrightarrow> (\<forall>pre post. es = pre @ EvUp # post \<longrightarrow>
     (\<exists>s. EvSave s True \<in> set pre \<and> PendingCommit s = commit \<and> LastCheckoutCommit s = commit))"

lemma upsRecorded_none: "EvUp \<notin> set es \<Longrightarrow> upsRecorded commit es"
  by (auto simp: upsRecorded_def)

lemma upsRecorded_saved:
  assumes "EvUp \<notin> set es" and "PendingCommit s = commit" and "LastCheckoutCommit s = commit"
  shows "upsRecorded commit (es @ [EvSave s True] @ es')"
  unfolding upsRecorded_def
  using assms by (auto simp: append_eq_append_conv2 append_eq_Cons_conv Cons_eq_append_conv)

lemma wp_upAndWatch_recorded:
  assumes "EvUp \<notin> set es" and "PendingCommit st = commit" and "LastCheckoutCommit st = commit"
  shows "wp (upAndWatch (traced d) c st result stacks changed vanished projects before start)
     (\<lambda>_ v. upsRecorded commit (fst v)) (es @ [EvSave st True], w)"
proof (rule any_run.wp_upAndWatch [where lk = True])
  show "extends (es @ [EvSave st True]) (permits (\<lambda>_. True) (\<lambda>_. True) True True True True) (es @ [EvSave st True], w)"
    by simp
next
  fix r st' and v :: "event list \<times> 'a"
  assume "extends (es @ [EvSave st True]) (permits (\<lambda>_. True) (\<lambda>_. True) True True True True) v"
  then obtain es' where "fst v = es @ [EvSave st True] @ es'" by (cases v) (auto simp: extends_def)
  then show "upsRecorded commit (fst v)" by (simp only: upsRecorded_saved [OF assms])
qed simp_all

lemma pendingState_pending [simp]:
  "PendingCommit (pendingState st commit names now) = commit" "LastCheckoutCommit (pendingState st commit names now) = commit"
  by (simp_all add: pendingState_def Let_def)

text \<open>Logs without \<^verbatim>\<open>compose up\<close>, and what is recorded in them.\<close>

lemma noUp_fst: "extends es (permits S C False dn pl lk) v \<Longrightarrow> EvUp \<notin> set es \<Longrightarrow> EvUp \<notin> set (fst v)"
  by (cases v) (auto simp: extends_def list_all_iff dest: bspec [where x = EvUp])

lemma wp_savePending_recorded:
  assumes "extends es (permits (\<lambda>_. True) (\<lambda>_. True) False True True True) v" and "EvUp \<notin> set es"
    and upd: "PendingCommit next = commit" "LastCheckoutCommit next = commit"
  shows "wp (StoreSave (traced d) next \<bind> (\<lambda>saved. case saved of
        Some e \<Rightarrow> abortBeforeUp (traced d) c st result t (g e)
      | None \<Rightarrow> upAndWatch (traced d) c next result stacks changed vanished projects before start))
      (\<lambda>_ v. upsRecorded commit (fst v)) v"
proof -
  obtain es1 w1 where v: "v = (es1, w1)" by (cases v)
  have clean: "EvUp \<notin> set es1" using noUp_fst [OF assms(1,2)] by (simp add: v)
  have abort: "wp (abortBeforeUp (traced d) c st result t x) (\<lambda>_ v. upsRecorded commit (fst v)) (es1 @ [EvSave next False], w')" for x w'
    by (rule no_up.wp_abortBeforeUp [where ?es0.0 = "es1 @ [EvSave next False]"])
      (use clean in \<open>auto intro!: upsRecorded_none dest: noUp_fst\<close>)
  show ?thesis
    unfolding v
    by (intro wp_bindI wp_traced_save)
      (auto split: option.split intro: abort wp_upAndWatch_recorded [OF clean upd])
qed

lemma wp_applyChanged_recorded:
  assumes "EvUp \<notin> set es"
  shows "wp (applyChanged (traced d) c st result stacks changed vanished before start)
     (\<lambda>_ v. upsRecorded (rs_NewCommit result) (fst v)) (es, w)"
proof -
  let ?J = "extends es (permits (\<lambda>_. True) (\<lambda>_. True) False True True True) :: event list \<times> 'a \<Rightarrow> bool"
  have fin: "upsRecorded x (fst v)" if "?J v" for x v
    using noUp_fst [OF that assms] by (rule upsRecorded_none)
  show ?thesis
    unfolding applyChanged_def
    by (intro wp_bindI [where m = "tryEach _ _"] wp_bindI [where m = "ClockNow _"] wp_keepsI [where I = ?J] wp_sumI wp_prodI wp_LetI
        keeps_tryEach no_up.keeps_ClockNow no_up.keeps_loadForApply no_up.keeps_pullForApply TrueI
        no_up.wp_abortApply [where ?es0.0 = es] wp_savePending_recorded [where es = es])
      (simp_all add: assms fin)
qed

text \<open>C2: the deployment is recorded before it happens. In applying a commit, no container is touched by
  \<^verbatim>\<open>compose up\<close>, not even in the rollback that may follow, before a state that names the commit as
  pending and as the current checkout has been saved successfully: a crash at any moment leaves a
  state file from which the next run recovers.\<close>

theorem pending_saved_before_up:
  assumes "run_state (applyAndWatch (traced d) c st result previous pending before start) ([], w) = (r, (es, w'))"
  shows "upsRecorded (rs_NewCommit result) es"
proof -
  let ?J = "extends [] (permits (\<lambda>_. True) (\<lambda>_. True) False True True True) :: event list \<times> 'a \<Rightarrow> bool"
  have clean: "EvUp \<notin> set (fst v)" if "?J v" for v
    by (rule noUp_fst [OF that]) simp
  have changed: "wp (applyChanged (traced d) c st result stacks ch van before start) (\<lambda>_ v. upsRecorded (rs_NewCommit result) (fst v)) v"
    if "?J v" for stacks ch van v
    using clean [OF that] by (cases v) (auto intro!: wp_applyChanged_recorded)
  have "wp (applyAndWatch (traced d) c st result previous pending before start) (\<lambda>_ v. upsRecorded (rs_NewCommit result) (fst v)) ([], w)"
    unfolding applyAndWatch_def
    by (intro wp_intros no_up.wp_Checkout [where ?es0.0 = "[]"] no_up.wp_abortBeforeUp [where ?es0.0 = "[]"]
        no_up.wp_abortApply [where ?es0.0 = "[]"] no_up.wp_applyNothing [where ?es0.0 = "[]"]
        wp_keepsI [OF no_up.keeps_stacks, where ?es0.1 = "[]"] wp_keepsI [OF no_up.keeps_changedStacksOf, where ?es0.1 = "[]"] changed)
      (simp_all add: clean upsRecorded_none)
  from wpD [OF this assms] show ?thesis by simp
qed

theorem pending_saved_before_up_witness:
  "\<exists>r es. run_state (applyAndWatch (traced (demoDeps demoState None demoSnapshot)) CallerCtx demoState
       (emptyResult\<lparr>rs_NewCommit := ''bbbb''\<rparr>) [] [] Map.empty 0) ([], ()) = (r, (es, ())) \<and> EvUp \<in> set es \<and> upsRecorded ''bbbb'' es"
proof -
  let ?run = "run_state (applyAndWatch (traced (demoDeps demoState None demoSnapshot)) CallerCtx demoState
       (emptyResult\<lparr>rs_NewCommit := ''bbbb''\<rparr>) [] [] Map.empty 0) ([], ())"
  obtain r es where run: "?run = (r, (es, ()))" by (rule demo_run)
  have "EvUp \<in> set (fst (snd ?run))" by code_simp
  with pending_saved_before_up [OF run] run show ?thesis by simp
qed

end
