(* ===== verification/RunRecovery.thy ===== *)
theory RunRecovery
  imports RunProperties
begin

text \<open>
  What a run refuses to do, and how crash recovery ends: known-bad commits, paused and degraded
  systems, the attempt limit of recovery.
\<close>

section \<open>Refusals\<close>

text \<open>A commit that is known as bad is skipped: without \<^verbatim>\<open>--force\<close> nothing is checked out, pulled, started
  or torn down; the run only notes the skip in a state with the same record of commits.\<close>

theorem known_bad_skipped:
  assumes "run_state (runFetched (traced d) c opts st g start) ([], w) = ((r, st'), (es, w'))"
    and "IsKnownBad st (g_NewCommit g)" and "\<not> op_Force opts" and "g_Changed g"
  shows "rs_Skipped r \<and> \<not> rs_Applied r \<and> rs_Err r = None \<and> sameRecord st st' \<and>
    (\<exists>s ok. es = [EvSave s ok] \<and> sameRecord st s \<and> PendingCommit s = PendingCommit st \<and> LastResult s = ResultSkippedKnownBad)"
proof -
  let ?Q = "\<lambda>(r, st') v. rs_Skipped r \<and> \<not> rs_Applied r \<and> rs_Err r = None \<and> sameRecord st st' \<and>
    (\<exists>s ok. fst v = [EvSave s ok] \<and> sameRecord st s \<and> PendingCommit s = PendingCommit st \<and> LastResult s = ResultSkippedKnownBad)"
  have "wp (runFetched (traced d) c opts st g start) ?Q ([], w)"
    using assms(2-4) unfolding runFetched_def recordOutcome_def
    by (simp add: Let_def emptyResult_def)
      (intro wp_intros wp_traced_now wp_traced_save, auto simp: sameRecord_def split: option.split)
  from wpD [OF this assms(1)] show ?thesis by simp
qed

theorem known_bad_skipped_witness:
  "\<exists>r st' es w. run_state (runFetched (traced (repoDeps ''docker-compose.yml'' (upFailsAt ''bbbb''))) CallerCtx demoOpts
       (MarkFailed demoState ''bbbb'' 1) \<lparr>g_Changed = True, g_OldCommit = ''aaaa'', g_NewCommit = ''bbbb'', g_ChangedFiles = []\<rparr> 0)
       ([], repoAt demoState) = ((r, st'), (es, w)) \<and> rs_Skipped r \<and> EvUp \<notin> set es"
proof -
  let ?g = "\<lparr>g_Changed = True, g_OldCommit = ''aaaa'', g_NewCommit = ''bbbb'', g_ChangedFiles = []\<rparr>"
  obtain r st' es w where run: "run_state (runFetched (traced (repoDeps ''docker-compose.yml'' (upFailsAt ''bbbb''))) CallerCtx demoOpts
       (MarkFailed demoState ''bbbb'' 1) ?g 0) ([], repoAt demoState) = ((r, st'), (es, w))"
    by (metis prod.collapse)
  have "IsKnownBad (MarkFailed demoState ''bbbb'' 1) (g_NewCommit ?g)" "\<not> op_Force demoOpts" "g_Changed ?g" by code_simp+
  from known_bad_skipped [OF run this] run show ?thesis by auto
qed

text \<open>A degraded system is left alone: without \<^verbatim>\<open>--force\<close> the run does nothing at all, not even a git
  command, and reports the commit that degraded it.\<close>

theorem degraded_refuses:
  assumes "run_state (reconcileLocked (traced d) c opts start) ([], w) = (r, (es, w'))"
    and "run_state (StoreLoad d) w = (Inr st, w1)" and "LastResult st = ResultDegraded" and "\<not> op_Force opts"
    and "IsZero (PausedAt st)"
  shows "es = [] \<and> rs_Degraded r \<and> rs_Err r = Some errDegraded \<and> rs_NewCommit r = LastAttemptCommit st"
proof -
  have "wp (reconcileLocked (traced d) c opts start)
      (\<lambda>r v. fst v = [] \<and> rs_Degraded r \<and> rs_Err r = Some errDegraded \<and> rs_NewCommit r = LastAttemptCommit st) ([], w)"
    unfolding reconcileLocked_def
    by (intro wp_bindI wp_traced_load wp_sumI wp_traced_now) (use assms(2-5) in \<open>auto simp: Paused_def wp_return\<close>)
  from wpD [OF this assms(1)] show ?thesis by simp
qed

theorem degraded_refuses_witness:
  "\<exists>r es w. run_state (reconcileLocked (traced (repoDeps ''docker-compose.yml'' (upFailsAt ''bbbb''))) CallerCtx demoOpts 0)
       ([], repoAt (demoState\<lparr>LastResult := ResultDegraded\<rparr>)) = (r, (es, w)) \<and> es = [] \<and> rs_Degraded r"
proof -
  let ?d = "repoDeps ''docker-compose.yml'' (upFailsAt ''bbbb'')" and ?st = "demoState\<lparr>LastResult := ResultDegraded\<rparr>"
  obtain r es w where run: "run_state (reconcileLocked (traced ?d) CallerCtx demoOpts 0) ([], repoAt ?st) = (r, (es, w))"
    by (metis prod.collapse)
  have "run_state (StoreLoad ?d) (repoAt ?st) = (Inr ?st, repoAt ?st)" by (simp add: repoDeps_def repoAt_def)
  moreover have "LastResult ?st = ResultDegraded" "\<not> op_Force demoOpts" "IsZero (PausedAt ?st)" by code_simp+
  ultimately show ?thesis using degraded_refuses [OF run] run by blast
qed

text \<open>Logs of git queries alone.\<close>

interpretation asks: querying_deps "traced d" "extends es0 (\<lambda>e. \<exists>args. e = EvGit args \<and> gitQuery args)" for d :: "'w Deps" and es0
  by (rule traced_querying) blast

text \<open>While deployments are paused a run only looks: its only git commands are queries, it writes no
  state, touches no container and reports itself as skipped.\<close>

theorem paused_only_looks:
  assumes "run_state (reconcileLocked (traced d) c opts start) ([], w) = (r, (es, w'))"
    and "run_state (StoreLoad d) w = (Inr st, w1)" and "\<And>t. Paused st t"
  shows "(\<forall>e \<in> set es. \<exists>args. e = EvGit args \<and> gitQuery args) \<and> rs_Skipped r \<and> rs_SkipReason r = SkipPaused
    \<and> \<not> rs_Applied r \<and> rs_Err r = None"
proof -
  let ?ok = "\<lambda>e. \<exists>args. e = EvGit args \<and> gitQuery args"
  let ?Q = "\<lambda>r v. extends [] ?ok v \<and> rs_Skipped r \<and> rs_SkipReason r = SkipPaused \<and> \<not> rs_Applied r \<and> rs_Err r = None"
  have "wp (pausedRun (traced d) c) ?Q v" if "extends [] ?ok v" for v
    unfolding pausedRun_def using that
    by (intro wp_intros wp_keepsI [OF asks.keeps_Fetch]) (auto simp: emptyResult_def split: sum.split)
  then have "wp (reconcileLocked (traced d) c opts start) ?Q ([], w)"
    unfolding reconcileLocked_def
    by (intro wp_bindI wp_traced_load wp_sumI wp_traced_now) (use assms(2,3) in auto)
  from wpD [OF this assms(1)] have all: "list_all ?ok es" and r: "rs_Skipped r" "rs_SkipReason r = SkipPaused" "\<not> rs_Applied r" "rs_Err r = None"
    by simp_all
  from all r show ?thesis by (auto simp: list_all_iff)
qed

theorem paused_only_looks_witness:
  "\<exists>r es w. run_state (reconcileLocked (traced (repoDeps ''docker-compose.yml'' (upFailsAt ''bbbb''))) CallerCtx demoOpts 0)
       ([], repoAt (Pause demoState 1 zeroTime ''maintenance'')) = (r, (es, w)) \<and> rs_SkipReason r = SkipPaused \<and> EvUp \<notin> set es"
proof -
  let ?d = "repoDeps ''docker-compose.yml'' (upFailsAt ''bbbb'')" and ?st = "Pause demoState 1 zeroTime ''maintenance''"
  obtain r es w where run: "run_state (reconcileLocked (traced ?d) CallerCtx demoOpts 0) ([], repoAt ?st) = (r, (es, w))"
    by (metis prod.collapse)
  have "run_state (StoreLoad ?d) (repoAt ?st) = (Inr ?st, repoAt ?st)" by (simp add: repoDeps_def repoAt_def)
  moreover have "Paused ?st t" for t by (simp add: Paused_def Pause_def IsZero_def zeroTime_def)
  ultimately show ?thesis using paused_only_looks [OF run] run by blast
qed

section \<open>Crash recovery\<close>










text \<open>
  Recoveries that follow one another, each started from a state that the one before had saved: what a
  sequence of crashes and restarts goes through, wherever each run is cut off.
\<close>

inductive recoveries :: "'w Deps \<Rightarrow> ctx \<Rightarrow> RunOptions \<Rightarrow> State \<Rightarrow> nat \<Rightarrow> State \<Rightarrow> bool" for d c opts st where
  none: "recoveries d c opts st 0 st"
| again: "recoveries d c opts st n st' \<Longrightarrow>
     run_state (recoverFromCrash (traced d) c opts st' start) ([], w) = (r, (es, w')) \<Longrightarrow>
     EvSave st'' ok \<in> set es \<Longrightarrow> Pending st' \<Longrightarrow> recoveries d c opts st (Suc n) st''"

inductive_cases recoveries_SucE: "recoveries d c opts st (Suc n) st'"







end
