(* ===== verification/RunLocks.thy ===== *)
theory RunLocks
  imports RunProperties
begin

text \<open>
  The locks of a run: everything that changes the checkout, the state file or Docker happens between
  taking the state lock and releasing it.
\<close>

text \<open>Events that change something, and events that belong to locking and reporting.\<close>

fun acting :: "event \<Rightarrow> bool" where
  "acting (EvGit args) \<longleftrightarrow> \<not> gitQuery args"
| "acting EvPull \<longleftrightarrow> True"
| "acting EvUp \<longleftrightarrow> True"
| "acting (EvDown _) \<longleftrightarrow> True"
| "acting (EvSave _ _) \<longleftrightarrow> True"
| "acting _ \<longleftrightarrow> False"

fun locking :: "event \<Rightarrow> bool" where
  "locking (EvLock _) \<longleftrightarrow> True"
| "locking EvUnlock \<longleftrightarrow> True"
| "locking (EvFlight _) \<longleftrightarrow> True"
| "locking EvFlightUnlock \<longleftrightarrow> True"
| "locking EvActivity \<longleftrightarrow> True"
| "locking _ \<longleftrightarrow> False"

text \<open>The log of a run is that of a run refused by the mutex of the process, or it holds the mutex, counts
  its beginning and its end, and in between is refused by the state lock or holds it.\<close>

definition inside :: "event list \<Rightarrow> bool" where
  "inside es \<longleftrightarrow> es = [EvFlight True, EvActivity, EvLock False]
     \<or> (\<exists>mid. es = [EvFlight True, EvActivity, EvLock True] @ mid @ [EvUnlock] \<and> (\<forall>e \<in> set mid. \<not> locking e))"

definition released :: "event list \<Rightarrow> bool" where
  "released es \<longleftrightarrow> (\<exists>ins rest. es = ins @ [EvActivity, EvFlightUnlock] @ rest \<and> inside ins
     \<and> (\<forall>e \<in> set rest. \<not> acting e \<and> \<not> locking e))"

definition guarded :: "event list \<Rightarrow> bool" where
  "guarded es \<longleftrightarrow> es = [EvFlight False] \<or> released es"

lemma released_start: "inside es \<Longrightarrow> released (es @ [EvActivity, EvFlightUnlock])"
  unfolding released_def by (intro exI [of _ es] exI [of _ "[]"]) simp

lemma released_append: "released es \<Longrightarrow> \<not> acting e \<Longrightarrow> \<not> locking e \<Longrightarrow> released (es @ [e])"
  unfolding released_def by (elim exE conjE, rule_tac x = ins in exI, rule_tac x = "rest @ [e]" in exI) auto

lemma keeps_released_logged: "(\<And>a. \<not> acting (ev a) \<and> \<not> locking (ev a)) \<Longrightarrow> keeps (\<lambda>(es, w). released es) (logged ev m)"
  by (intro keeps_logged released_append) simp_all

interpretation released_reads: reading_deps "traced d" "\<lambda>(es, w). released es" for d :: "'w Deps"
  by unfold_locales
    (simp_all add: traced_def tracedHost_def tracedGit_def keeps_quiet keeps_released_logged)

lemma wp_lockedRun_inside:
  assumes "Lock d = Some (tryLock, unlock)"
  shows "wp (lockedRun (traced d) c opts start) (\<lambda>_ (es, w). inside es) ([EvFlight True, EvActivity], w)"
proof -
  let ?ok = "permits (\<lambda>_. True) (\<lambda>_. True) True True True False" and ?start = "[EvFlight True, EvActivity, EvLock True]"
  have "inside (fst v @ [EvUnlock])" if run: "extends ?start ?ok v" for v :: "event list \<times> 'a"
  proof -
    obtain mid where v: "fst v = ?start @ mid" and mid: "list_all ?ok mid"
      using run by (cases v) (auto simp: extends_def)
    have "\<not> locking e" if "e \<in> set mid" for e using mid that by (cases e) (auto simp: list_all_iff)
    then show ?thesis by (auto simp: v inside_def)
  qed
  then have body: "wp (underLock (traced d) c opts start) (\<lambda>a. wp (logged (\<lambda>_. EvUnlock) unlock \<bind> (\<lambda>_. ret a)) (\<lambda>_ (es, w). inside es))
      (?start, w')" for w'
    by (intro any_run.wp_underLock [where ?es0.0 = ?start and lk = False])
      (auto simp: unrestricted_def storeGives_def historyGrows_def wp_def logged_def split: prod.splits)
  have lock: "Lock (traced d) = Some (logged (\<lambda>r. EvLock (r = Inr True)) tryLock, logged (\<lambda>_. EvUnlock) unlock)"
    by (simp add: traced_def assms)
  show ?thesis
    unfolding lockedRun_def lock option.case prod.case
    by (intro wp_bindI wp_logged wp_sumI wp_ifI wp_returnI) (use body in \<open>auto simp: inside_def wp_bind\<close>)
qed

lemma Reconcile_guarded:
  assumes "run_state (Reconcile (traced d) c opts) ([], w) = (r, (es, w'))" and "Lock d = Some (tryLock, unlock)"
  shows "guarded es"
proof -
  have ops: "FlightTry (traced d) = logged EvFlight (FlightTry d)" "TimeNow (traced d) = quiet (TimeNow d)"
      "ActivityAdd (traced d) = logged (\<lambda>_. EvActivity) (ActivityAdd d)" "FlightUnlock (traced d) = logged (\<lambda>_. EvFlightUnlock) (FlightUnlock d)"
    by (simp_all add: traced_def)
  have ping: "keeps (\<lambda>(es, w). released es) (HeartbeatPing (traced d) c)"
    by (simp add: traced_def keeps_released_logged)
  have locked: "wp (lockedRun (traced d) c opts start) Q (es, w1)"
    if "es = [EvFlight True, EvActivity]" and "\<And>a es w. inside es \<Longrightarrow> Q a (es, w)" for start Q es w1
    unfolding that(1) by (rule wp_mono [OF wp_lockedRun_inside [OF assms(2)]]) (use that(2) in auto)
  have refused: "wp (since (traced d) start) Q ([] @ [EvFlight b], w1)" if "\<And>a w. Q a ([EvFlight b], w)" for start Q b w1
    unfolding since_def ops using that by (auto intro!: wp_bindI wp_quiet wp_returnI)
  have "wp (Reconcile (traced d) c opts) (\<lambda>_ (es, w). guarded es) ([], w)"
    unfolding Reconcile_def ops
    by (intro wp_bindI wp_quiet wp_logged wp_ifI wp_returnI wp_optionI locked refused
        wp_keepsI [OF ping] wp_keepsI [OF released_reads.keeps_since] wp_keepsI [OF released_reads.keeps_addCommitContext])
      (auto simp: guarded_def released_start)
  from wpD [OF this assms(1)] show ?thesis by simp
qed

text \<open>C3: a run changes nothing outside its lock: with a state lock configured, every checkout, every write of
  the state file and every Docker operation of a run lies between the moment the lock was taken and
  the moment it was released, inside the mutex of the process and the two counts of the activity
  counter, and a run that does not get the mutex or the lock changes nothing.\<close>

theorem effects_only_under_lock:
  assumes "run_state (Reconcile (traced d) c opts) ([], w) = (r, (es, w'))" and "Lock d = Some (tryLock, unlock)"
  shows "guarded es"
  using assms by (rule Reconcile_guarded)

theorem effects_only_under_lock_witness:
  "\<exists>r es w. repoRun ''docker-compose.yml'' ''bbbb'' demoOpts demoState = (r, (es, w)) \<and> EvUp \<in> set es \<and> guarded es"
proof -
  obtain r es w where run: "repoRun ''docker-compose.yml'' ''bbbb'' demoOpts demoState = (r, (es, w))"
    "run_state (Reconcile (traced (repoDeps ''docker-compose.yml'' (upFailsAt ''bbbb''))) CallerCtx demoOpts) ([], repoAt demoState) = (r, (es, w))"
    by (rule repoRun_traced)
  have "EvUp \<in> set (fst (snd (repoRun ''docker-compose.yml'' ''bbbb'' demoOpts demoState)))" by code_simp
  moreover have "Lock (repoDeps ''docker-compose.yml'' (upFailsAt ''bbbb'')) = Some (ret (Inr True), ret None)"
    by (simp add: repoDeps_def)
  ultimately show ?thesis using effects_only_under_lock [OF run(2)] run(1) by simp
qed

end
