(* ===== verification/RunOutcomes.thy ===== *)
theory RunOutcomes
  imports RunProperties "HOL-Library.Multiset"
begin

text \<open>
  How the parts of a run turn out: tearing down stacks, the combined verdict of several watches, the
  pre-flight gate, infrastructure errors, and when a commit is promoted.
\<close>

section \<open>Tearing down\<close>

lemma wp_foldM_down:
  fixes d :: "'w Deps" and nm :: "nat \<Rightarrow> string"
  assumes down: "\<And>c n w. fst (run_state (Down d c n) w) = None \<longleftrightarrow> n \<notin> bad"
  shows "wp (foldM (\<lambda>i failures. do { r \<leftarrow> downStack (traced d) c (nm i); ret (failures(i := r)) }) is fs)
     (\<lambda>fs' v. fst v = es @ map (\<lambda>i. EvDown (nm i)) is \<and> (\<forall>i. (fs' i = None) = (if i \<in> set is then nm i \<notin> bad else fs i = None))) (es, w)"
proof (induction "is" arbitrary: fs es w)
  case (Cons i "is")
  have step: "wp (downStack (traced d) c (nm i)) (\<lambda>r v. fst v = es @ [EvDown (nm i)] \<and> (r = None \<longleftrightarrow> nm i \<notin> bad)) (es, w)"
    using down by (simp add: downStack_def traced_def wp_def logged_def split: prod.split) (metis fst_conv)
  show ?case
    unfolding foldM.simps wp_bind wp_return
  proof (rule wp_mono [OF step])
    fix r :: "err option" and v :: "event list \<times> 'w" assume A: "fst v = es @ [EvDown (nm i)] \<and> (r = None \<longleftrightarrow> nm i \<notin> bad)"
    then obtain w1 where v: "v = (es @ [EvDown (nm i)], w1)" by (cases v) auto
    show "wp (foldM (\<lambda>i failures. do { r \<leftarrow> downStack (traced d) c (nm i); ret (failures(i := r)) }) is (fs(i := r)))
       (\<lambda>fs' v. fst v = es @ map (\<lambda>i. EvDown (nm i)) (i # is)
          \<and> (\<forall>j. (fs' j = None) = (if j \<in> set (i # is) then nm j \<notin> bad else fs j = None))) v"
      unfolding v by (rule wp_mono [OF Cons.IH]) (use A in auto)
  qed
qed (simp add: wp_return)

lemma mset_order: "mset (map f (completeOrder n xs)) = mset (map f [0..<n])"
proof -
  have "mset (completeOrder n xs) = mset [0..<n]"
    by (rule set_eq_iff_mset_eq_distinct [THEN iffD1]) simp_all
  then show ?thesis by (simp add: mset_map)
qed

lemma teardownErrors_None: "teardownErrors stacks failures = None \<longleftrightarrow> (\<forall>i < length stacks. failures i = None)"
proof -
  have "filter (\<lambda>(i, s). failures i \<noteq> None) (enumerate 0 stacks) = [] \<longleftrightarrow> (\<forall>i < length stacks. failures i = None)"
    by (auto simp: filter_empty_conv in_set_enumerate_eq dest: bspec [where x = "(i, stacks ! i)" for i])
  then show ?thesis by (auto simp: teardownErrors_def Let_def errJoin_def)
qed

lemma wp_tearDown_exact:
  assumes "\<And>c n w. fst (run_state (Down d c n) w) = None \<longleftrightarrow> n \<notin> bad"
  shows "wp (tearDownStacks (traced d) c stacks) (\<lambda>r v. mset (fst v) = mset es + mset (map (EvDown \<circ> k_ProjectName) stacks)
    \<and> (r = None \<longleftrightarrow> (\<forall>s \<in> set stacks. k_ProjectName s \<notin> bad))) (es, w)"
proof -
  let ?n = "length stacks" and ?nm = "\<lambda>i. k_ProjectName (stacks ! i)"
  have "map (\<lambda>i. EvDown (?nm i)) [0..<?n] = map (EvDown \<circ> k_ProjectName) stacks"
    by (rule nth_equalityI) simp_all
  then have perm: "mset (map (\<lambda>i. EvDown (?nm i)) (completeOrder ?n xs)) = mset (map (EvDown \<circ> k_ProjectName) stacks)" for xs
    by (simp only: mset_order)
  have each: "(\<forall>s \<in> set stacks. k_ProjectName s \<notin> bad) \<longleftrightarrow> (\<forall>i < ?n. ?nm i \<notin> bad)"
    by (metis in_set_conv_nth)
  have sched: "Schedule (traced d) = (\<lambda>n. quiet (Schedule d n))" by (simp add: traced_def)
  show ?thesis
    unfolding tearDownStacks_def downAll_def sched
    by (intro wp_intros wp_quiet wp_mono [OF wp_foldM_down [OF assms]])
      (auto simp: perm each teardownErrors_None simp flip: mset_map)
qed

text \<open>Tearing down attempts every stack: whatever order the goroutines run in and whatever fails on the
  way, each stack is taken down exactly once, and the result is an error exactly when one of them
  could not be taken down.\<close>

theorem teardown_attempts_all:
  assumes "run_state (tearDownStacks (traced d) c stacks) ([], w) = (r, (es, w'))"
    and "\<And>c n w. fst (run_state (Down d c n) w) = None \<longleftrightarrow> n \<notin> bad"
  shows "mset es = mset (map (EvDown \<circ> k_ProjectName) stacks)
    \<and> (r = None \<longleftrightarrow> (\<forall>s \<in> set stacks. k_ProjectName s \<notin> bad))"
  using wpD [OF wp_tearDown_exact [OF assms(2)] assms(1)] by simp

theorem teardown_attempts_all_witness:
  "\<exists>r es w. run_state (tearDownStacks (traced (demoDeps demoState None demoSnapshot)) CallerCtx [bareStack ''a'', bareStack ''b'']) ([], ())
     = (r, (es, w)) \<and> r = None \<and> EvDown ''a'' \<in> set es \<and> EvDown ''b'' \<in> set es"
proof -
  let ?d = "demoDeps demoState None demoSnapshot"
  obtain r es where run: "run_state (tearDownStacks (traced ?d) CallerCtx [bareStack ''a'', bareStack ''b'']) ([], ()) = (r, (es, ()))"
    by (rule demo_run)
  have "fst (run_state (Down ?d c n) w) = None \<longleftrightarrow> n \<notin> {}" for c n w by (simp add: demoDeps_def)
  from teardown_attempts_all [OF run this] have "mset es = {#EvDown ''a'', EvDown ''b''#}" "r = None"
    by (simp_all add: bareStack_def)
  with run show ?thesis by (auto simp flip: set_mset_mset)
qed

section \<open>The pre-flight gate\<close>

text \<open>What the gate asks of the world it starts from: the snapshots of all stacks, taken one after the other, can be taken
  and pass.\<close>

fun gatePasses :: "'w Deps \<Rightarrow> ctx \<Rightarrow> string list \<Rightarrow> 'w \<Rightarrow> bool" where
  "gatePasses d c [] w = True"
| "gatePasses d c (name # names) w =
     (case run_state (TakeSnapshot d c name) w of
        (Inl _, _) \<Rightarrow> False
      | (Inr snap, w') \<Rightarrow> fst (EvaluatePreflight snap) \<and> gatePasses d c names w')"

definition gateNames :: "'w Deps \<Rightarrow> Stack list \<Rightarrow> string list" where
  "gateNames d stacks = (case stacks of [] \<Rightarrow> [cfg_ProjectName (Cfg d)] | _ \<Rightarrow> map k_ProjectName stacks)"

lemma wp_evaluateNames_gate:
  "wp (evaluateNames (traced d) c names snaps) (\<lambda>r v. (\<forall>e \<in> set (fst v). e \<in> set es \<or> (\<exists>n. e = EvSnapshot n))
     \<and> (\<forall>live. r = Inr live \<longrightarrow> lv_healthy live = gatePasses d c names w)) (es, w)"
proof (induction names arbitrary: snaps es w)
  case (Cons name names)
  have snap: "TakeSnapshot (traced d) c name = logged (\<lambda>_. EvSnapshot name) (TakeSnapshot d c name)" by (simp add: traced_def)
  show ?case
    unfolding evaluateNames.simps snap
  proof (intro wp_bindI wp_logged)
    fix r w' assume run: "run_state (TakeSnapshot d c name) w = (r, w')"
    show "wp (case r of Inl e \<Rightarrow> ret (Inl (wrapf (''snapshot of '' @ name @ '': '') e))
        | Inr snap \<Rightarrow> (case EvaluatePreflight snap of
            (True, _) \<Rightarrow> evaluateNames (traced d) c names (snaps(name \<mapsto> snap))
          | (False, reason) \<Rightarrow> ret (Inr \<lparr>lv_snapshots = snaps(name \<mapsto> snap), lv_healthy = False, lv_reason = name @ '': '' @ reason\<rparr>)))
       (\<lambda>r v. (\<forall>e \<in> set (fst v). e \<in> set es \<or> (\<exists>n. e = EvSnapshot n)) \<and> (\<forall>live. r = Inr live \<longrightarrow> lv_healthy live = gatePasses d c (name # names) w))
       (es @ [EvSnapshot name], w')"
      using run by (auto simp: wp_return split: sum.split prod.split bool.split intro!: wp_mono [OF Cons.IH])
  qed
qed (auto simp: wp_return)

text \<open>C4: the gate holds: unless the snapshots of all deployed stacks, taken in turn from the world in which the
  gate starts, can be taken and pass the pre-flight evaluation, nothing of the new commit is applied. No
  image is pulled, the only commit that may be checked out is the last healthy one, and every state
  that is saved keeps it as the last healthy one.\<close>

theorem unhealthy_live_blocks_commit:
  assumes "run_state (gateAndApply (traced d) c opts st result previous start) ([], w) = ((r, st'), (es, w'))"
    and "\<not> gatePasses d c (gateNames d previous) w"
  shows "(\<forall>args. EvGit args \<in> set es \<and> \<not> gitQuery args \<longrightarrow> args = [''checkout'', ''--detach'', ''--force'', LastHealthyCommit st])
    \<and> EvPull \<notin> set es
    \<and> (\<forall>s ok. EvSave s ok \<in> set es \<longrightarrow> LastHealthyCommit s = LastHealthyCommit st)"
proof -
  let ?lh = "LastHealthyCommit st"
  let ?ok = "permits (\<lambda>s. LastHealthyCommit s = ?lh) (\<lambda>x. x = ?lh) True True False False"
  have blocked: "wp (preflightBlocked (traced d) c opts st result previous reason start) (\<lambda>_. extends [] ?ok) v" if "extends [] ?ok v" for reason v
    by (rule rollback.wp_preflightBlocked) (use that in auto)
  have looks: "extends [] ?ok v" if "\<forall>e \<in> set (fst v). e \<in> set [] \<or> (\<exists>n. e = EvSnapshot n)" for v :: "event list \<times> 'a"
    using that by (cases v) (auto simp: list_all_iff)
  have failed: "wp (recordOutcome (traced d) st ResultFailedPreflight commit) (\<lambda>_. extends [] ?ok) v" if "extends [] ?ok v" for commit v
    by (rule rollback.wp_recordOutcome [where lh = ?lh]) (use that in auto)
  have names: "evaluateLive (traced d) c previous = evaluateNames (traced d) c (gateNames d previous) Map.empty"
    by (cases previous) (simp_all add: evaluateLive_def gateNames_def stackNames_def traced_def)
  have gate: "wp (evaluateNames (traced d) c (gateNames d previous) Map.empty)
      (\<lambda>r v. extends [] ?ok v \<and> (\<forall>live. r = Inr live \<longrightarrow> \<not> lv_healthy live)) ([], w)"
    by (rule wp_mono [OF wp_evaluateNames_gate]) (use assms(2) looks in auto)
  have "wp (gateAndApply (traced d) c opts st result previous start) (\<lambda>_. extends [] ?ok) ([], w)"
    unfolding gateAndApply_def names
    by (rule wp_bindI, rule wp_mono [OF gate])
      (auto simp: wp_return Let_def split: sum.split simp del: extends_Nil intro!: blocked wp_bindI wp_keepsI [OF rollback.keeps_ended] wp_mono [OF failed] wp_ifI)
  from wpD [OF this assms(1)] have all: "\<forall>e \<in> set es. ?ok e" by (simp add: list_all_iff)
  then show ?thesis by (auto dest: all [rule_format])
qed

definition exitedSnapshot :: Snapshot where
  "exitedSnapshot = demoSnapshot\<lparr>Containers := [demoContainer\<lparr>c_State := StateExited, c_ExitCode := 1\<rparr>]\<rparr>"

definition exitedDeps :: "unit Deps" where
  "exitedDeps = (demoDeps demoState None exitedSnapshot)\<lparr>Cfg := Default\<lparr>cfg_RepoPath := ''/r'', cfg_HealthWatchSeconds := 10\<rparr>\<rparr>"

text \<open>Two stacks, of which only the second one has an exited container.\<close>

definition secondExited :: "unit Deps" where
  "secondExited = (demoDeps demoState None demoSnapshot)\<lparr>TakeSnapshot := \<lambda>c name. ret (Inr (if name = ''b'' then exitedSnapshot else demoSnapshot))\<rparr>"

theorem unhealthy_live_blocks_commit_witness:
  "\<exists>r st' es. run_state (gateAndApply (traced secondExited) CallerCtx demoOpts demoState
       (emptyResult\<lparr>rs_NewCommit := ''bbbb''\<rparr>) [bareStack ''a'', bareStack ''b''] 0) ([], ()) = ((r, st'), (es, ()))
     \<and> EvGit [''checkout'', ''--detach'', ''--force'', ''aaaa''] \<in> set es \<and> EvPull \<notin> set es"
proof -
  let ?run = "run_state (gateAndApply (traced secondExited) CallerCtx demoOpts demoState
       (emptyResult\<lparr>rs_NewCommit := ''bbbb''\<rparr>) [bareStack ''a'', bareStack ''b''] 0) ([], ())"
  obtain r st' es where run: "?run = ((r, st'), (es, ()))" by (rule demo_pair_run)
  have "\<not> gatePasses secondExited CallerCtx (gateNames secondExited [bareStack ''a'', bareStack ''b'']) ()" by code_simp
  moreover have "EvGit [''checkout'', ''--detach'', ''--force'', ''aaaa''] \<in> set (fst (snd ?run))" by code_simp
  ultimately show ?thesis using unhealthy_live_blocks_commit [OF run] run by simp
qed

section \<open>Infrastructure errors\<close>

lemma tryEach_stops:
  assumes "run_state (tryEach f xs) w = (Inr ys, w1)" and "run_state (f x) w1 = (Inl e, w2)"
  shows "run_state (tryEach f (xs @ x # zs)) w = (Inl e, w2)"
  using assms
proof (induction xs arbitrary: w ys)
  case (Cons a xs)
  obtain y w' ys' where "run_state (f a) w = (Inr y, w')" "run_state (tryEach f xs) w' = (Inr ys', w1)"
    using Cons.prems(1) by (auto split: prod.splits sum.splits)
  with Cons.IH [OF this(2) Cons.prems(2)] show ?case by simp
qed simp

text \<open>C32: an unreachable Docker daemon condemns no commit: when \<^verbatim>\<open>compose up\<close> of some stack, after those of the stacks
  before it have succeeded, fails with an infrastructure error, no commit is marked as failed, nothing
  is checked out, no other stack is touched and the commit stays pending, so that the next run takes it up again.\<close>

theorem infra_error_keeps_commit_pending:
  assumes "run_state (upAndWatch (traced d) c st result stacks changed vanished projects before start) ([], w) = ((r, st'), (es, w'))"
    and "zip changed projects = xs @ (s, p) # ys"
    and "run_state (tryEach (upForApply (traced d) c) xs) ([], w) = (Inr us, (es1, w1))"
    and "run_state (Up d c p) w1 = (Some e, w2)" and "IsInfraError e"
  shows "rs_Err r \<noteq> None \<and> failedMemory st' = failedMemory st \<and> PendingCommit st' = PendingCommit st
    \<and> (\<forall>e \<in> set es. e = EvUp \<or> (\<exists>s ok. e = EvSave s ok \<and> failedMemory s = failedMemory st \<and> PendingCommit s = PendingCommit st))"
proof -
  let ?S = "\<lambda>s. failedMemory s = failedMemory st \<and> PendingCommit s = PendingCommit st"
  let ?J = "\<lambda>v. list_all (\<lambda>e. e = EvUp \<or> (\<exists>s ok. e = EvSave s ok \<and> ?S s)) (fst v)"
  let ?Q = "\<lambda>p v. rs_Err (fst p) \<noteq> None \<and> ?S (snd p) \<and> ?J v"
  have ups: "keeps (extends [] (\<lambda>e. e = EvUp)) (upForApply (traced d) c x)" for x
    unfolding upForApply_def by (cases x) (auto simp: traced_def intro!: keeps_intros keeps_logged_extends)
  have "extends [] (\<lambda>e. e = EvUp) (es1, w1)"
    using keepsD [OF keeps_tryEach [OF ups] _ assms(3)] by simp
  then have up1: "?J (es1 @ [EvUp], w2)" by (auto simp: list_all_iff)
  have "run_state (upForApply (traced d) c (s, p)) (es1, w1) = (Inl (s, e), (es1 @ [EvUp], w2))"
    using assms(4) by (simp add: upForApply_def traced_def logged_def)
  from tryEach_stops [OF assms(3) this]
  have up: "run_state (tryEach (upForApply (traced d) c) (zip changed projects)) ([], w) = (Inl (s, e), (es1 @ [EvUp], w2))"
    by (simp add: assms(2))
  have ended: "wp (ended (traced d) c) Q v" if "\<And>b w'. Q b (fst v, w')" for Q v
    using that by (cases v) (simp add: ended_def traced_def wp_def quiet_def split: prod.splits)
  have interrupted: "wp (applyInterrupted (traced d) st result n e) ?Q v" if "?J v" for n e v
    using that unfolding applyInterrupted_def recordOutcome_def
    by (cases v) (simp, intro wp_intros wp_traced_now wp_traced_save, auto simp: failedMemory_def split: option.split)
  have "wp (upAndWatch (traced d) c st result stacks changed vanished projects before start) ?Q ([], w)"
    unfolding upAndWatch_def wp_bind
    by (rule wpI) (use up up1 assms(5) in \<open>auto simp: wp_simps intro!: ended interrupted [simplified]\<close>)
  from wpD [OF this assms(1)] show ?thesis by (simp add: list_all_iff)
qed

text \<open>Two stacks; the daemon has gone when the second one is to be brought up.\<close>

definition secondProject :: Project where
  "secondProject = demoProject\<lparr>p_WorkingDir := ''/r/b''\<rparr>"

definition daemonGone :: "unit Deps" where
  "daemonGone = (demoDeps demoState None demoSnapshot)\<lparr>
     Up := \<lambda>c p. ret (if p_WorkingDir p = ''/r/b'' then Some (Leaf ECONNREFUSED ''daemon'') else None)\<rparr>"

theorem infra_error_keeps_commit_pending_witness:
  "\<exists>r st' es. run_state (upAndWatch (traced daemonGone) CallerCtx (pendingState demoState ''bbbb'' [''a'', ''b''] 1) emptyResult
       [bareStack ''a'', bareStack ''b''] [bareStack ''a'', bareStack ''b''] [] [demoProject, secondProject] Map.empty 0) ([], ())
     = ((r, st'), (es, ())) \<and> PendingCommit st' = ''bbbb'' \<and> \<not> IsKnownBad st' ''bbbb''"
proof -
  let ?st = "pendingState demoState ''bbbb'' [''a'', ''b''] 1" and ?xs = "[(bareStack ''a'', demoProject)]"
  obtain r st' es where run: "run_state (upAndWatch (traced daemonGone) CallerCtx ?st emptyResult [bareStack ''a'', bareStack ''b'']
      [bareStack ''a'', bareStack ''b''] [] [demoProject, secondProject] Map.empty 0) ([], ()) = ((r, st'), (es, ()))" by (rule demo_pair_run)
  have zip: "zip [bareStack ''a'', bareStack ''b''] [demoProject, secondProject] = ?xs @ (bareStack ''b'', secondProject) # []" by simp
  have "\<not> isl (fst (run_state (tryEach (upForApply (traced daemonGone) CallerCtx) ?xs) ([], ())))" by code_simp
  then obtain us es1 where first: "run_state (tryEach (upForApply (traced daemonGone) CallerCtx) ?xs) ([], ()) = (Inr us, (es1, ()))"
    by (cases "run_state (tryEach (upForApply (traced daemonGone) CallerCtx) ?xs) ([], ())"; cases "fst (run_state (tryEach (upForApply (traced daemonGone) CallerCtx) ?xs) ([], ()))") auto
  have "run_state (Up daemonGone CallerCtx secondProject) () = (Some (Leaf ECONNREFUSED ''daemon''), ())" by code_simp
  moreover have "IsInfraError (Leaf ECONNREFUSED ''daemon'')" by code_simp
  ultimately have "PendingCommit st' = PendingCommit ?st" "failedMemory st' = failedMemory ?st"
    using infra_error_keeps_commit_pending [OF run zip first] by blast+
  moreover have "PendingCommit ?st = ''bbbb''" "failedMemory ?st = ([], [])" by code_simp+
  ultimately show ?thesis using run by (auto simp: IsKnownBad_def failedMemory_def)
qed

section \<open>Promotion\<close>

text \<open>Runs that may promote the commit \<open>new\<close> if \<open>yes\<close>, and only that.\<close>

interpretation promoting: run_contract "traced d"
  "extends es0 (permits (\<lambda>s. LastHealthyCommit s = lh \<or> yes \<and> LastHealthyCommit s = new) (\<lambda>x. x = lh) True True False False)"
  "\<lambda>s. LastHealthyCommit s = lh \<or> yes \<and> LastHealthyCommit s = new" "\<lambda>x. x = lh" "\<lambda>_. True" "\<lambda>x. yes \<and> x = new" True True False
  for d :: "'w Deps" and es0 and lh :: string and yes and new :: string
  by (rule traced_contract) (auto simp: sameRecord_def promoted_def ForgetAllFailed_def)

text \<open>C10: once stacks are brought up, a commit is promoted only after a healthy watch: if any state that is saved from then on, or
  the state the run ends with, names another last healthy commit than before, then in this very run
  \<^verbatim>\<open>compose up\<close> has succeeded for every changed stack and the health watch that followed came out healthy, and the commit it
  names is the new one. (A commit that changes no stack brings none up and takes another path, \<open>applyNothing\<close>.)\<close>

theorem unhealthy_never_promoted:
  assumes "run_state (upAndWatch (traced d) c st result stacks changed vanished projects before start) ([], w) = ((r, st'), (es, w'))"
    and "EvSave s ok \<in> set es \<or> s = st'" and "LastHealthyCommit s \<noteq> LastHealthyCommit st"
  shows "LastHealthyCommit s = rs_NewCommit result
    \<and> (\<exists>ups v x b v'. run_state (tryEach (upForApply (traced d) c) (zip changed projects)) ([], w) = (Inr ups, v)
        \<and> run_state (watchStacks (traced d) c changed projects) v = (Inr (x, b), v') \<and> w_Outcome x = Healthy)"
proof -
  define passed where "passed \<longleftrightarrow> (\<exists>ups v x b v'. run_state (tryEach (upForApply (traced d) c) (zip changed projects)) ([], w) = (Inr ups, v)
        \<and> run_state (watchStacks (traced d) c changed projects) v = (Inr (x, b), v') \<and> w_Outcome x = Healthy)"
  let ?lh = "LastHealthyCommit st" and ?new = "rs_NewCommit result"
  let ?S = "\<lambda>s. LastHealthyCommit s = ?lh \<or> passed \<and> LastHealthyCommit s = ?new"
  let ?ok = "permits ?S (\<lambda>x. x = ?lh) True True False False"
  let ?Q = "\<lambda>p v. extends [] ?ok v \<and> ?S (snd p)"
  note contract = promoting.wp_watchAndPromote [where yes = passed and lh = ?lh and new = ?new and ?es0.0 = "[]"]
    promoting.wp_applyIncomplete [where yes = passed and lh = ?lh and new = ?new and ?es0.0 = "[]"]
    promoting.wp_failAndRevert [where yes = passed and lh = ?lh and new = ?new and ?es0.0 = "[]"]
    promoting.wp_applyInterrupted [where yes = passed and lh = ?lh and new = ?new and ?es0.0 = "[]"]
    wp_keepsI [OF acts.keeps_ended, where ?es0.1 = "[]" and ?S1 = ?S]
  have upped: "extends [] ?ok v" if "run_state (tryEach (upForApply (traced d) c) (zip changed projects)) ([], w) = (x, v)" for x v
    by (rule keepsD [OF keeps_tryEach [OF acts.keeps_upForApply [OF TrueI]] _ that]) simp
  have watched: "wp (watchAndPromote (traced d) c st res stacks changed vanished projects before start) ?Q v"
    if "run_state (tryEach (upForApply (traced d) c) (zip changed projects)) ([], w) = (Inr ups, v)" "rs_NewCommit res = ?new" for res ups v
  proof (cases passed)
    case True
    then show ?thesis by (intro contract(1)) (use upped [OF that(1)] that(2) in auto)
  next
    case False
    have bad: "w_Outcome x \<noteq> Healthy" if "run_state (watchStacks (traced d) c changed projects) v = (Inr (x, b), v')" for x b v'
      using False \<open>run_state (tryEach _ _) _ = _\<close> that unfolding passed_def by blast
    have looked: "extends [] ?ok v'" if "run_state (watchStacks (traced d) c changed projects) v = (x, v')" for x v'
      by (rule keepsD [OF acts.keeps_watchStacks upped [OF \<open>run_state (tryEach _ _) _ = _\<close>] that])
    have "wp (watchStacks (traced d) c changed projects)
        (\<lambda>x v'. extends [] ?ok v' \<and> (\<forall>y b. x = Inr (y, b) \<longrightarrow> w_Outcome y \<noteq> Healthy)) v"
      by (rule wpI) (use looked bad in blast)
    then show ?thesis
      unfolding watchAndPromote_def Let_def
      by (intro wp_bindI, elim wp_mono)
        (auto split: sum.split prod.split intro!: contract(2,3) simp: that(2) simp del: extends_Nil)
  qed
  have "wp (tryEach (upForApply (traced d) c) (zip changed projects)) (\<lambda>x v. extends [] ?ok v
      \<and> (\<forall>ups. x = Inr ups \<longrightarrow> run_state (tryEach (upForApply (traced d) c) (zip changed projects)) ([], w) = (Inr ups, v))) ([], w)"
    by (rule wpI) (use upped in blast)
  then have "wp (upAndWatch (traced d) c st result stacks changed vanished projects before start) ?Q ([], w)"
    unfolding upAndWatch_def
    by (intro wp_bindI, elim wp_mono)
      (auto split: sum.split prod.split intro!: watched contract(3,4) contract(5) wp_bindI simp: wp_return simp del: extends_Nil)
  from wpD [OF this assms(1)] have "\<forall>e \<in> set es. ?ok e" "?S st'" by (auto simp: list_all_iff)
  with assms(2,3) show ?thesis unfolding passed_def by fastforce
qed

text \<open>A deployment that goes through is promoted, after its watch.\<close>

theorem unhealthy_never_promoted_witness:
  "\<exists>r st' es ups v x b v'. run_state (upAndWatch (traced (demoDeps demoState None demoSnapshot)) CallerCtx demoState (emptyResult\<lparr>rs_NewCommit := ''bbbb''\<rparr>)
       [bareStack ''a''] [bareStack ''a''] [] [demoProject] Map.empty 0) ([], ()) = ((r, st'), (es, ()))
     \<and> LastHealthyCommit st' = ''bbbb''
     \<and> run_state (tryEach (upForApply (traced (demoDeps demoState None demoSnapshot)) CallerCtx) [(bareStack ''a'', demoProject)]) ([], ()) = (Inr ups, v)
     \<and> run_state (watchStacks (traced (demoDeps demoState None demoSnapshot)) CallerCtx [bareStack ''a''] [demoProject]) v = (Inr (x, b), v')
     \<and> w_Outcome x = Healthy"
proof -
  let ?d = "demoDeps demoState None demoSnapshot"
  let ?run = "run_state (upAndWatch (traced ?d) CallerCtx demoState (emptyResult\<lparr>rs_NewCommit := ''bbbb''\<rparr>)
       [bareStack ''a''] [bareStack ''a''] [] [demoProject] Map.empty 0) ([], ())"
  obtain r st' es where run: "?run = ((r, st'), (es, ()))" by (rule demo_pair_run)
  have "LastHealthyCommit (snd (fst ?run)) = ''bbbb''" by code_simp
  then have st': "LastHealthyCommit st' = ''bbbb''" using run by simp
  then have "LastHealthyCommit st' \<noteq> LastHealthyCommit demoState" by (simp add: demoState_def)
  from unhealthy_never_promoted [OF run disjI2 [OF refl] this] run st' show ?thesis by auto
qed

lemma wp_tryEach_ok:
  assumes "\<And>x v. wp (f x) (\<lambda>r _. \<exists>y. r = Inr y) v"
  shows "wp (tryEach f xs) (\<lambda>r _. \<exists>ys. r = Inr ys) v"
proof (induction xs arbitrary: v)
  case (Cons x xs)
  show ?case
    unfolding tryEach.simps wp_bind
    by (rule wp_mono [OF assms]) (auto simp: wp_bind wp_return intro!: wp_mono [OF Cons.IH])
qed (simp add: wp_return)

lemma wp_traced_since: "(\<And>a w'. Q a (es, w')) \<Longrightarrow> wp (since (traced d) t) Q (es, w)"
  by (simp add: since_def traced_def wp_bind wp_return wp_quiet)

text \<open>C12: a good deployment goes through: when \<^verbatim>\<open>compose up\<close> succeeds, the health watch comes out healthy,
  removed stacks can be torn down and the state can be saved, the run applies the commit without an
  error and ends with a saved state that names it as the last healthy one, with nothing pending and
  no commit remembered as bad.\<close>

theorem healthy_deploy_promoted:
  assumes "run_state (upAndWatch (traced d) c st result stacks changed vanished projects before start) ([], w) = ((r, st'), (es, w'))"
    and up: "\<And>c p w. fst (run_state (Up d c p) w) = None"
    and watch: "\<And>v. \<exists>x b v'. run_state (watchStacks (traced d) c changed projects) v = (Inr (x, b), v') \<and> w_Outcome x = Healthy"
    and down: "\<And>c n w. fst (run_state (Down d c n) w) = None"
    and save: "\<And>s w. fst (run_state (StoreSave d s) w) = None"
  shows "rs_Applied r \<and> rs_Err r = rs_Err result \<and> LastHealthyCommit st' = rs_NewCommit result \<and> \<not> Pending st'
    \<and> failedMemory st' = ([], []) \<and> EvSave st' True \<in> set es"
proof -
  let ?Q = "\<lambda>p v. rs_Applied (fst p) \<and> rs_Err (fst p) = rs_Err result \<and> LastHealthyCommit (snd p) = rs_NewCommit result
    \<and> \<not> Pending (snd p) \<and> failedMemory (snd p) = ([], []) \<and> EvSave (snd p) True \<in> set (fst v)"
  have upped: "wp (tryEach (upForApply (traced d) c) xs) Q v" if "\<And>ys v'. Q (Inr ys) v'" for xs Q v
  proof (rule wp_mono [OF wp_tryEach_ok])
    show "wp (upForApply (traced d) c x) (\<lambda>r _. \<exists>y. r = Inr y) v" for x v
      using up by (cases x; cases v) (simp add: upForApply_def traced_def wp_def logged_def split: prod.splits, metis fst_conv option.simps(4))
  qed (use that in auto)
  have watched: "wp (watchStacks (traced d) c changed projects) Q v" if "\<And>x b v'. w_Outcome x = Healthy \<Longrightarrow> Q (Inr (x, b)) v'" for Q v
    using watch [of v] that by (auto simp: wp_def)
  have torn: "wp (tearDownStacks (traced d) c vanished) Q v" if "\<And>v'. Q None v'" for Q v
  proof -
    have "fst (run_state (Down d c n) w) = None \<longleftrightarrow> n \<notin> {}" for c n w by (simp add: down)
    from wp_mono [OF wp_tearDown_exact [OF this]] that show ?thesis by (cases v) auto
  qed
  have saved: "wp (StoreSave (traced d) s) Q (es, w)" if "\<And>w'. Q None (es @ [EvSave s True], w')" for s Q es w
    using save [of s w] that by (intro wp_traced_save) auto
  have promoted: "wp (promoteHealthy (traced d) st commit names) (\<lambda>p v. fst p = None \<and> LastHealthyCommit (snd p) = commit
      \<and> \<not> Pending (snd p) \<and> failedMemory (snd p) = ([], []) \<and> EvSave (snd p) True \<in> set (fst v)) v" for commit names v
    unfolding promoteHealthy_def
    by (cases v) (simp, intro wp_intros wp_traced_now saved, simp add: promoted_def ForgetAllFailed_def Pending_def failedMemory_def)
  have "wp (upAndWatch (traced d) c st result stacks changed vanished projects before start) ?Q ([], w)"
    unfolding upAndWatch_def watchAndPromote_def Let_def
    by (intro wp_bindI upped) (simp, intro wp_bindI watched, simp, intro wp_bindI torn, simp, rule wp_bindI, rule wp_mono [OF promoted],
        auto intro!: wp_bindI wp_traced_since wp_returnI)
  from wpD [OF this assms(1)] show ?thesis by simp
qed

theorem healthy_deploy_promoted_witness:
  "\<exists>r st' es. run_state (upAndWatch (traced (demoDeps demoState None demoSnapshot)) CallerCtx demoState (emptyResult\<lparr>rs_NewCommit := ''bbbb''\<rparr>)
       [bareStack ''a''] [bareStack ''a''] [] [demoProject] Map.empty 0) ([], ()) = ((r, st'), (es, ()))
     \<and> rs_Applied r \<and> LastHealthyCommit st' = ''bbbb'' \<and> EvSave st' True \<in> set es"
proof -
  let ?d = "demoDeps demoState None demoSnapshot"
  let ?watch = "\<lambda>es. run_state (watchStacks (traced ?d) CallerCtx [bareStack ''a''] [demoProject]) (es, ())"
  obtain r st' es where run: "run_state (upAndWatch (traced ?d) CallerCtx demoState (emptyResult\<lparr>rs_NewCommit := ''bbbb''\<rparr>)
       [bareStack ''a''] [bareStack ''a''] [] [demoProject] Map.empty 0) ([], ()) = ((r, st'), (es, ()))" by (rule demo_pair_run)
  have verdict: "\<not> isl (fst (?watch es)) \<and> w_Outcome (fst (projr (fst (?watch es)))) = Healthy" for es by code_simp
  have "\<exists>x b v'. run_state (watchStacks (traced ?d) CallerCtx [bareStack ''a''] [demoProject]) v = (Inr (x, b), v') \<and> w_Outcome x = Healthy" for v
    using verdict [of "fst v"] by (cases v; cases "fst (?watch (fst v))"; cases "?watch (fst v)") auto
  with healthy_deploy_promoted [OF run] run show ?thesis by (auto simp: demoDeps_def)
qed

section \<open>The verdict over several stacks\<close>

lemma wp_combineOutcomes:
  "wp (combineOutcomes d c os sm) (\<lambda>r _. \<forall>sm'. r = Inr sm' \<longrightarrow> w_Outcome (ws_combined sm') = Healthy \<longrightarrow>
     w_Outcome (ws_combined sm) = Healthy \<and>
     (\<forall>o' \<in> set os. case swo_err o' of None \<Rightarrow> w_Outcome (swo_result o') = Healthy | Some e \<Rightarrow> errIs e Canceled)) w"
proof (induction os arbitrary: sm w)
  case (Cons o' os)
  show ?case
  proof (cases "swo_err o'")
    case None
    show ?thesis
      unfolding combineOutcomes.simps Let_def None option.case
      by (rule wp_mono [OF Cons.IH]) (auto simp: None split: if_splits)
  next
    case (Some e)
    show ?thesis
      unfolding combineOutcomes.simps Let_def Some option.case
      by (intro wp_bindI wp_trivial [where m = "ended _ _"] wp_ifI wp_mono [OF Cons.IH]) (auto simp: Some wp_return)
  qed
qed (simp add: wp_return)

text \<open>The verdict over several stacks is sound: it is healthy only if the watch of every stack came out
  healthy or was cancelled; a stack whose watch failed or could not be completed never disappears in
  the combined result.\<close>

theorem combined_verdict_sound:
  assumes "run_state (combineOutcomes d c os sm) w = (Inr sm', w')" and "w_Outcome (ws_combined sm') = Healthy" and "o' \<in> set os"
  shows "case swo_err o' of None \<Rightarrow> w_Outcome (swo_result o') = Healthy | Some e \<Rightarrow> errIs e Canceled"
  using wpD [OF wp_combineOutcomes assms(1)] assms(2,3) by blast

theorem combined_verdict_sound_witness:
  "w_Outcome (swo_result \<lparr>swo_stack = bareStack ''a'', swo_result = zeroResult\<lparr>w_Outcome := Healthy\<rparr>, swo_err = None\<rparr>) = Healthy"
proof -
  let ?o = "\<lparr>swo_stack = bareStack ''a'', swo_result = zeroResult\<lparr>w_Outcome := Healthy\<rparr>, swo_err = None\<rparr>"
  let ?sm = "\<lparr>ws_combined = zeroResult\<lparr>w_Outcome := Healthy\<rparr>, ws_baselines = Map.empty, ws_reasons = [], ws_notEvaluated = []\<rparr>"
  have "run_state (combineOutcomes (demoDeps demoState None demoSnapshot) CallerCtx [?o] ?sm) ()
      = (Inr (?sm\<lparr>ws_baselines := [''a'' \<mapsto> w_Baseline zeroResult]\<rparr>), ())"
    by (simp add: bareStack_def Let_def)
  from combined_verdict_sound [OF this, of ?o] show ?thesis by simp
qed

end
