(* ===== verification/CliFlags.thy ===== *)
theory CliFlags
  imports Config
begin

text \<open>
  The command line: \<^verbatim>\<open>cmd/composelock/flags.go\<close>, and from \<^verbatim>\<open>main.go\<close> \<open>parseArgs\<close> and \<open>checkFlagsFor\<close>.
  The parser of Go's \<^verbatim>\<open>flag\<close> package is modelled with them; the parsers of its integer and duration
  values are parameters. The flags are the values that were set, by name: what \<^verbatim>\<open>FlagSet.Visit\<close> visits.
\<close>

datatype flagKind = KString | KInt | KDuration | KBool

datatype flagVal = VString string | VInt int | VDuration duration | VBool bool

type_synonym cliFlags = "string \<rightharpoonup> flagVal"

record valueParsers =
  parseInt :: "string \<Rightarrow> int option"
  parseDuration :: "string \<Rightarrow> duration option"

definition newCLIFlags :: "(string \<times> flagKind) list" where
  "newCLIFlags = [
     (''config'', KString), (''repo'', KString), (''remote'', KString), (''branch'', KString),
     (''compose-file'', KString), (''compose-dir'', KString), (''project-name'', KString),
     (''state-file'', KString), (''discord'', KString), (''repo-url'', KString), (''ssh-key'', KString),
     (''retry-attempts'', KInt), (''retry-delay'', KDuration), (''poll-interval'', KDuration),
     (''monitor-interval'', KDuration), (''health-watch'', KDuration), (''health-interval'', KDuration),
     (''restart-tolerance'', KInt), (''health-streak'', KInt), (''docker-timeout'', KDuration),
     (''docker-up-timeout'', KDuration), (''pprof-listen'', KString), (''deploy-window'', KString),
     (''webhook-listen'', KString), (''webhook-path'', KString), (''log-format'', KString),
     (''log-level'', KString), (''for'', KDuration), (''reason'', KString), (''dry-run'', KBool),
     (''force'', KBool), (''init'', KBool), (''with-state'', KBool), (''version'', KBool)]"

text \<open>The fields of \<^verbatim>\<open>cliFlags\<close>: the value that was set, or the zero value.\<close>

definition fString :: "cliFlags \<Rightarrow> string \<Rightarrow> string" where
  "fString f name = (case f name of Some (VString s) \<Rightarrow> s | _ \<Rightarrow> [])"

definition fInt :: "cliFlags \<Rightarrow> string \<Rightarrow> int" where
  "fInt f name = (case f name of Some (VInt i) \<Rightarrow> i | _ \<Rightarrow> 0)"

definition fDuration :: "cliFlags \<Rightarrow> string \<Rightarrow> duration" where
  "fDuration f name = (case f name of Some (VDuration d) \<Rightarrow> d | _ \<Rightarrow> 0)"

definition fBool :: "cliFlags \<Rightarrow> string \<Rightarrow> bool" where
  "fBool f name = (case f name of Some (VBool b) \<Rightarrow> b | _ \<Rightarrow> False)"

section \<open>The flag package\<close>

text \<open>\<^verbatim>\<open>strconv.ParseBool\<close>, and \<^verbatim>\<open>Value.Set\<close> of the four kinds.\<close>

definition parseBool :: "string \<Rightarrow> bool option" where
  "parseBool s =
     (if s \<in> set [''1'', ''t'', ''T'', ''true'', ''TRUE'', ''True''] then Some True
      else if s \<in> set [''0'', ''f'', ''F'', ''false'', ''FALSE'', ''False''] then Some False else None)"

fun setValue :: "valueParsers \<Rightarrow> flagKind \<Rightarrow> string \<Rightarrow> flagVal option" where
  "setValue ps KString s = Some (VString s)"
| "setValue ps KInt s = map_option VInt (parseInt ps s)"
| "setValue ps KDuration s = map_option VDuration (parseDuration ps s)"
| "setValue ps KBool s = map_option VBool (parseBool s)"

datatype flagError = ErrHelp | ErrBadFlag

text \<open>The first argument as \<^verbatim>\<open>parseOne\<close> reads it: no flag, the terminator, bad syntax, or a name with the
  value after its first equals sign.\<close>

datatype token = NoFlag | Terminator | BadSyntax | Flag string "string option"

definition readFlag :: "string \<Rightarrow> token" where
  "readFlag s =
     (if length s < 2 \<or> hd s \<noteq> CHR ''-'' then NoFlag
      else if s = ''--'' then Terminator
      else let name = (if HasPrefix s ''--'' then drop 2 s else drop 1 s)
           in if HasPrefix name ''-'' \<or> HasPrefix name ''='' then BadSyntax
              else case Cut name ''='' of (n, v, found) \<Rightarrow> if found then Flag n (Some v) else Flag n None)"

text \<open>The value of a flag and the arguments after it: a value in the same argument, \<^verbatim>\<open>true\<close> for a boolean
  flag, or the next argument.\<close>

fun takeValue :: "flagKind \<Rightarrow> string option \<Rightarrow> string list \<Rightarrow> (string \<times> string list) option" where
  "takeValue kind (Some v) args = Some (v, args)"
| "takeValue kind None args =
     (if kind = KBool then Some (''true'', args)
      else case args of [] \<Rightarrow> None | v # args' \<Rightarrow> Some (v, args'))"

lemma takeValue_shorter: "takeValue kind val args = Some (v, args') \<Longrightarrow> length args' \<le> length args"
  by (cases val) (auto split: if_splits list.splits)

text \<open>\<^verbatim>\<open>FlagSet.Parse\<close>: the flags and the arguments that are left.\<close>

function parseFlags :: "valueParsers \<Rightarrow> cliFlags \<Rightarrow> string list \<Rightarrow> flagError + cliFlags \<times> string list" where
  "parseFlags ps f [] = Inr (f, [])"
| "parseFlags ps f (s # args) =
     (case readFlag s of
        NoFlag \<Rightarrow> Inr (f, s # args)
      | Terminator \<Rightarrow> Inr (f, args)
      | BadSyntax \<Rightarrow> Inl ErrBadFlag
      | Flag name val \<Rightarrow>
          (case map_of newCLIFlags name of
             None \<Rightarrow> Inl (if name = ''help'' \<or> name = ''h'' then ErrHelp else ErrBadFlag)
           | Some kind \<Rightarrow>
               (case takeValue kind val args of
                  None \<Rightarrow> Inl ErrBadFlag
                | Some (v, args') \<Rightarrow>
                    (case setValue ps kind v of
                       None \<Rightarrow> Inl ErrBadFlag
                     | Some x \<Rightarrow> parseFlags ps (f(name \<mapsto> x)) args'))))"
  by pat_completeness auto
termination
  by (relation "measure (\<lambda>(_, _, args). length args)") (auto dest: takeValue_shorter)

text \<open>The flags after one step, when the first argument is a flag that takes a value.\<close>

lemma parseFlags_induct [consumes 1, case_names none stop terminator flag]:
  assumes "parseFlags ps f args = Inr (f', rest)"
    and "\<And>f. P f [] f []"
    and "\<And>f s args. readFlag s = NoFlag \<Longrightarrow> P f (s # args) f (s # args)"
    and "\<And>f s args. readFlag s = Terminator \<Longrightarrow> P f (s # args) f args"
    and "\<And>f s args f' rest name kind val v args' x. readFlag s = Flag name val \<Longrightarrow> map_of newCLIFlags name = Some kind \<Longrightarrow>
           takeValue kind val args = Some (v, args') \<Longrightarrow> setValue ps kind v = Some x \<Longrightarrow>
           P (f(name \<mapsto> x)) args' f' rest \<Longrightarrow> P f (s # args) f' rest"
  shows "P f args f' rest"
  using assms
proof (induction ps f args rule: parseFlags.induct)
  case (2 ps f s args)
  show ?case
  proof (cases "readFlag s")
    case (Flag name val)
    with "2.prems"(1) obtain kind v args' x where one: "map_of newCLIFlags name = Some kind"
        "takeValue kind val args = Some (v, args')" "setValue ps kind v = Some x"
        "parseFlags ps (f(name \<mapsto> x)) args' = Inr (f', rest)"
      by (auto split: option.splits)
    show ?thesis
      by (rule "2.prems"(5) [OF Flag one(1-3)], rule "2.IH" [OF Flag one(1,2) refl one(3,4) "2.prems"(2,3,4,5)])
  qed (use "2.prems"(1,3,4) in auto)
qed simp

lemma parseFlags_shorter: "parseFlags ps f args = Inr (f', rest) \<Longrightarrow> length rest \<le> length args"
  by (induction rule: parseFlags_induct) (auto dest: takeValue_shorter)

section \<open>Arguments\<close>

text \<open>Flags may stand before and after the command; the first argument that is no flag is the command.\<close>

function parseArgs :: "valueParsers \<Rightarrow> cliFlags \<Rightarrow> string \<Rightarrow> string list \<Rightarrow> flagError + string \<times> cliFlags" where
  "parseArgs ps f command rest =
     (case parseFlags ps f rest of
        Inl e \<Rightarrow> Inl e
      | Inr (f', []) \<Rightarrow> Inr (command, f')
      | Inr (f', arg # args) \<Rightarrow> parseArgs ps f' (if command = [] then arg else command) args)"
  by pat_completeness auto
termination
  by (relation "measure (\<lambda>(_, _, _, rest). length rest)") (auto dest!: parseFlags_shorter)

declare parseArgs.simps [simp del]

text \<open>The texts of the flags that the command does not take; \<^verbatim>\<open>Visit\<close> goes in the order of the names.\<close>

definition visited :: "(string \<Rightarrow> bool) \<Rightarrow> string list \<Rightarrow> string list" where
  "visited given names = map (\<lambda>n. ''-'' @ n) (filter given names)"

definition checkFlagsFor :: "string \<Rightarrow> cliFlags \<Rightarrow> err option" where
  "checkFlagsFor command f =
     (let misplaced = visited (\<lambda>n. f n \<noteq> None) [''for'', ''reason''];
          rejected = visited (\<lambda>n. f n \<noteq> None \<and> f n \<noteq> Some (VBool False)) [''dry-run'', ''force'']
      in if command \<noteq> ''pause'' \<and> misplaced \<noteq> []
           then Some (errorf (Join misplaced '' and '' @ '' only applies to the pause command''))
         else if command = ''pause'' \<and> fDuration f ''for'' < 0
           then Some (errorf (''-for must not be negative, got '' @ durationString (fDuration f ''for'')))
         else if command \<noteq> ''poll'' \<and> command \<noteq> ''webhook'' then None
         else if rejected \<noteq> []
           then Some (errorf (command @ '' does not accept '' @ Join rejected '' and '' @ '': it always reconciles for real''))
         else None)"

definition ifSet :: "cliFlags \<Rightarrow> string \<Rightarrow> 'a \<Rightarrow> 'a option" where
  "ifSet f name x = (if f name = None then None else Some x)"

definition overrides :: "cliFlags \<Rightarrow> Overrides" where
  "overrides f = \<lparr>
     o_RepoPath = ifSet f ''repo'' (fString f ''repo''),
     o_Remote = ifSet f ''remote'' (fString f ''remote''),
     o_Branch = ifSet f ''branch'' (fString f ''branch''),
     o_ComposeFile = ifSet f ''compose-file'' (fString f ''compose-file''),
     o_ComposeDir = ifSet f ''compose-dir'' (fString f ''compose-dir''),
     o_ProjectName = ifSet f ''project-name'' (fString f ''project-name''),
     o_StateFile = ifSet f ''state-file'' (fString f ''state-file''),
     o_SSHKey = ifSet f ''ssh-key'' (fString f ''ssh-key''),
     o_Discord = ifSet f ''discord'' (fString f ''discord''),
     o_RepoURL = ifSet f ''repo-url'' (fString f ''repo-url''),
     o_LogFormat = ifSet f ''log-format'' (fString f ''log-format''),
     o_LogLevel = ifSet f ''log-level'' (fString f ''log-level''),
     o_PprofListen = ifSet f ''pprof-listen'' (fString f ''pprof-listen''),
     o_Window = ifSet f ''deploy-window'' (fString f ''deploy-window''),
     o_WebhookListen = ifSet f ''webhook-listen'' (fString f ''webhook-listen''),
     o_WebhookPath = ifSet f ''webhook-path'' (fString f ''webhook-path''),
     o_RetryAttempts = ifSet f ''retry-attempts'' (fInt f ''retry-attempts''),
     o_RestartTolerance = ifSet f ''restart-tolerance'' (fInt f ''restart-tolerance''),
     o_HealthStreak = ifSet f ''health-streak'' (fInt f ''health-streak''),
     o_RetryDelay = ifSet f ''retry-delay'' (fDuration f ''retry-delay''),
     o_PollInterval = ifSet f ''poll-interval'' (fDuration f ''poll-interval''),
     o_MonitorInterval = ifSet f ''monitor-interval'' (fDuration f ''monitor-interval''),
     o_HealthWatch = ifSet f ''health-watch'' (fDuration f ''health-watch''),
     o_HealthInterval = ifSet f ''health-interval'' (fDuration f ''health-interval''),
     o_DockerTimeout = ifSet f ''docker-timeout'' (fDuration f ''docker-timeout''),
     o_DockerUp = ifSet f ''docker-up-timeout'' (fDuration f ''docker-up-timeout'')\<rparr>"

section \<open>Properties\<close>

text \<open>The type of a value fits the flag it is stored under.\<close>

fun hasKind :: "flagKind \<Rightarrow> flagVal \<Rightarrow> bool" where
  "hasKind KString (VString _) = True"
| "hasKind KInt (VInt _) = True"
| "hasKind KDuration (VDuration _) = True"
| "hasKind KBool (VBool _) = True"
| "hasKind _ _ = False"

definition wfFlags :: "cliFlags \<Rightarrow> bool" where
  "wfFlags f \<longleftrightarrow> (\<forall>name v. f name = Some v \<longrightarrow> (\<exists>kind. map_of newCLIFlags name = Some kind \<and> hasKind kind v))"

lemma wfFlags_empty: "wfFlags Map.empty"
  by (simp add: wfFlags_def)

lemma setValue_kind: "setValue ps kind s = Some v \<Longrightarrow> hasKind kind v"
  by (cases kind) auto

lemma wfFlags_update: "wfFlags f \<Longrightarrow> map_of newCLIFlags name = Some kind \<Longrightarrow> hasKind kind v \<Longrightarrow> wfFlags (f(name \<mapsto> v))"
  by (simp add: wfFlags_def)

lemma parseFlags_wf: "parseFlags ps f args = Inr (f', rest) \<Longrightarrow> wfFlags f \<Longrightarrow> wfFlags f'"
  by (induction rule: parseFlags_induct) (auto dest: setValue_kind wfFlags_update)

lemma parseArgs_wf: "parseArgs ps f command args = Inr (command', f') \<Longrightarrow> wfFlags f \<Longrightarrow> wfFlags f'"
proof (induction ps f command args rule: parseArgs.induct)
  case (1 ps f command rest)
  then show ?case
    by (auto simp: parseArgs.simps [of ps f] dest: parseFlags_wf split: sum.splits list.splits)
qed

text \<open>The parsed flags are well-typed: every flag that was set is one the program declares, and its value
  has the declared type.\<close>

theorem parsed_flags_typed:
  "parseArgs ps Map.empty [] args = Inr (command, f) \<Longrightarrow> f name = Some v \<Longrightarrow>
     \<exists>kind. map_of newCLIFlags name = Some kind \<and> hasKind kind v"
  using parseArgs_wf [OF _ wfFlags_empty] unfolding wfFlags_def by blast

definition demoParsers :: valueParsers where
  "demoParsers = \<lparr>parseInt = Atoi, parseDuration = (\<lambda>s. if s = ''2h'' then Some (2 * hour) else None)\<rparr>"

lemma demo_parsed:
  assumes "case parseArgs demoParsers Map.empty [] args of Inl _ \<Rightarrow> False | Inr (c, f) \<Rightarrow> f name = Some v"
  obtains c f where "parseArgs demoParsers Map.empty [] args = Inr (c, f)" "f name = Some v"
  using assms by (cases "parseArgs demoParsers Map.empty [] args") auto

theorem parsed_flags_typed_witness:
  "\<exists>kind. map_of newCLIFlags ''force'' = Some kind \<and> hasKind kind (VBool True)"
proof -
  have "case parseArgs demoParsers Map.empty [] [''sync'', ''--force''] of Inl _ \<Rightarrow> False | Inr (c, f) \<Rightarrow> f ''force'' = Some (VBool True)"
    by code_simp
  then show ?thesis by (rule demo_parsed) (rule parsed_flags_typed)
qed

text \<open>A setting: the name of a flag, a text it accepts and the value of that text.\<close>

type_synonym setting = "string \<times> string \<times> flagVal"

definition accepts :: "valueParsers \<Rightarrow> setting \<Rightarrow> bool" where
  "accepts ps = (\<lambda>(name, text, x). case map_of newCLIFlags name of
     None \<Rightarrow> False | Some kind \<Rightarrow> setValue ps kind text = Some x)"

text \<open>The ways to write a setting: with one dash or two, the value after an equals sign or in the next argument, and no value
  for a switch that is turned on.\<close>

definition spelled :: "setting \<Rightarrow> string list \<Rightarrow> bool" where
  "spelled = (\<lambda>(name, text, x) args. \<exists>dashes\<in>{''-'', ''--''}.
     args = [dashes @ name @ ''='' @ text] \<or> (args = [dashes @ name, text] \<and> \<not> hasKind KBool x)
       \<or> (args = [dashes @ name] \<and> x = VBool True))"

definition setAll :: "cliFlags \<Rightarrow> setting list \<Rightarrow> cliFlags" where
  "setAll = foldl (\<lambda>f (name, text, x). f(name \<mapsto> x))"

lemma flag_names: "list_all (\<lambda>(n, _). n \<noteq> [] \<and> hd n \<notin> {CHR ''-'', CHR ''=''} \<and> CHR ''='' \<notin> set n) newCLIFlags"
  by code_simp

lemma flag_name:
  assumes "map_of newCLIFlags name = Some kind"
  obtains x xs where "name = x # xs" and "x \<noteq> CHR ''-''" and "x \<noteq> CHR ''=''" and "CHR ''='' \<notin> set name"
proof -
  have "name \<noteq> []" "hd name \<notin> {CHR ''-'', CHR ''=''}" "CHR ''='' \<notin> set name"
    using map_of_SomeD [OF assms] flag_names by (auto simp: list_all_iff)
  with that show ?thesis by (cases name) auto
qed

lemma readFlag_value:
  assumes "map_of newCLIFlags name = Some kind" and "dashes \<in> {''-'', ''--''}"
  shows "readFlag (dashes @ name @ ''='' @ text) = Flag name (Some text)"
proof -
  obtain x xs where n: "name = x # xs" "x \<noteq> CHR ''-''" "x \<noteq> CHR ''=''" "CHR ''='' \<notin> set name" using flag_name [OF assms(1)] .
  with assms(2) Cut_first [of "CHR ''=''" name "text"] show ?thesis by (auto simp: readFlag_def HasPrefix_def)
qed

lemma Cut_absent: "c \<notin> set s \<Longrightarrow> Cut s [c] = (s, [], False)"
  by (induction s) (auto simp: HasPrefix_def)

lemma readFlag_bare:
  assumes "map_of newCLIFlags name = Some kind" and "dashes \<in> {''-'', ''--''}"
  shows "readFlag (dashes @ name) = Flag name None"
proof -
  obtain x xs where n: "name = x # xs" "x \<noteq> CHR ''-''" "x \<noteq> CHR ''=''" "CHR ''='' \<notin> set name" using flag_name [OF assms(1)] .
  with assms(2) Cut_absent [of "CHR ''=''" name] show ?thesis by (auto simp: readFlag_def HasPrefix_def)
qed

lemma parseFlags_spelled:
  "list_all2 spelled fs argss \<Longrightarrow> list_all (accepts ps) fs \<Longrightarrow>
     parseFlags ps f (concat argss @ args) = parseFlags ps (setAll f fs) args"
proof (induction fs argss arbitrary: f rule: list_all2_induct)
  case (Cons s fs as argss)
  obtain name "text" x where s: "s = (name, text, x)" by (cases s)
  with Cons.prems obtain kind where kind: "map_of newCLIFlags name = Some kind" "setValue ps kind text = Some x"
    by (auto simp: accepts_def split: option.splits)
  have "hasKind kind x" using setValue_kind [OF kind(2)] .
  then have switch: "kind = KBool \<longleftrightarrow> hasKind KBool x" by (cases kind; cases x) auto
  from Cons.hyps(1) have "\<exists>dashes\<in>{''-'', ''--''}. as = [dashes @ name @ ''='' @ text] \<or> (as = [dashes @ name, text] \<and> kind \<noteq> KBool)
      \<or> (as = [dashes @ name] \<and> x = VBool True)" by (auto simp: s spelled_def switch)
  then obtain dashes where dashes: "dashes \<in> {''-'', ''--''}" and
      "as = [dashes @ name @ ''='' @ text] \<or> (as = [dashes @ name, text] \<and> kind \<noteq> KBool) \<or> (as = [dashes @ name] \<and> x = VBool True)" ..
  then consider "as = [dashes @ name @ ''='' @ text]" | "as = [dashes @ name, text]" "kind \<noteq> KBool"
    | "as = [dashes @ name]" "x = VBool True" by blast
  then have "parseFlags ps f (as @ concat argss @ args) = parseFlags ps (f(name \<mapsto> x)) (concat argss @ args)"
  proof cases
    case 3
    then have "kind = KBool" using switch by simp
    with 3 show ?thesis using kind readFlag_bare [OF kind(1) dashes] by (simp add: parseBool_def)
  qed (use kind readFlag_value [OF kind(1) dashes] readFlag_bare [OF kind(1) dashes] in simp_all)
  with Cons s show ?case by (simp add: setAll_def fun_upd_def)
qed (simp add: setAll_def)

text \<open>Flags mean the same before and after the command, and parsing reads back what was written: with
  acceptable settings on both sides of a command, exactly these flags are set, the last setting of a
  flag winning, and the command is found.\<close>

theorem flags_around_command:
  assumes "list_all (accepts ps) (fs @ gs)" and "list_all2 spelled fs before" and "list_all2 spelled gs after"
    and "readFlag command = NoFlag" and "command \<noteq> []"
  shows "parseArgs ps Map.empty [] (concat before @ command # concat after) = Inr (command, setAll Map.empty (fs @ gs))"
proof -
  have "parseFlags ps (setAll Map.empty fs) (concat after @ []) = parseFlags ps (setAll (setAll Map.empty fs) gs) []"
    using assms(1,3) by (intro parseFlags_spelled) simp_all
  then have "parseArgs ps (setAll Map.empty fs) command (concat after) = Inr (command, setAll Map.empty (fs @ gs))"
    by (simp add: parseArgs.simps [of _ _ command] setAll_def)
  moreover have "parseFlags ps Map.empty (concat before @ command # concat after) = Inr (setAll Map.empty fs, command # concat after)"
    using assms by (simp add: parseFlags_spelled)
  ultimately show ?thesis using assms(5) by (simp add: parseArgs.simps [of _ "Map.empty"])
qed

theorem flags_around_command_witness:
  "parseArgs demoParsers Map.empty [] [''-for=2h'', ''pause'', ''--reason'', ''freeze'']
     = Inr (''pause'', [''for'' \<mapsto> VDuration (2 * hour), ''reason'' \<mapsto> VString ''freeze''])"
proof -
  let ?for = "(''for'', ''2h'', VDuration (2 * hour))" and ?reason = "(''reason'', ''freeze'', VString ''freeze'')"
  have "list_all (accepts demoParsers) ([?for] @ [?reason])"
      "list_all2 spelled [?for] [[''-for=2h'']]" "list_all2 spelled [?reason] [[''--reason'', ''freeze'']]"
      "readFlag ''pause'' = NoFlag" by code_simp+
  from flags_around_command [OF this] show ?thesis by (simp add: setAll_def)
qed

text \<open>The settings of the configuration that are texts, with the flags that override them.\<close>

definition textSettings :: "(string \<times> (Config \<Rightarrow> string)) list" where
  "textSettings = [(''repo'', cfg_RepoPath), (''remote'', cfg_Remote), (''branch'', cfg_Branch),
     (''compose-file'', cfg_ComposeFile), (''compose-dir'', cfg_ComposeDir), (''project-name'', cfg_ProjectName),
     (''state-file'', cfg_StateFile), (''ssh-key'', cfg_SSHKey), (''discord'', cfg_DiscordWebhook),
     (''repo-url'', cfg_RepoURL), (''log-format'', cfg_LogFormat), (''log-level'', cfg_LogLevel),
     (''pprof-listen'', cfg_PprofListen), (''deploy-window'', cfg_DeployWindow),
     (''webhook-listen'', \<lambda>c. wh_Listen (cfg_Webhook c)), (''webhook-path'', \<lambda>c. wh_Path (cfg_Webhook c))]"

lemma fString_wf:
  assumes "wfFlags f" and "map_of newCLIFlags name = Some KString"
  shows "setString old (ifSet f name (fString f name)) = (case f name of Some (VString s) \<Rightarrow> s | _ \<Rightarrow> old)"
proof (cases "f name")
  case (Some v)
  then have "hasKind KString v" using assms unfolding wfFlags_def by (metis option.sel)
  then show ?thesis using Some by (cases v) (simp_all add: setString_def ifSet_def fString_def)
qed (simp add: setString_def ifSet_def)

text \<open>A flag wins over the configuration file, and a flag that was not given changes nothing: after the
  flags have been applied, every textual setting has the value of its flag if the flag was given and
  its old value otherwise. A flag given with an empty value clears the setting.\<close>

theorem flags_override_settings:
  assumes "parseArgs ps Map.empty [] args = Inr (command, f)"
  shows "list_all (\<lambda>(name, get). get (fst (Apply c (overrides f))) = (case f name of Some (VString s) \<Rightarrow> s | _ \<Rightarrow> get c)) textSettings"
proof -
  have wf: "wfFlags f" using parseArgs_wf [OF assms wfFlags_empty] .
  have "list_all (\<lambda>(name, get). map_of newCLIFlags name = Some KString) textSettings" by code_simp
  then show ?thesis
    unfolding textSettings_def by (simp add: Apply_def Let_def overrides_def fString_wf [OF wf] split: prod.splits)
qed

theorem flags_override_settings_witness:
  "\<exists>f. f ''branch'' = Some (VString ''release'') \<and> cfg_Branch (fst (Apply Default (overrides f))) = ''release''"
proof -
  have "case parseArgs demoParsers Map.empty [] [''sync'', ''-branch'', ''release''] of Inl _ \<Rightarrow> False
      | Inr (c, f) \<Rightarrow> f ''branch'' = Some (VString ''release'')"
    by code_simp
  then obtain c f where f: "parseArgs demoParsers Map.empty [] [''sync'', ''-branch'', ''release''] = Inr (c, f)"
      "f ''branch'' = Some (VString ''release'')" by (rule demo_parsed)
  from flags_override_settings [OF f(1), of Default] f(2) show ?thesis by (auto simp: textSettings_def)
qed

section \<open>The documented flags\<close>

text \<open>
  What the usage text and the manual promise of the flags: the name and the type of each, and the setting of the configuration
  it stands for. Besides the texts of \<^const>\<open>textSettings\<close> there are the path of the configuration and the
  reason of a pause, besides the durations the length of a pause.
\<close>

definition intSettings :: "(string \<times> (Config \<Rightarrow> int)) list" where
  "intSettings = [(''retry-attempts'', cfg_RetryAttempts), (''restart-tolerance'', cfg_HealthRestartTolerance),
     (''health-streak'', cfg_HealthUnhealthyStreak)]"

definition durationSettings :: "(string \<times> (Config \<Rightarrow> int)) list" where
  "durationSettings = [(''retry-delay'', cfg_RetryDelaySeconds), (''poll-interval'', cfg_PollIntervalSeconds),
     (''monitor-interval'', cfg_MonitorIntervalSeconds), (''health-watch'', cfg_HealthWatchSeconds),
     (''health-interval'', cfg_HealthPollIntervalSeconds), (''docker-timeout'', cfg_DockerTimeoutSeconds),
     (''docker-up-timeout'', cfg_DockerUpTimeoutSeconds)]"

fun documentedAs :: "string \<Rightarrow> flagVal \<Rightarrow> bool" where
  "documentedAs name (VString _) = (name \<in> set (map fst textSettings @ [''config'', ''reason'']))"
| "documentedAs name (VInt _) = (name \<in> set (map fst intSettings))"
| "documentedAs name (VDuration _) = (name \<in> set (map fst durationSettings @ [''for'']))"
| "documentedAs name (VBool _) = (name \<in> set [''dry-run'', ''force'', ''init'', ''with-state'', ''version''])"

fun denotes :: "valueParsers \<Rightarrow> string \<Rightarrow> flagVal \<Rightarrow> bool" where
  "denotes ps text (VString s) = (text = s)"
| "denotes ps text (VInt i) = (parseInt ps text = Some i)"
| "denotes ps text (VDuration d) = (parseDuration ps text = Some d)"
| "denotes ps text (VBool b) = (parseBool text = Some b)"

definition documented :: "valueParsers \<Rightarrow> setting \<Rightarrow> bool" where
  "documented ps = (\<lambda>(name, text, x). documentedAs name x \<and> denotes ps text x)"

fun kindOf :: "flagVal \<Rightarrow> flagKind" where
  "kindOf (VString _) = KString"
| "kindOf (VInt _) = KInt"
| "kindOf (VDuration _) = KDuration"
| "kindOf (VBool _) = KBool"

lemma hasKind_iff: "hasKind kind v \<longleftrightarrow> kind = kindOf v"
  by (cases kind; cases v) simp_all

lemma setValue_iff: "setValue ps (kindOf v) text = Some v \<longleftrightarrow> denotes ps text v"
  by (cases v) auto

text \<open>The table of the program has the documented flags, and no others.\<close>

lemma newCLIFlags_documented: "map_of newCLIFlags name = Some (kindOf v) \<longleftrightarrow> documentedAs name v"
proof -
  have kinds: "distinct (map fst newCLIFlags)"
      "set (map fst (filter (\<lambda>(n, k). k = KString) newCLIFlags)) = set (map fst textSettings @ [''config'', ''reason''])"
      "set (map fst (filter (\<lambda>(n, k). k = KInt) newCLIFlags)) = set (map fst intSettings)"
      "set (map fst (filter (\<lambda>(n, k). k = KDuration) newCLIFlags)) = set (map fst durationSettings @ [''for''])"
      "set (map fst (filter (\<lambda>(n, k). k = KBool) newCLIFlags)) = set [''dry-run'', ''force'', ''init'', ''with-state'', ''version'']"
    by code_simp+
  have member: "map_of newCLIFlags name = Some kind \<longleftrightarrow> name \<in> set (map fst (filter (\<lambda>(n, k). k = kind) newCLIFlags))" for kind
    using kinds(1) by (force simp: map_of_eq_Some_iff)
  show ?thesis by (cases v) (simp_all only: member kindOf.simps kinds documentedAs.simps)
qed

lemma documented_accepts: "documented ps s \<longleftrightarrow> accepts ps s"
proof -
  obtain name "text" x where s: "s = (name, text, x)" by (cases s)
  have "accepts ps s \<longleftrightarrow> (\<exists>kind. map_of newCLIFlags name = Some kind \<and> setValue ps kind text = Some x)"
    by (auto simp: s accepts_def split: option.splits)
  also have "\<dots> \<longleftrightarrow> map_of newCLIFlags name = Some (kindOf x) \<and> setValue ps (kindOf x) text = Some x"
    by (metis hasKind_iff setValue_kind)
  finally show ?thesis by (simp add: s documented_def newCLIFlags_documented setValue_iff)
qed

lemma fInt_wf:
  assumes "wfFlags f" and "map_of newCLIFlags name = Some KInt"
  shows "setInt old (ifSet f name (fInt f name)) = (case f name of Some (VInt i) \<Rightarrow> i | _ \<Rightarrow> old)"
proof (cases "f name")
  case (Some v)
  then have "hasKind KInt v" using assms unfolding wfFlags_def by (metis option.sel)
  then show ?thesis using Some by (cases v) (simp_all add: setInt_def ifSet_def fInt_def)
qed (simp add: setInt_def ifSet_def)

lemma fDuration_wf:
  assumes "wfFlags f" and "map_of newCLIFlags name = Some KDuration"
  shows "ifSet f name (fDuration f name) = (case f name of Some (VDuration d) \<Rightarrow> Some d | _ \<Rightarrow> None)"
proof (cases "f name")
  case (Some v)
  then have "hasKind KDuration v" using assms unfolding wfFlags_def by (metis option.sel)
  then show ?thesis using Some by (cases v) (simp_all add: ifSet_def fDuration_def)
qed (simp add: ifSet_def)

text \<open>A duration that is a whole number of seconds becomes that number; any other one is an error and
  leaves the setting as it was.\<close>

lemma quot_whole: "d mod second = 0 \<Longrightarrow> quot d second * second = d"
  by (cases d "0 :: int" rule: linorder_cases) (auto simp: quot_def second_def elim!: dvdE simp flip: dvd_eq_mod_eq_0)

definition inSeconds :: "flagVal option \<Rightarrow> int \<Rightarrow> int \<Rightarrow> bool" where
  "inSeconds given old new = (case given of Some (VDuration d) \<Rightarrow> if d mod second = 0 then new * second = d else new = old | _ \<Rightarrow> new = old)"

lemma setSeconds_inSeconds:
  "inSeconds given old (fst (setSeconds old (case given of Some (VDuration d) \<Rightarrow> Some d | _ \<Rightarrow> None) field))"
  by (auto simp: inSeconds_def setSeconds_def quot_whole split: option.split flagVal.split)

lemma setSeconds_error:
  "snd (setSeconds old (case given of Some (VDuration d) \<Rightarrow> Some d | _ \<Rightarrow> None) field) = None
     \<longleftrightarrow> (\<forall>d. given = Some (VDuration d) \<longrightarrow> d mod second = 0)"
  by (auto simp: setSeconds_def split: option.split flagVal.split)

lemma setSeconds_wf:
  assumes "wfFlags f" and "map_of newCLIFlags name = Some KDuration"
  shows "inSeconds (f name) old (fst (setSeconds old (ifSet f name (fDuration f name)) field))"
  unfolding fDuration_wf [OF assms] by (rule setSeconds_inSeconds)

lemma setSeconds_wf_error:
  assumes "wfFlags f" and "map_of newCLIFlags name = Some KDuration"
  shows "snd (setSeconds old (ifSet f name (fDuration f name)) field) = None \<longleftrightarrow> (\<forall>d. f name = Some (VDuration d) \<longrightarrow> d mod second = 0)"
  unfolding fDuration_wf [OF assms] by (rule setSeconds_error)

lemma flags_override_ints:
  assumes "wfFlags f"
  shows "list_all (\<lambda>(name, get). get (fst (Apply c (overrides f))) = (case f name of Some (VInt i) \<Rightarrow> i | _ \<Rightarrow> get c)) intSettings"
proof -
  have "list_all (\<lambda>(name, get). map_of newCLIFlags name = Some KInt) intSettings" by code_simp
  then show ?thesis
    unfolding intSettings_def by (simp add: Apply_def Let_def overrides_def fInt_wf [OF assms] split: prod.splits)
qed

lemma flags_override_durations:
  assumes "wfFlags f"
  shows "list_all (\<lambda>(name, get). inSeconds (f name) (get c) (get (fst (Apply c (overrides f))))) durationSettings"
    and "snd (Apply c (overrides f)) = None \<longleftrightarrow>
      list_all (\<lambda>(name, get). \<forall>d. f name = Some (VDuration d) \<longrightarrow> d mod second = 0) durationSettings"
proof -
  have "list_all (\<lambda>(name, get). map_of newCLIFlags name = Some KDuration) durationSettings" by code_simp
  then show "list_all (\<lambda>(name, get). inSeconds (f name) (get c) (get (fst (Apply c (overrides f))))) durationSettings"
    unfolding durationSettings_def by (simp add: Apply_def Let_def case_prod_beta overrides_def setSeconds_wf [OF assms])
  have "list_all (\<lambda>(name, get). map_of newCLIFlags name = Some KDuration) durationSettings" by code_simp
  then show "snd (Apply c (overrides f)) = None \<longleftrightarrow>
      list_all (\<lambda>(name, get). \<forall>d. f name = Some (VDuration d) \<longrightarrow> d mod second = 0) durationSettings"
    unfolding durationSettings_def
    by (simp add: Apply_def Let_def case_prod_beta errJoin_None_iff overrides_def setSeconds_wf_error [OF assms])
qed

text \<open>C31: flags take effect as documented. Any documented flags may stand around the command, with one dash or two, their values after
  an equals sign or in the next argument; the command is found and exactly these flags are set, the last one of a name
  winning. In the configuration each text, number and duration of seconds is then the one of its flag, if that was given, and
  the old one otherwise; the flags are refused just when a duration is no whole number of seconds. And no
  other arguments are accepted: whatever is parsed, all flags are documented ones of the documented type.\<close>

theorem flags_take_effect:
  assumes "list_all (documented ps) (fs @ gs)" and "list_all2 spelled fs before" and "list_all2 spelled gs after"
    and "readFlag command = NoFlag" and "command \<noteq> []"
  defines "f \<equiv> setAll Map.empty (fs @ gs)"
  shows "parseArgs ps Map.empty [] (concat before @ command # concat after) = Inr (command, f)
    \<and> (case Apply c (overrides f) of (c', e) \<Rightarrow>
         list_all (\<lambda>(name, get). get c' = (case f name of Some (VString s) \<Rightarrow> s | _ \<Rightarrow> get c)) textSettings
         \<and> list_all (\<lambda>(name, get). get c' = (case f name of Some (VInt i) \<Rightarrow> i | _ \<Rightarrow> get c)) intSettings
         \<and> list_all (\<lambda>(name, get). inSeconds (f name) (get c) (get c')) durationSettings
         \<and> (e = None \<longleftrightarrow> list_all (\<lambda>(name, get). \<forall>d. f name = Some (VDuration d) \<longrightarrow> d mod second = 0) durationSettings))
    \<and> (\<forall>args command' f' name v. parseArgs ps Map.empty [] args = Inr (command', f') \<and> f' name = Some v \<longrightarrow> documentedAs name v)"
proof -
  have "list_all (accepts ps) (fs @ gs)" using assms(1) by (simp add: documented_accepts list_all_iff)
  from flags_around_command [OF this assms(2-5)] have parsed:
    "parseArgs ps Map.empty [] (concat before @ command # concat after) = Inr (command, f)" unfolding f_def .
  have typed: "documentedAs name v" if "parseArgs ps Map.empty [] args = Inr (command', f')" "f' name = Some v" for args command' f' name v
    using parsed_flags_typed [OF that] by (auto simp: hasKind_iff newCLIFlags_documented)
  note wf = parseArgs_wf [OF parsed wfFlags_empty]
  show ?thesis
    using parsed typed flags_override_settings [OF parsed, of c] flags_override_ints [OF wf, of c] flags_override_durations [OF wf, of c]
    by (auto split: prod.split)
qed

text \<open>A number and a duration before the command, a text and a switch after it.\<close>

theorem flags_take_effect_witness:
  "\<exists>f. parseArgs demoParsers Map.empty [] [''-retry-attempts=5'', ''--poll-interval'', ''2h'', ''sync'', ''-branch'', ''release'', ''-force''] = Inr (''sync'', f)
     \<and> cfg_RetryAttempts (fst (Apply Default (overrides f))) = 5 \<and> cfg_PollIntervalSeconds (fst (Apply Default (overrides f))) * second = 2 * hour
     \<and> cfg_Branch (fst (Apply Default (overrides f))) = ''release'' \<and> fBool f ''force''"
proof -
  let ?fs = "[(''retry-attempts'', ''5'', VInt 5), (''poll-interval'', ''2h'', VDuration (2 * hour))]"
  let ?gs = "[(''branch'', ''release'', VString ''release''), (''force'', ''true'', VBool True)]"
  have "list_all (documented demoParsers) (?fs @ ?gs)" "list_all2 spelled ?fs [[''-retry-attempts=5''], [''--poll-interval'', ''2h'']]"
    "list_all2 spelled ?gs [[''-branch'', ''release''], [''-force'']]" "readFlag ''sync'' = NoFlag" by code_simp+
  from flags_take_effect [OF this, of Default] show ?thesis
    by (auto simp: setAll_def textSettings_def intSettings_def durationSettings_def inSeconds_def hour_def second_def fBool_def
        minute_def split: prod.splits)
qed

text \<open>The daemons take no one-off flags.\<close>

lemma daemon_flags:
  assumes "command = ''poll'' \<or> command = ''webhook''" and "checkFlagsFor command f = None"
  shows "\<not> fBool f ''dry-run''" and "\<not> fBool f ''force''" and "f ''for'' = None" and "f ''reason'' = None"
  using assms by (auto simp: checkFlagsFor_def Let_def visited_def fBool_def split: if_splits option.splits flagVal.splits)

end
