(* ===== verification/Webhook.thy ===== *)
theory Webhook
  imports Config
begin

text \<open>
  The webhook server: \<^verbatim>\<open>internal/webhook/server.go\<close>. \<open>handleWebhook\<close> decides about one request; the
  queue of triggers is a channel of capacity one, so its state is whether a trigger is queued. The
  server as a whole is the step relation \<open>serverStep\<close>: requests, the worker that takes triggers and
  runs them one after another, and the shutdown, interleaved in any order. The HMAC of
  \<^verbatim>\<open>crypto/hmac\<close> with SHA-256 and the parser of \<^verbatim>\<open>encoding/json\<close> are parameters.
\<close>

definition maxBodyBytes :: nat where
  "maxBodyBytes = 1048576"

definition refHeadPrefix :: string where
  "refHeadPrefix = ''refs/heads/''"

record ServerConfig =
  sc_Addr :: string
  sc_Path :: string
  sc_Secret :: string
  sc_Branch :: string

text \<open>A request: its method and path, its body (\<^const>\<open>None\<close> when reading it fails) and the two headers, empty when missing.\<close>

record Request =
  rq_Method :: string
  rq_Path :: string
  rq_Body :: "string option"
  rq_Signature :: string
  rq_Event :: string

text \<open>\<^verbatim>\<open>io.ReadAll\<close> over \<^verbatim>\<open>http.MaxBytesReader\<close>.\<close>

definition readBody :: "Request \<Rightarrow> string option" where
  "readBody r = (case rq_Body r of None \<Rightarrow> None | Some b \<Rightarrow> if length b \<le> maxBodyBytes then Some b else None)"

text \<open>\<^verbatim>\<open>hex.EncodeToString\<close>.\<close>

definition hexEncode :: "string \<Rightarrow> string" where
  "hexEncode bs = concat (map (\<lambda>b. [hexDigit (byte b div 16), hexDigit (byte b)]) bs)"

type_synonym hmac = "string \<Rightarrow> string \<Rightarrow> string"

definition validSignature :: "hmac \<Rightarrow> ServerConfig \<Rightarrow> string \<Rightarrow> string \<Rightarrow> bool" where
  "validSignature mac cfg header body \<longleftrightarrow>
     (if sc_Secret cfg = [] then True
      else case CutPrefix header ''sha256='' of
        (sig, ok) \<Rightarrow> if \<not> ok then False else sig = hexEncode (mac (sc_Secret cfg) body))"

text \<open>\<^const>\<open>None\<close> is Go's \<^verbatim>\<open>("", false)\<close>.\<close>

definition pushRef :: "(string \<Rightarrow> err + json) \<Rightarrow> string \<Rightarrow> string option" where
  "pushRef parseJSON body =
     (case parseJSON body of
        Inr (JObject kvs) \<Rightarrow>
          (case decString (jlookup ''ref'' (foldKeys kvs)) of
             None \<Rightarrow> None
           | Some ref \<Rightarrow> if ref = [] then None else Some ref)
      | _ \<Rightarrow> None)"

definition refMatches :: "ServerConfig \<Rightarrow> string \<Rightarrow> bool" where
  "refMatches cfg ref \<longleftrightarrow> (if sc_Branch cfg = [] then True else TrimPrefix ref refHeadPrefix = sc_Branch cfg)"

text \<open>Whether the trigger was queued, and the queue afterwards.\<close>

definition Trigger :: "bool \<Rightarrow> bool \<times> bool" where
  "Trigger queued = (if \<not> queued then (True, True) else (False, queued))"

definition StatusOK :: int where "StatusOK = 200"
definition StatusAccepted :: int where "StatusAccepted = 202"
definition StatusBadRequest :: int where "StatusBadRequest = 400"
definition StatusUnauthorized :: int where "StatusUnauthorized = 401"

text \<open>The status of the answer and the queue afterwards.\<close>

definition handleWebhook :: "hmac \<Rightarrow> (string \<Rightarrow> err + json) \<Rightarrow> ServerConfig \<Rightarrow> Request \<Rightarrow> bool \<Rightarrow> int \<times> bool" where
  "handleWebhook mac parseJSON cfg r queued =
     (case readBody r of
        None \<Rightarrow> (StatusBadRequest, queued)
      | Some body \<Rightarrow>
          if \<not> validSignature mac cfg (rq_Signature r) body then (StatusUnauthorized, queued)
          else if rq_Event r = ''ping'' then (StatusOK, queued)
          else if rq_Event r \<noteq> [] \<and> rq_Event r \<noteq> ''push'' then (StatusAccepted, queued)
          else if (case pushRef parseJSON body of Some ref \<Rightarrow> \<not> refMatches cfg ref | None \<Rightarrow> False) then (StatusAccepted, queued)
          else (StatusAccepted, snd (Trigger queued)))"

text \<open>
  \<^verbatim>\<open>Handler\<close>: the two patterns of the mux. A path that ends in a slash stands for everything below it, a request for
  that path without the slash is redirected to it, and a pattern for \<^verbatim>\<open>GET\<close> is one for \<^verbatim>\<open>HEAD\<close> too. Paths of
  requests are clean; the wildcards in braces of \<^verbatim>\<open>http.ServeMux\<close> are not modelled.
\<close>

datatype route = ToWebhook | ToHealthz | ToSlash | WrongMethod | NoRoute

definition matchesPath :: "string \<Rightarrow> string \<Rightarrow> bool" where
  "matchesPath pattern path \<longleftrightarrow> (if pattern \<noteq> [] \<and> last pattern = CHR ''/'' then HasPrefix path pattern else path = pattern)"

definition Handler :: "ServerConfig \<Rightarrow> string \<Rightarrow> string \<Rightarrow> route" where
  "Handler cfg meth path =
     (if meth = ''POST'' \<and> matchesPath (sc_Path cfg) path then ToWebhook
      else if meth \<in> {''GET'', ''HEAD''} \<and> matchesPath ''/healthz'' path then ToHealthz
      else if meth = ''POST'' \<and> path @ ''/'' = sc_Path cfg then ToSlash
      else if matchesPath (sc_Path cfg) path \<or> path @ ''/'' = sc_Path cfg \<or> matchesPath ''/healthz'' path then WrongMethod
      else NoRoute)"

definition handleHealthz :: "int \<times> string" where
  "handleHealthz = (StatusOK, ''ok'' @ [CHR 0x0A])"

definition serveRequest :: "hmac \<Rightarrow> (string \<Rightarrow> err + json) \<Rightarrow> ServerConfig \<Rightarrow> Request \<Rightarrow> bool \<Rightarrow> int \<times> bool" where
  "serveRequest mac parseJSON cfg r queued =
     (case Handler cfg (rq_Method r) (rq_Path r) of
        ToWebhook \<Rightarrow> handleWebhook mac parseJSON cfg r queued
      | ToHealthz \<Rightarrow> (fst handleHealthz, queued)
      | ToSlash \<Rightarrow> (307, queued)
      | WrongMethod \<Rightarrow> (405, queued)
      | NoRoute \<Rightarrow> (404, queued))"

section \<open>Which requests trigger\<close>

text \<open>A push to the configured branch, or to an unknown one, that is posted to the configured path and carries
  the right signature.\<close>

definition genuinePush :: "hmac \<Rightarrow> (string \<Rightarrow> err + json) \<Rightarrow> ServerConfig \<Rightarrow> Request \<Rightarrow> bool" where
  "genuinePush mac parseJSON cfg r \<longleftrightarrow> rq_Method r = ''POST'' \<and> matchesPath (sc_Path cfg) (rq_Path r)
     \<and> (\<exists>body. rq_Body r = Some body \<and> length body \<le> maxBodyBytes
     \<and> (sc_Secret cfg = [] \<or> rq_Signature r = ''sha256='' @ hexEncode (mac (sc_Secret cfg) body))
     \<and> rq_Event r \<in> {[], ''push''}
     \<and> (\<forall>ref. pushRef parseJSON body = Some ref \<longrightarrow> refMatches cfg ref))"

lemma CutPrefix_is: "(case CutPrefix s p of (sig, ok) \<Rightarrow> if \<not> ok then False else sig = x) \<longleftrightarrow> s = p @ x"
  by (auto simp: CutPrefix_def HasPrefix_iff prefix_def)

lemma validSignature_iff:
  "validSignature mac cfg header body \<longleftrightarrow> sc_Secret cfg = [] \<or> header = ''sha256='' @ hexEncode (mac (sc_Secret cfg) body)"
  unfolding validSignature_def CutPrefix_is by simp

lemma Handler_webhook: "Handler cfg meth path = ToWebhook \<longleftrightarrow> meth = ''POST'' \<and> matchesPath (sc_Path cfg) path"
  by (simp add: Handler_def)

lemma Handler_path [simp]: "Handler cfg ''POST'' (sc_Path cfg) = ToWebhook"
  by (simp add: Handler_webhook matchesPath_def HasPrefix_iff)

lemma handleWebhook_queue:
  "rq_Method r = ''POST'' \<Longrightarrow> matchesPath (sc_Path cfg) (rq_Path r) \<Longrightarrow>
     snd (handleWebhook mac parseJSON cfg r queued) \<longleftrightarrow> queued \<or> genuinePush mac parseJSON cfg r"
  by (auto simp: handleWebhook_def genuinePush_def readBody_def validSignature_iff Trigger_def split: option.splits)

lemma serveRequest_queue:
  "snd (serveRequest mac parseJSON cfg r queued) \<longleftrightarrow> queued \<or> genuinePush mac parseJSON cfg r"
proof (cases "Handler cfg (rq_Method r) (rq_Path r) = ToWebhook")
  case True
  then have "serveRequest mac parseJSON cfg r queued = handleWebhook mac parseJSON cfg r queued" by (simp add: serveRequest_def)
  with True handleWebhook_queue show ?thesis by (simp add: Handler_webhook)
next
  case False
  then show ?thesis by (auto simp: serveRequest_def Handler_webhook genuinePush_def split: route.split)
qed

lemma serveRequest_queued: "serveRequest mac parseJSON cfg r queued = (status, q) \<Longrightarrow> q \<longleftrightarrow> queued \<or> genuinePush mac parseJSON cfg r"
  using serveRequest_queue [of mac parseJSON cfg r queued] by simp

text \<open>C23: after a request a trigger is queued exactly if one was queued before or the request is a genuine
  push: it is posted to the configured path, its body fits the limit, its signature is the HMAC of the body under the configured secret,
  it is a push event and it names no other branch. A request that does not carry the right signature
  is answered with 401, and no other request starts a deployment.\<close>

theorem only_genuine_pushes_trigger:
  "(snd (serveRequest mac parseJSON cfg r queued) \<longleftrightarrow> queued \<or> genuinePush mac parseJSON cfg r)
   \<and> (sc_Secret cfg \<noteq> [] \<and> rq_Method r = ''POST'' \<and> rq_Path r = sc_Path cfg \<and> rq_Body r = Some body \<and> length body \<le> maxBodyBytes
        \<and> rq_Signature r \<noteq> ''sha256='' @ hexEncode (mac (sc_Secret cfg) body)
        \<longrightarrow> serveRequest mac parseJSON cfg r queued = (StatusUnauthorized, queued))"
  using serveRequest_queue
  by (intro conjI impI) (blast, auto simp: serveRequest_def handleWebhook_def readBody_def validSignature_iff)

section \<open>The server\<close>

text \<open>The settings that \<^verbatim>\<open>cmdWebhook\<close> passes on.\<close>

definition serverConfig :: "Config \<Rightarrow> ServerConfig" where
  "serverConfig cfg = \<lparr>sc_Addr = wh_Listen (cfg_Webhook cfg), sc_Path = wh_Path (cfg_Webhook cfg),
     sc_Secret = wh_Secret (cfg_Webhook cfg), sc_Branch = cfg_Branch cfg\<rparr>"

text \<open>
  The window timer: when the armed timer fires, if one is armed. A run that found the deploy window
  closed arms it for the next opening, in place of a timer that has not fired yet. \<open>off\<close> is the location:
  the offset of the local time at every instant.
\<close>

definition schedule :: "Config \<Rightarrow> (time \<Rightarrow> duration) \<Rightarrow> time \<Rightarrow> time option \<Rightarrow> time option" where
  "schedule cfg off now timer =
     (case Window cfg of None \<Rightarrow> timer | Some window \<Rightarrow> Some (NextOpening window off now))"

text \<open>\<^verbatim>\<open>windowTimer.stop\<close>.\<close>

definition stopTimer :: "time option \<Rightarrow> time option" where
  "stopTimer timer = None"

text \<open>\<^verbatim>\<open>asyncNotifier.drain\<close> returns when no notification is on its way any more, or when the time for them is up.\<close>

definition drained :: "nat \<Rightarrow> bool \<Rightarrow> bool" where
  "drained sending late \<longleftrightarrow> sending = 0 \<or> late"

text \<open>\<open>ss_firing\<close> counts the fired timers whose function has not yet called \<open>Trigger\<close>, \<open>ss_sending\<close> the notifications
  on their way (\<^verbatim>\<open>asyncNotifier\<close>). \<open>ss_serving\<close> is the goroutine in \<^verbatim>\<open>http.Server.Serve\<close>, \<open>ss_exited\<close> the return of the
  worker and \<open>ss_returned\<close> the return of \<^verbatim>\<open>Serve\<close>.\<close>

record ServerState =
  ss_queued :: bool
  ss_running :: bool
  ss_stopping :: bool
  ss_exited :: bool
  ss_timer :: "time option"
  ss_firing :: nat
  ss_sending :: nat
  ss_serving :: bool
  ss_returned :: bool

datatype serverEvent =
    Req Request int | Start | Defer time | Notify | Finish | Delivered
  | Expire | Fire | Stop | Broken | Closed | Exit | Return | Halt | Quit bool

definition idleServer :: ServerState where
  "idleServer = \<lparr>ss_queued = False, ss_running = False, ss_stopping = False, ss_exited = False,
     ss_timer = None, ss_firing = 0, ss_sending = 0, ss_serving = True, ss_returned = False\<rparr>"

text \<open>
  \<open>Start\<close> and \<open>Finish\<close> are the calls of \<^verbatim>\<open>reconcile\<close> by the worker (\<^verbatim>\<open>processTriggers\<close>, \<^verbatim>\<open>runReconcile\<close>; a
  panic ends the call as a return does), \<open>Defer\<close> is the call of \<open>schedule\<close> in a run that found the window
  closed, \<open>Notify\<close> the goroutine for its notification and \<open>Delivered\<close> its end, \<open>Expire\<close> and \<open>Fire\<close> the end of
  the timer and the trigger of its function. A worker that can do either takes the trigger or returns.

  The worker is stopped by the end of the context (\<open>Stop\<close>) or when the listener breaks (\<open>Broken\<close>); after the
  end of the context the listener is shut down (\<open>Closed\<close>). \<open>Exit\<close> is the return of the worker, \<open>Return\<close> that of
  \<^verbatim>\<open>Serve\<close>, which waits for both goroutines (\<^verbatim>\<open>drain\<close>). Then \<^verbatim>\<open>cmdWebhook\<close> stops the timer (\<open>Halt\<close>) and waits for
  the notifications on their way, for a limited time: \<open>Quit\<close> says whether the time ran out.
\<close>

inductive serverStep :: "hmac \<Rightarrow> (string \<Rightarrow> err + json) \<Rightarrow> Config \<Rightarrow> (time \<Rightarrow> duration) \<Rightarrow> ServerState \<Rightarrow> serverEvent \<Rightarrow> ServerState \<Rightarrow> bool"
  for mac parseJSON cfg off where
  request: "serveRequest mac parseJSON (serverConfig cfg) r (ss_queued s) = (status, q) \<Longrightarrow>
     serverStep mac parseJSON cfg off s (Req r status) (s\<lparr>ss_queued := q\<rparr>)"
| start: "ss_queued s \<Longrightarrow> \<not> ss_running s \<Longrightarrow> \<not> ss_exited s \<Longrightarrow>
     serverStep mac parseJSON cfg off s Start (s\<lparr>ss_queued := False, ss_running := True\<rparr>)"
| put_off: "ss_running s \<Longrightarrow>
     serverStep mac parseJSON cfg off s (Defer now) (s\<lparr>ss_timer := schedule cfg off now (ss_timer s)\<rparr>)"
| notify: "ss_running s \<Longrightarrow> serverStep mac parseJSON cfg off s Notify (s\<lparr>ss_sending := ss_sending s + 1\<rparr>)"
| finish: "ss_running s \<Longrightarrow> serverStep mac parseJSON cfg off s Finish (s\<lparr>ss_running := False\<rparr>)"
| delivered: "0 < ss_sending s \<Longrightarrow> serverStep mac parseJSON cfg off s Delivered (s\<lparr>ss_sending := ss_sending s - 1\<rparr>)"
| expire: "ss_timer s = Some at \<Longrightarrow>
     serverStep mac parseJSON cfg off s Expire (s\<lparr>ss_timer := None, ss_firing := ss_firing s + 1\<rparr>)"
| fire: "0 < ss_firing s \<Longrightarrow>
     serverStep mac parseJSON cfg off s Fire (s\<lparr>ss_queued := snd (Trigger (ss_queued s)), ss_firing := ss_firing s - 1\<rparr>)"
| stop: "serverStep mac parseJSON cfg off s Stop (s\<lparr>ss_stopping := True\<rparr>)"
| broken: "ss_serving s \<Longrightarrow> serverStep mac parseJSON cfg off s Broken (s\<lparr>ss_serving := False, ss_stopping := True\<rparr>)"
| closed: "ss_serving s \<Longrightarrow> ss_stopping s \<Longrightarrow> serverStep mac parseJSON cfg off s Closed (s\<lparr>ss_serving := False\<rparr>)"
| exit: "ss_stopping s \<Longrightarrow> \<not> ss_running s \<Longrightarrow> serverStep mac parseJSON cfg off s Exit (s\<lparr>ss_exited := True\<rparr>)"
| return: "ss_exited s \<Longrightarrow> \<not> ss_serving s \<Longrightarrow> serverStep mac parseJSON cfg off s Return (s\<lparr>ss_returned := True\<rparr>)"
| halt: "ss_returned s \<Longrightarrow> serverStep mac parseJSON cfg off s Halt (s\<lparr>ss_timer := stopTimer (ss_timer s)\<rparr>)"
| quit: "ss_returned s \<Longrightarrow> drained (ss_sending s) late \<Longrightarrow> serverStep mac parseJSON cfg off s (Quit late) s"

inductive_cases serverStepE: "serverStep mac parseJSON cfg off s e s'"

inductive serverRun :: "hmac \<Rightarrow> (string \<Rightarrow> err + json) \<Rightarrow> Config \<Rightarrow> (time \<Rightarrow> duration) \<Rightarrow> ServerState \<Rightarrow> serverEvent list \<Rightarrow> ServerState \<Rightarrow> bool"
  for mac parseJSON cfg off where
  idle: "serverRun mac parseJSON cfg off s [] s"
| step: "serverStep mac parseJSON cfg off s e s' \<Longrightarrow> serverRun mac parseJSON cfg off s' es s'' \<Longrightarrow>
     serverRun mac parseJSON cfg off s (e # es) s''"

inductive_cases serverRun_ConsE: "serverRun mac parseJSON cfg off s (e # es) s'"

lemma serverRun_appendE:
  "serverRun mac parseJSON cfg off s (xs @ ys) s' \<Longrightarrow> \<exists>m. serverRun mac parseJSON cfg off s xs m \<and> serverRun mac parseJSON cfg off m ys s'"
  by (induction xs arbitrary: s) (auto intro: serverRun.intros elim!: serverRun_ConsE, blast intro: serverRun.intros)

lemma serverRun_middleE:
  assumes "serverRun mac parseJSON cfg off s (es @ e # es') s'"
  obtains m m' where "serverRun mac parseJSON cfg off s es m" "serverStep mac parseJSON cfg off m e m'"
    "serverRun mac parseJSON cfg off m' es' s'"
proof -
  from serverRun_appendE [OF assms] obtain m where "serverRun mac parseJSON cfg off s es m"
    and "serverRun mac parseJSON cfg off m (e # es') s'" by blast
  then show thesis by (auto elim: serverRun_ConsE intro: that)
qed

lemma serverRun_append:
  "serverRun mac parseJSON cfg off s xs m \<Longrightarrow> serverRun mac parseJSON cfg off m ys s' \<Longrightarrow> serverRun mac parseJSON cfg off s (xs @ ys) s'"
  by (induction rule: serverRun.induct) (auto intro: serverRun.intros)

text \<open>The steps as a function: \<^const>\<open>None\<close> is an event that cannot happen.\<close>

definition serverNext :: "hmac \<Rightarrow> (string \<Rightarrow> err + json) \<Rightarrow> Config \<Rightarrow> (time \<Rightarrow> duration) \<Rightarrow> ServerState \<Rightarrow> serverEvent \<Rightarrow> ServerState option" where
  "serverNext mac parseJSON cfg off s e = (case e of
     Req r status \<Rightarrow> (case serveRequest mac parseJSON (serverConfig cfg) r (ss_queued s) of
        (st, q) \<Rightarrow> if st = status then Some (s\<lparr>ss_queued := q\<rparr>) else None)
   | Start \<Rightarrow> if ss_queued s \<and> \<not> ss_running s \<and> \<not> ss_exited s then Some (s\<lparr>ss_queued := False, ss_running := True\<rparr>) else None
   | Defer now \<Rightarrow> if ss_running s then Some (s\<lparr>ss_timer := schedule cfg off now (ss_timer s)\<rparr>) else None
   | Notify \<Rightarrow> if ss_running s then Some (s\<lparr>ss_sending := ss_sending s + 1\<rparr>) else None
   | Finish \<Rightarrow> if ss_running s then Some (s\<lparr>ss_running := False\<rparr>) else None
   | Delivered \<Rightarrow> if 0 < ss_sending s then Some (s\<lparr>ss_sending := ss_sending s - 1\<rparr>) else None
   | Expire \<Rightarrow> if ss_timer s \<noteq> None then Some (s\<lparr>ss_timer := None, ss_firing := ss_firing s + 1\<rparr>) else None
   | Fire \<Rightarrow> if 0 < ss_firing s then Some (s\<lparr>ss_queued := snd (Trigger (ss_queued s)), ss_firing := ss_firing s - 1\<rparr>) else None
   | Stop \<Rightarrow> Some (s\<lparr>ss_stopping := True\<rparr>)
   | Broken \<Rightarrow> if ss_serving s then Some (s\<lparr>ss_serving := False, ss_stopping := True\<rparr>) else None
   | Closed \<Rightarrow> if ss_serving s \<and> ss_stopping s then Some (s\<lparr>ss_serving := False\<rparr>) else None
   | Exit \<Rightarrow> if ss_stopping s \<and> \<not> ss_running s then Some (s\<lparr>ss_exited := True\<rparr>) else None
   | Return \<Rightarrow> if ss_exited s \<and> \<not> ss_serving s then Some (s\<lparr>ss_returned := True\<rparr>) else None
   | Halt \<Rightarrow> if ss_returned s then Some (s\<lparr>ss_timer := stopTimer (ss_timer s)\<rparr>) else None
   | Quit late \<Rightarrow> if ss_returned s \<and> drained (ss_sending s) late then Some s else None)"

lemma serverNext_iff: "serverNext mac parseJSON cfg off s e = Some s' \<longleftrightarrow> serverStep mac parseJSON cfg off s e s'"
proof
  assume "serverNext mac parseJSON cfg off s e = Some s'"
  then show "serverStep mac parseJSON cfg off s e s'"
    by (cases e) (auto simp: serverNext_def split: if_splits prod.splits
        intro: serverStep.intros serverStep.notify [simplified] serverStep.delivered [simplified] serverStep.expire [simplified] serverStep.fire [simplified])
qed (erule serverStep.cases; simp add: serverNext_def)

fun serverExec :: "hmac \<Rightarrow> (string \<Rightarrow> err + json) \<Rightarrow> Config \<Rightarrow> (time \<Rightarrow> duration) \<Rightarrow> ServerState \<Rightarrow> serverEvent list \<Rightarrow> ServerState option" where
  "serverExec mac parseJSON cfg off s [] = Some s"
| "serverExec mac parseJSON cfg off s (e # es) =
     (case serverNext mac parseJSON cfg off s e of None \<Rightarrow> None | Some s' \<Rightarrow> serverExec mac parseJSON cfg off s' es)"

lemma serverExec_run: "serverExec mac parseJSON cfg off s es = Some s' \<Longrightarrow> serverRun mac parseJSON cfg off s es s'"
  by (induction es arbitrary: s) (auto simp: serverNext_iff intro: serverRun.intros split: option.splits)

text \<open>Work the server owes: a queued trigger, an armed timer, or one that has fired. It stays until the
  worker starts on it, or until it has returned.\<close>

definition owes :: "ServerState \<Rightarrow> bool" where
  "owes s \<longleftrightarrow> ss_queued s \<or> ss_timer s \<noteq> None \<or> 0 < ss_firing s"

text \<open>Only a worker that has returned makes the server return.\<close>

definition wfServer :: "ServerState \<Rightarrow> bool" where
  "wfServer s \<longleftrightarrow> (ss_returned s \<longrightarrow> ss_exited s) \<and> (ss_exited s \<longrightarrow> \<not> ss_running s)"

lemma wfServer_idle [simp]: "wfServer idleServer"
  by (simp add: wfServer_def idleServer_def)

lemma wfServer_step: "serverStep mac parseJSON cfg off s e s' \<Longrightarrow> wfServer s \<Longrightarrow> wfServer s'"
  by (erule serverStep.cases) (auto simp: wfServer_def)

lemma wfServer_run: "serverRun mac parseJSON cfg off s es s' \<Longrightarrow> wfServer s \<Longrightarrow> wfServer s'"
  by (induction rule: serverRun.induct) (auto dest: wfServer_step)

lemma owes_step:
  "serverStep mac parseJSON cfg off s e s' \<Longrightarrow> owes s \<Longrightarrow> e \<noteq> Start \<Longrightarrow> wfServer s \<Longrightarrow> \<not> ss_exited s \<Longrightarrow> owes s'"
  by (erule serverStep.cases) (auto simp: owes_def wfServer_def Trigger_def schedule_def dest!: serveRequest_queued split: option.splits)

lemma exited_mono: "serverRun mac parseJSON cfg off s es s' \<Longrightarrow> ss_exited s \<Longrightarrow> ss_exited s'"
  by (induction rule: serverRun.induct) (auto elim!: serverStep.cases)

lemma owes_until_start:
  assumes "serverRun mac parseJSON cfg off s es s'" and "owes s" and "\<not> owes s'" and "\<not> ss_exited s'" and "wfServer s"
  shows "Start \<in> set es"
  using assms
proof (induction rule: serverRun.induct)
  case (step s e s' es s'')
  have "\<not> ss_exited s" using exited_mono [OF serverRun.step [OF step.hyps(1,2)]] step.prems(3) by blast
  then show ?case
    using owes_step [OF step.hyps(1) step.prems(1)] wfServer_step [OF step.hyps(1)] step.IH step.prems(2-4) by auto
qed simp

text \<open>A queued trigger stays queued until the worker starts on it.\<close>

lemma queued_step:
  "serverStep mac parseJSON cfg off s e s' \<Longrightarrow> ss_queued s \<Longrightarrow> e \<noteq> Start \<Longrightarrow> ss_queued s'"
  by (erule serverStep.cases) (auto simp: Trigger_def dest!: serveRequest_queued)

lemma queued_until_start:
  assumes "serverRun mac parseJSON cfg off s es s'" and "ss_queued s" and "\<not> ss_queued s'"
  shows "Start \<in> set es"
  using assms by (induction rule: serverRun.induct) (auto dest: queued_step)

text \<open>C24: no trigger is lost: whenever the queue of a server is empty, a reconcile has been started after
  every genuine push so far, however requests, runs, timers and their ends were interleaved; pushes
  that arrive while a trigger is queued are covered by the run that takes it.\<close>

theorem no_trigger_lost:
  assumes "serverRun mac parseJSON cfg off s (es @ Req r status # es') s'"
    and "genuinePush mac parseJSON (serverConfig cfg) r" and "\<not> ss_queued s'"
  shows "Start \<in> set es'"
proof -
  obtain m m' where "serverStep mac parseJSON cfg off m (Req r status) m'" and rest: "serverRun mac parseJSON cfg off m' es' s'"
    using serverRun_middleE [OF assms(1)] by blast
  then have "ss_queued m'" using assms(2) by (auto elim!: serverStepE dest!: serveRequest_queued)
  from queued_until_start [OF rest this assms(3)] show ?thesis .
qed

text \<open>C25: a push that arrives while the deploy window is closed is deployed later: the run that found the
  window closed leaves a timer armed for the next opening, and as long as the worker of the server has not returned, it
  has either started another run since or still owes one: a queued trigger, the armed timer or one that
  has fired. Where the offset of the local time stays within \<open>d\<close> of the present one for a week, the timer is armed for a moment
  at most a day and \<open>2 * d\<close> away; where the offset does not change, for a moment in the future,
  at most a day away, at which the window is open. (A change of the clock can make it a moment at which
  the window is closed; that run is put off again, and the same holds for it.)\<close>

theorem deferred_run_resumed:
  assumes "serverRun mac parseJSON cfg off s (es @ Defer now # es') s'" and "Window cfg = Some w" and "wfServer s"
    and "\<And>u. \<bar>u - now\<bar> \<le> 7 * day \<Longrightarrow> \<bar>off u - off now\<bar> \<le> d" and "\<bar>off now\<bar> \<le> day" and "d \<le> day"
  shows "(\<exists>m at. serverRun mac parseJSON cfg off s (es @ [Defer now]) m \<and> ss_timer m = Some at
      \<and> at \<le> now + day + 2 * d \<and> (d = 0 \<longrightarrow> now < at \<and> WindowOpen w (off at) at))
    \<and> (Start \<in> set es' \<or> owes s' \<or> ss_exited s')"
proof -
  obtain m m' where before: "serverRun mac parseJSON cfg off s es m"
    and at: "serverStep mac parseJSON cfg off m (Defer now) m'" and rest: "serverRun mac parseJSON cfg off m' es' s'"
    using serverRun_middleE [OF assms(1)] by blast
  from at have armed: "ss_timer m' = Some (NextOpening w off now)" using assms(2) by (auto simp: schedule_def elim!: serverStepE)
  have "serverRun mac parseJSON cfg off s (es @ [Defer now]) m'"
    using before at by (induction rule: serverRun.induct) (auto intro: serverRun.intros)
  moreover have w: "wfWindow w" using assms(2) by (auto simp: Window_def dest: ParseDeployWindow_wf split: if_splits sum.splits)
  moreover have "owes m'" using armed by (simp add: owes_def)
  moreover have "WindowOpen w (off (NextOpening w off now)) (NextOpening w off now)" if "d = 0"
  proof -
    have "off u = off now" if "\<bar>u - now\<bar> \<le> 7 * day" for u using assms(4) [OF that] \<open>d = 0\<close> by simp
    from NextOpening_open [where off = off and t = now, OF w this assms(5)] show ?thesis .
  qed
  moreover note NextOpening_bounds [where off = off and t = now and d = d, OF w assms(4,5,6)]
  moreover from calculation(3) have "Start \<in> set es' \<or> owes s' \<or> ss_exited s'"
    using owes_until_start [OF rest] wfServer_step [OF at wfServer_run [OF before assms(3)]] by blast
  ultimately show ?thesis using armed by fastforce
qed

text \<open>Starts, pushes, timers and the queue: every start takes one trigger, and every trigger came from a
  push or from a timer that a deferred run armed.\<close>

definition pushes :: "hmac \<Rightarrow> (string \<Rightarrow> err + json) \<Rightarrow> Config \<Rightarrow> serverEvent list \<Rightarrow> nat" where
  "pushes mac parseJSON cfg es =
     length (filter (\<lambda>e. case e of Req r _ \<Rightarrow> genuinePush mac parseJSON (serverConfig cfg) r | _ \<Rightarrow> False) es)"

definition deferrals :: "serverEvent list \<Rightarrow> nat" where
  "deferrals es = length (filter (\<lambda>e. case e of Defer _ \<Rightarrow> True | _ \<Rightarrow> False) es)"

definition starts :: "serverEvent list \<Rightarrow> nat" where
  "starts es = length (filter (\<lambda>e. e = Start) es)"

definition triggersLeft :: "ServerState \<Rightarrow> nat" where
  "triggersLeft s = of_bool (ss_queued s) + of_bool (ss_timer s \<noteq> None) + ss_firing s"

lemmas counts_defs = pushes_def deferrals_def starts_def triggersLeft_def

lemma counts_Cons:
  "starts (e # es) = starts [e] + starts es" "deferrals (e # es) = deferrals [e] + deferrals es"
  "pushes mac parseJSON cfg (e # es) = pushes mac parseJSON cfg [e] + pushes mac parseJSON cfg es"
  by (simp_all add: counts_defs)

lemma starts_step:
  "serverStep mac parseJSON cfg off s e s' \<Longrightarrow>
     starts [e] + triggersLeft s' \<le> pushes mac parseJSON cfg [e] + deferrals [e] + triggersLeft s"
  by (erule serverStep.cases) (auto simp: counts_defs Trigger_def schedule_def stopTimer_def dest!: serveRequest_queued split: option.splits)

lemma starts_bounded:
  assumes "serverRun mac parseJSON cfg off s es s'"
  shows "starts es + triggersLeft s' \<le> pushes mac parseJSON cfg es + deferrals es + triggersLeft s"
  using assms
proof (induction rule: serverRun.induct)
  case (step s e s' es s'')
  then show ?case
    using starts_step [OF step.hyps(1)] counts_Cons(1,2) [of e es] counts_Cons(3) [of mac parseJSON cfg e es] by linarith
qed (simp add: counts_defs)

text \<open>A run never starts without a cause: a server that begins idle starts at most as many reconciles
  as it has received genuine pushes, plus one for every run that was put off to the next opening of
  the deploy window.\<close>

theorem runs_bounded_by_pushes:
  assumes "serverRun mac parseJSON cfg off idleServer es s'"
  shows "starts es \<le> pushes mac parseJSON cfg es + deferrals es"
  using starts_bounded [OF assms] by (simp add: idleServer_def triggersLeft_def)

section \<open>Shutdown\<close>

definition finishes :: "serverEvent list \<Rightarrow> nat" where
  "finishes es = length (filter (\<lambda>e. e = Finish) es)"

lemma balance_step:
  "serverStep mac parseJSON cfg off s e s' \<Longrightarrow>
     starts [e] + of_bool (ss_running s) = finishes [e] + of_bool (ss_running s')
     \<and> count_list [e] Notify + ss_sending s = count_list [e] Delivered + ss_sending s'"
  by (erule serverStep.cases) (auto simp: starts_def finishes_def)

lemma balance:
  assumes "serverRun mac parseJSON cfg off s es s'"
  shows "starts es + of_bool (ss_running s) = finishes es + of_bool (ss_running s')
    \<and> count_list es Notify + ss_sending s = count_list es Delivered + ss_sending s'"
  using assms
proof (induction rule: serverRun.induct)
  case (step s e s' es s'')
  have "finishes (e # es) = finishes [e] + finishes es" "count_list (e # es) x = count_list [e] x + count_list es x" for x
    by (simp_all add: finishes_def)
  with step.IH balance_step [OF step.hyps(1)] counts_Cons(1) [of e es] show ?case by (metis add.assoc add.left_commute)
qed (simp add: starts_def finishes_def)

lemma no_start_after_exit:
  assumes "serverRun mac parseJSON cfg off s es s'" and "ss_exited s"
  shows "Start \<notin> set es"
  using assms
proof (induction rule: serverRun.induct)
  case (step s e s' es s'')
  then have "ss_exited s'" using exited_mono [OF serverRun.step [OF step.hyps(1) serverRun.idle]] by blast
  with step show ?case by (auto elim: serverStep.cases)
qed simp

text \<open>C16: shutting down never cuts a deployment off: when the server returns, every run that was started has come
  to its end, no run is started afterwards, and the process does not quit with notifications on their way
  unless the time for them has run out.\<close>

theorem shutdown_waits_for_runs:
  assumes "serverRun mac parseJSON cfg off idleServer (es @ Return # es') s'"
  shows "starts es = finishes es \<and> Start \<notin> set es'
    \<and> (\<forall>xs ys. es' = xs @ Quit False # ys \<longrightarrow> count_list (es @ Return # xs) Notify = count_list (es @ Return # xs) Delivered)"
proof -
  obtain m m' where before: "serverRun mac parseJSON cfg off idleServer es m"
    and at: "serverStep mac parseJSON cfg off m Return m'" and rest: "serverRun mac parseJSON cfg off m' es' s'"
    using serverRun_middleE [OF assms] by blast
  from at have ex: "ss_exited m" "ss_exited m'" by (auto elim: serverStepE)
  then have "\<not> ss_running m" using wfServer_run [OF before wfServer_idle] by (simp add: wfServer_def)
  then have "starts es = finishes es" using balance [OF before] by (simp add: idleServer_def)
  moreover have "Start \<notin> set es'" using no_start_after_exit [OF rest ex(2)] .
  moreover have "count_list (es @ Return # xs) Notify = count_list (es @ Return # xs) Delivered" if "es' = xs @ Quit False # ys" for xs ys
  proof -
    have "serverRun mac parseJSON cfg off idleServer ((es @ Return # xs) @ Quit False # ys) s'" using assms that by simp
    then obtain n n' where n: "serverRun mac parseJSON cfg off idleServer (es @ Return # xs) n"
      and "serverStep mac parseJSON cfg off n (Quit False) n'" by (rule serverRun_middleE) blast
    then have "ss_sending n = 0" by (auto simp: drained_def elim: serverStepE)
    with balance [OF n] show ?thesis by (simp add: idleServer_def)
  qed
  ultimately show ?thesis by blast
qed

section \<open>Witnesses\<close>

definition demoServer :: ServerConfig where
  "demoServer = \<lparr>sc_Addr = ''127.0.0.1:9000'', sc_Path = ''/hook'', sc_Secret = ''s'', sc_Branch = ''main''\<rparr>"

definition demoMac :: hmac where
  "demoMac secret body = secret @ body"

definition demoPush :: Request where
  "demoPush = \<lparr>rq_Method = ''POST'', rq_Path = ''/hook'', rq_Body = Some ''b'', rq_Signature = ''sha256=7362'', rq_Event = ''push''\<rparr>"

lemma demoPush_genuine: "genuinePush demoMac (\<lambda>_. Inr JNull) demoServer demoPush"
proof -
  have "rq_Signature demoPush = ''sha256='' @ hexEncode (demoMac (sc_Secret demoServer) ''b'')" by code_simp
  then show ?thesis by (simp add: genuinePush_def matchesPath_def demoServer_def demoPush_def pushRef_def maxBodyBytes_def)
qed

lemma demoPush_accepted: "serveRequest demoMac (\<lambda>_. Inr JNull) demoServer demoPush False = (202, True)"
proof -
  have "validSignature demoMac demoServer (rq_Signature demoPush) ''b''" by code_simp
  then show ?thesis
    by (simp add: serveRequest_def Handler_def matchesPath_def demoServer_def handleWebhook_def readBody_def demoPush_def pushRef_def
        maxBodyBytes_def StatusAccepted_def Trigger_def)
qed

theorem only_genuine_pushes_trigger_witness:
  "serveRequest demoMac (\<lambda>_. Inr JNull) demoServer (demoPush\<lparr>rq_Signature := ''sha256=00''\<rparr>) False = (401, False)
   \<and> snd (serveRequest demoMac (\<lambda>_. Inr JNull) demoServer demoPush False)"
proof -
  have "sc_Secret demoServer \<noteq> []" "rq_Signature (demoPush\<lparr>rq_Signature := ''sha256=00''\<rparr>) \<noteq> ''sha256='' @ hexEncode (demoMac (sc_Secret demoServer) ''b'')"
    by code_simp+
  then have "serveRequest demoMac (\<lambda>_. Inr JNull) demoServer (demoPush\<lparr>rq_Signature := ''sha256=00''\<rparr>) False = (StatusUnauthorized, False)"
    using only_genuine_pushes_trigger [of demoMac "\<lambda>_. Inr JNull" demoServer "demoPush\<lparr>rq_Signature := ''sha256=00''\<rparr>" False "''b''"]
    by (simp add: demoPush_def demoServer_def maxBodyBytes_def)
  then show ?thesis
    using only_genuine_pushes_trigger [of demoMac "\<lambda>_. Inr JNull" demoServer demoPush False] demoPush_genuine
    by (simp add: StatusUnauthorized_def)
qed

definition demoHook :: Config where
  "demoHook = Default\<lparr>cfg_Branch := ''main'', cfg_DeployWindow := ''02:00-05:00'',
     cfg_Webhook := \<lparr>wh_Listen = ''127.0.0.1:9000'', wh_Path = ''/hook'', wh_Secret = ''s''\<rparr>\<rparr>"

lemma serverConfig_demo [simp]: "serverConfig demoHook = demoServer"
  by (simp add: serverConfig_def demoHook_def demoServer_def)

definition busyServer :: ServerState where
  "busyServer = idleServer\<lparr>ss_running := True\<rparr>"

lemma demo_server_run: "serverRun demoMac (\<lambda>_. Inr JNull) demoHook (\<lambda>_. 0) idleServer [Req demoPush 202, Start] busyServer"
proof (rule serverRun.step [OF _ serverRun.step [OF _ serverRun.idle]])
  show "serverStep demoMac (\<lambda>_. Inr JNull) demoHook (\<lambda>_. 0) idleServer (Req demoPush 202) (idleServer\<lparr>ss_queued := True\<rparr>)"
    by (rule serverStep.request) (simp add: demoPush_accepted idleServer_def)
  show "serverStep demoMac (\<lambda>_. Inr JNull) demoHook (\<lambda>_. 0) (idleServer\<lparr>ss_queued := True\<rparr>) Start busyServer"
    using serverStep.start [of "idleServer\<lparr>ss_queued := True\<rparr>"] by (simp add: busyServer_def idleServer_def)
qed

theorem no_trigger_lost_witness:
  "serverRun demoMac (\<lambda>_. Inr JNull) demoHook (\<lambda>_. 0) idleServer ([] @ Req demoPush 202 # [Start]) busyServer \<and> Start \<in> set [Start]"
proof -
  have run: "serverRun demoMac (\<lambda>_. Inr JNull) demoHook (\<lambda>_. 0) idleServer ([] @ Req demoPush 202 # [Start]) busyServer" using demo_server_run by simp
  have "\<not> ss_queued busyServer" by code_simp
  moreover have "genuinePush demoMac (\<lambda>_. Inr JNull) (serverConfig demoHook) demoPush" using demoPush_genuine by simp
  ultimately show ?thesis using no_trigger_lost [OF run] run by blast
qed

theorem runs_bounded_by_pushes_witness:
  "serverRun demoMac (\<lambda>_. Inr JNull) demoHook (\<lambda>_. 0) idleServer [Req demoPush 202, Start] busyServer
   \<and> starts [Req demoPush 202, Start] = 1 \<and> 1 \<le> pushes demoMac (\<lambda>_. Inr JNull) demoHook [Req demoPush 202, Start]"
proof -
  have "starts [Req demoPush 202, Start] = 1" "deferrals [Req demoPush 202, Start] = 0" by (simp_all add: starts_def deferrals_def)
  with runs_bounded_by_pushes [OF demo_server_run] demo_server_run show ?thesis by simp
qed

text \<open>A run that starts shortly after midnight is put off to two o'clock.\<close>

definition waitingServer :: ServerState where
  "waitingServer = busyServer\<lparr>ss_timer := schedule demoHook (\<lambda>_. 0) 5 None\<rparr>"

theorem deferred_run_resumed_witness:
  "ss_timer waitingServer = Some (2 * hour) \<and> owes waitingServer
   \<and> (\<exists>m at. serverRun demoMac (\<lambda>_. Inr JNull) demoHook (\<lambda>_. 0) busyServer ([] @ [Defer 5]) m \<and> ss_timer m = Some at \<and> 5 < at)"
proof -
  have "serverStep demoMac (\<lambda>_. Inr JNull) demoHook (\<lambda>_. 0) busyServer (Defer 5) waitingServer"
    using serverStep.put_off [of busyServer] by (simp add: waitingServer_def busyServer_def idleServer_def)
  then have run: "serverRun demoMac (\<lambda>_. Inr JNull) demoHook (\<lambda>_. 0) busyServer ([] @ Defer 5 # []) waitingServer"
    by (auto intro: serverRun.intros)
  have w: "Window demoHook = Some \<lparr>win_start = 120, win_end = 300\<rparr>" by code_simp
  have timer: "ss_timer waitingServer = Some (2 * hour)" "\<not> ss_exited waitingServer" by code_simp+
  have "wfServer busyServer" by (simp add: wfServer_def busyServer_def idleServer_def)
  from deferred_run_resumed [OF run w this, of 0] timer show ?thesis by (auto simp: day_def hour_def minute_def second_def)
qed

definition lastEvents :: "serverEvent list" where
  "lastEvents = [Notify, Stop, Closed, Finish, Exit]"

text \<open>The context ends while a run is under way, which still comes to its end.\<close>

theorem shutdown_waits_for_runs_witness:
  "\<exists>s. serverRun demoMac (\<lambda>_. Inr JNull) demoHook (\<lambda>_. 0) idleServer (([Req demoPush 202, Start] @ lastEvents) @ Return # [Halt, Delivered, Quit False]) s
     \<and> starts ([Req demoPush 202, Start] @ lastEvents) = 1 \<and> finishes ([Req demoPush 202, Start] @ lastEvents) = 1"
proof -
  let ?exec = "serverExec demoMac (\<lambda>_. Inr JNull) demoHook (\<lambda>_. 0) busyServer (lastEvents @ Return # [Halt, Delivered, Quit False])"
  have "?exec \<noteq> None" by code_simp
  then obtain s where "?exec = Some s" by blast
  from serverRun_append [OF demo_server_run serverExec_run [OF this]]
  have run: "serverRun demoMac (\<lambda>_. Inr JNull) demoHook (\<lambda>_. 0) idleServer
      (([Req demoPush 202, Start] @ lastEvents) @ Return # [Halt, Delivered, Quit False]) s" by simp
  have "starts ([Req demoPush 202, Start] @ lastEvents) = 1" by (simp add: starts_def lastEvents_def)
  with shutdown_waits_for_runs [OF run] run show ?thesis by auto
qed

end
