(* ===== verification/Monitor.thy ===== *)
theory Monitor
  imports Traces
begin

text \<open>
  The health monitor between runs: \<^verbatim>\<open>internal/reconcile/monitor.go\<close>. Every tick it looks at the stacks of
  the last healthy commit and raises one alert per incident once a stack has been in trouble for
  enough checks in a row. The state of the monitor is passed explicitly; the ticker that calls
  \<open>Check\<close> is the environment. The memory of a stack keeps the set of its services as a list in order
  of first sight and the 64-bit incident counter as an integer modulo \<open>2 ^ 64\<close>.
\<close>

record stackMemory =
  me_services :: "string list"
  me_restarts :: "string \<rightharpoonup> int"
  me_streak :: int
  me_since :: time
  me_incident :: int
  me_alerted :: bool

record MonitorState =
  mo_key :: string
  mo_stacks :: "string \<rightharpoonup> stackMemory"
  mo_incidents :: int

definition NewMonitor :: MonitorState where
  "NewMonitor = \<lparr>mo_key = [], mo_stacks = Map.empty, mo_incidents = 0\<rparr>"

definition newMemory :: stackMemory where
  "newMemory = \<lparr>me_services = [], me_restarts = Map.empty, me_streak = 0, me_since = zeroTime, me_incident = 0, me_alerted = False\<rparr>"

definition problem :: "stackMemory \<Rightarrow> Snapshot \<Rightarrow> string" where
  "problem mem snap =
     (if Containers snap = [] then ''no containers''
      else let present = map c_Service (Containers snap);
               restarted = map c_Service (filter (\<lambda>c. case me_restarts mem (c_ID c) of
                             None \<Rightarrow> False | Some prev \<Rightarrow> c_RestartCount c > prev) (Containers snap));
               missing = filter (\<lambda>s. s \<notin> set present) (me_services mem)
           in if missing \<noteq> [] then ''no containers for: '' @ Join (sort missing) '', ''
              else case EvaluatePreflight snap of
                (False, reason) \<Rightarrow> reason
              | (True, _) \<Rightarrow>
                  if restarted \<noteq> [] then ''restarted since last check: '' @ Join (remdups_adj (sort restarted)) '', '' else [])"

definition remember :: "stackMemory \<Rightarrow> Snapshot \<Rightarrow> stackMemory" where
  "remember mem snap = mem\<lparr>
     me_services := foldl (\<lambda>ss c. if c_Service c \<in> set ss then ss else ss @ [c_Service c]) (me_services mem) (Containers snap),
     me_restarts := foldl (\<lambda>m c. m(c_ID c \<mapsto> c_RestartCount c)) Map.empty (Containers snap)\<rparr>"

definition watched :: "'w Deps \<Rightarrow> State \<Rightarrow> ('w, err + string list) state" where
  "watched d st =
     (if LastHealthyStacks st \<noteq> [] then ret (Inr (LastHealthyStacks st))
      else do {
        r \<leftarrow> StacksFor d;
        ret (case r of Inl e \<Rightarrow> Inl e | Inr stacks \<Rightarrow> Inr (stackNames stacks))
      })"

text \<open>The counting of an unhealthy check: a streak of one starts a new incident.\<close>

definition countProblem :: "time \<Rightarrow> stackMemory \<Rightarrow> int \<Rightarrow> stackMemory \<times> int" where
  "countProblem now mem incidents =
     (if me_streak mem = 0
      then let n = (incidents + 1) mod 2 ^ 64 in (mem\<lparr>me_since := now, me_incident := n, me_streak := 1\<rparr>, n)
      else (mem\<lparr>me_streak := me_streak mem + 1\<rparr>, incidents))"

definition alertKey :: "string \<Rightarrow> int \<Rightarrow> string" where
  "alertKey name incident = ''monitor:'' @ name @ '':'' @ itoa incident"

text \<open>Raising the alert: whether it counts as delivered.\<close>

definition alert :: "'w Deps \<Rightarrow> ctx \<Rightarrow> State \<Rightarrow> string \<Rightarrow> string \<Rightarrow> stackMemory \<Rightarrow> time \<Rightarrow> ('w, bool) state" where
  "alert d c st name prob mem now = do {
     let emb = BuildAlertEmbed \<lparr>al_Stack = name, al_Commit = LastHealthyCommit st, al_Branch = cfg_Branch (Cfg d),
                 al_Problem = prob, al_UnhealthyFor = timeSub now (me_since mem)\<rparr>;
     emb' \<leftarrow> addCommitContext d c emb [] [];
     if \<not> NotifierEnabled d then ret True
     else NotifierSendThrottled d c (alertKey name (me_incident mem)) emb'
   }"

definition observe :: "'w Deps \<Rightarrow> ctx \<Rightarrow> State \<Rightarrow> time \<Rightarrow> string \<times> Snapshot \<Rightarrow> MonitorState \<Rightarrow> ('w, MonitorState) state" where
  "observe d c st now ns m = do {
     let (name, snap) = ns;
     let mem0 = (case mo_stacks m name of None \<Rightarrow> newMemory | Some mem \<Rightarrow> mem);
     let prob = problem mem0 snap;
     let mem = remember mem0 snap;
     if prob = [] then ret (m\<lparr>mo_stacks := (mo_stacks m)(name \<mapsto> mem\<lparr>me_streak := 0, me_alerted := False\<rparr>)\<rparr>)
     else do {
       let (mem, incidents) = countProblem now mem (mo_incidents m);
       let m = m\<lparr>mo_incidents := incidents\<rparr>;
       if me_alerted mem \<or> me_streak mem < cfg_HealthUnhealthyStreak (Cfg d)
       then ret (m\<lparr>mo_stacks := (mo_stacks m)(name \<mapsto> mem)\<rparr>)
       else do {
         ok \<leftarrow> alert d c st name prob mem now;
         ret (m\<lparr>mo_stacks := (mo_stacks m)(name \<mapsto> mem\<lparr>me_alerted := ok\<rparr>)\<rparr>)
       }
     }
   }"

text \<open>The snapshots of all stacks: \<^const>\<open>None\<close> when the context ended on the way; a snapshot that fails
  otherwise is left out.\<close>

fun snapshots :: "'w Deps \<Rightarrow> ctx \<Rightarrow> string list \<Rightarrow> ('w, (string \<times> Snapshot) list option) state" where
  "snapshots d c [] = ret (Some [])"
| "snapshots d c (name # names) = do {
     r \<leftarrow> TakeSnapshot d c name;
     case r of
       Inl e \<Rightarrow> do {
         over \<leftarrow> ended d c;
         if over then ret None else snapshots d c names
       }
     | Inr snap \<Rightarrow> do {
         rest \<leftarrow> snapshots d c names;
         ret (map_option (\<lambda>xs. (name, snap) # xs) rest)
       }
   }"

definition monitorKey :: "State \<Rightarrow> string list \<Rightarrow> string" where
  "monitorKey st names = LastHealthyCommit st @ ''|'' @ LastCheckoutCommit st @ ''|'' @ Join names '',''"

definition rekey :: "string \<Rightarrow> MonitorState \<Rightarrow> MonitorState" where
  "rekey key m = (if key \<noteq> mo_key m then m\<lparr>mo_key := key, mo_stacks := Map.empty\<rparr> else m)"

text \<open>From the watched names on.\<close>

definition checkStacks :: "'w Deps \<Rightarrow> ctx \<Rightarrow> State \<Rightarrow> nat \<Rightarrow> string list \<Rightarrow> MonitorState \<Rightarrow> ('w, bool \<times> MonitorState) state" where
  "checkStacks d c st before names m0 = do {
     let m = rekey (monitorKey st names) m0;
     snaps \<leftarrow> snapshots d c names;
     case snaps of
       None \<Rightarrow> ret (False, m)
     | Some ss \<Rightarrow> do {
         after \<leftarrow> ActivityLoad d;
         if after \<noteq> before then ret (False, m)
         else do {
           now \<leftarrow> ClockNow d;
           m' \<leftarrow> foldM (observe d c st now) ss m;
           ret (True, m')
         }
       }
   }"

text \<open>\<open>check\<close>: whether the check was completed, and the new state of the monitor.\<close>

definition check :: "'w Deps \<Rightarrow> ctx \<Rightarrow> MonitorState \<Rightarrow> ('w, bool \<times> MonitorState) state" where
  "check d c m = do {
     before \<leftarrow> ActivityLoad d;
     if before mod 2 = 1 then ret (False, m)
     else do {
       r \<leftarrow> StoreLoad d;
       case r of
         Inl e \<Rightarrow> ret (True, m)
       | Inr st \<Rightarrow>
           if PendingCommit st \<noteq> [] \<or> PendingRevert st \<or> LastHealthyCommit st = [] then ret (True, m)
           else do {
             now \<leftarrow> ClockNow d;
             if Paused st now then ret (True, m)
             else do {
               w \<leftarrow> watched d st;
               case w of
                 Inl e \<Rightarrow> ret (True, m)
               | Inr names \<Rightarrow> checkStacks d c st before names m
             }
           }
     }
   }"

definition Check :: "'w Deps \<Rightarrow> ctx \<Rightarrow> MonitorState \<Rightarrow> ('w, MonitorState) state" where
  "Check d c m = do {
     p \<leftarrow> check d c m;
     _ \<leftarrow> (if fst p then HeartbeatPing d c else ret ());
     ret (snd p)
   }"

text \<open>\<^verbatim>\<open>Monitor.Run\<close>: one check per tick until the context ends.\<close>

fun Run_Monitor :: "'w Deps \<Rightarrow> ctx \<Rightarrow> nat \<Rightarrow> MonitorState \<Rightarrow> ('w, MonitorState) state" where
  "Run_Monitor d c 0 m = ret m"
| "Run_Monitor d c (Suc ticks) m = do { m' \<leftarrow> Check d c m; Run_Monitor d c ticks m' }"

section \<open>What counts as a problem\<close>

lemma unhealthy_has_reason: "evaluateContainers cs a b = (False, reason) \<Longrightarrow> reason \<noteq> []"
  by (induction cs a b rule: evaluateContainers.induct) (auto split: if_splits)

text \<open>A check finds nothing wrong with a stack exactly when it has containers, every service ever seen is
  still present, the containers pass the pre-flight evaluation and none of them has restarted since
  the last check.\<close>

theorem no_problem_iff:
  "problem mem snap = [] \<longleftrightarrow> Containers snap \<noteq> []
     \<and> (\<forall>s \<in> set (me_services mem). \<exists>c \<in> set (Containers snap). c_Service c = s)
     \<and> fst (EvaluatePreflight snap)
     \<and> (\<forall>c \<in> set (Containers snap). \<forall>prev. me_restarts mem (c_ID c) = Some prev \<longrightarrow> c_RestartCount c \<le> prev)"
proof -
  have reason: "reason \<noteq> []" if "EvaluatePreflight snap = (False, reason)" for reason
    using that unhealthy_has_reason by (simp add: EvaluatePreflight_def evaluate_def)
  have missing: "filter (\<lambda>s. s \<notin> set (map c_Service (Containers snap))) (me_services mem) = []
      \<longleftrightarrow> (\<forall>s \<in> set (me_services mem). \<exists>c \<in> set (Containers snap). c_Service c = s)"
    by (auto simp: filter_empty_conv)
  have restarted: "map c_Service (filter (\<lambda>c. case me_restarts mem (c_ID c) of None \<Rightarrow> False | Some prev \<Rightarrow> c_RestartCount c > prev)
      (Containers snap)) = [] \<longleftrightarrow> (\<forall>c \<in> set (Containers snap). \<forall>prev. me_restarts mem (c_ID c) = Some prev \<longrightarrow> c_RestartCount c \<le> prev)"
    by (auto simp: filter_empty_conv split: option.splits)
  show ?thesis
    unfolding problem_def Let_def missing [symmetric] restarted [symmetric]
    by (cases "EvaluatePreflight snap") (auto dest: reason split: bool.splits)
qed

section \<open>The monitor only looks\<close>

fun looking :: "event \<Rightarrow> bool" where
  "looking (EvGit args) \<longleftrightarrow> gitQuery args"
| "looking (EvSend _) \<longleftrightarrow> True"
| "looking EvPing \<longleftrightarrow> True"
| "looking (EvActivityLoad _) \<longleftrightarrow> True"
| "looking (EvSnapshot _) \<longleftrightarrow> True"
| "looking _ \<longleftrightarrow> False"

interpretation looks: reading_deps "traced d" "extends es0 looking" for d :: "'w Deps" and es0
  by (rule traced_reading) simp_all

lemma keeps_looking:
  "keeps (extends es0 looking) (NotifierSendThrottled (traced d) c k e)"
  "keeps (extends es0 looking) (HeartbeatPing (traced d) c)"
  "keeps (extends es0 looking) (ActivityLoad (traced d))"
  by (simp_all add: traced_def keeps_logged_extends keeps_quiet_extends)

lemma keeps_observe: "keeps (extends es0 looking) (observe (traced d) c st now ns m)"
  unfolding observe_def alert_def
  by (intro keeps_intros looks.keeps_addCommitContext keeps_looking)

lemma keeps_snapshots: "keeps (extends es0 looking) (snapshots (traced d) c names)"
  by (induction names) (auto intro!: keeps_intros looks.keeps_ended looks.snapshot split: sum.split)

lemma keeps_watched: "keeps (extends es0 looking) (watched (traced d) st)"
  unfolding watched_def StacksFor_def by (intro keeps_intros looks.reads)

lemma keeps_Check: "keeps (extends es0 looking) (Check (traced d) c m)"
  unfolding Check_def check_def checkStacks_def
  by (intro keeps_intros looks.reads looks.keeps_ClockNow keeps_looking keeps_observe keeps_snapshots keeps_watched)

lemma keeps_Run_Monitor: "keeps (extends es0 looking) (Run_Monitor (traced d) c ticks m)"
  by (induction ticks arbitrary: m) (auto intro!: keeps_intros keeps_Check)

text \<open>C26: the monitor only looks: however long it runs, it checks nothing out, writes no state, takes no lock
  and touches no container; all it does is query git, send alerts and ping the heartbeat.\<close>

theorem monitor_only_looks:
  assumes "run_state (Run_Monitor (traced d) c ticks m) ([], w) = (m', (es, w'))" and "e \<in> set es"
  shows "looking e"
  using keepsD [OF keeps_Run_Monitor [where ?es0.0 = "[]"] _ assms(1)] assms(2) by (simp add: list_all_iff)

section \<open>One alert per incident\<close>

definition sends :: "event list \<Rightarrow> event list" where
  "sends es = filter (\<lambda>e. case e of EvSend _ \<Rightarrow> True | _ \<Rightarrow> False) es"

lemma sends_append [simp]: "sends (xs @ ys) = sends xs @ sends ys"
  by (simp add: sends_def)

lemma sends_Nil [simp]: "sends [] = []"
  by (simp add: sends_def)

lemma sends_reads:
  assumes "extends es (permits (\<lambda>_. False) (\<lambda>_. False) False False False False) v"
  shows "sends (fst v) = sends es"
proof -
  obtain es' where v: "fst v = es @ es'" and all: "list_all (permits (\<lambda>_. False) (\<lambda>_. False) False False False False) es'"
    using assms by (cases v) (auto simp: extends_def)
  from all have "sends es' = []" by (induction es') (auto simp: sends_def split: event.splits)
  with v show ?thesis by simp
qed

text \<open>
  The reference: from the checks of a stack alone, when an alert is due. \<open>troubles\<close> says at which checks something is wrong
  with the stack, which depends on the services and restart counts seen before; \<open>streak\<close> is the number of
  checks in a row, up to the last one, at which something was wrong, and \<open>incidents\<close> the number of times that trouble
  began. With \<open>ok i\<close> for an alert that is delivered at check \<open>i\<close>, an alert is due when the trouble has lasted for \<open>N\<close> checks and
  none has been delivered since it had lasted that long.
\<close>

fun troubles :: "stackMemory \<Rightarrow> Snapshot list \<Rightarrow> bool list" where
  "troubles mem [] = []"
| "troubles mem (snap # snaps) = (problem mem snap \<noteq> []) # troubles (remember mem snap) snaps"

definition streak :: "bool list \<Rightarrow> nat" where
  "streak bs = length (takeWhile id (rev bs))"

definition incidents :: "bool list \<Rightarrow> nat" where
  "incidents bs = length (filter (\<lambda>i. bs ! i \<and> streak (take i bs) = 0) [0..<length bs])"

definition due :: "int \<Rightarrow> bool list \<Rightarrow> (nat \<Rightarrow> bool) \<Rightarrow> nat \<Rightarrow> bool" where
  "due N bs ok i \<longleftrightarrow> (let k = streak (take (Suc i) bs)
     in N \<le> int k \<and> \<not> (\<exists>j < i. i < j + k \<and> N \<le> int (streak (take (Suc j) bs)) \<and> ok j))"

definition alertsDue :: "int \<Rightarrow> string \<Rightarrow> int \<Rightarrow> bool list \<Rightarrow> (nat \<Rightarrow> bool) \<Rightarrow> event list" where
  "alertsDue N name before bs ok =
     map (\<lambda>i. EvSend (alertKey name ((before + int (incidents (take (Suc i) bs))) mod 2 ^ 64)))
       (filter (due N bs ok) [0..<length bs])"

lemma streak_simps [simp]: "streak [] = 0" "streak (bs @ [b]) = (if b then Suc (streak bs) else 0)"
  by (simp_all add: streak_def)

lemma streak_le: "streak bs \<le> length bs"
  using length_takeWhile_le [of id "rev bs"] by (simp add: streak_def)

lemma incidents_simps [simp]:
  "incidents [] = 0" "incidents (bs @ [b]) = incidents bs + (if b \<and> streak bs = 0 then 1 else 0)"
proof -
  have "filter (\<lambda>i. (bs @ [b]) ! i \<and> streak (take i (bs @ [b])) = 0) [0..<length bs]
      = filter (\<lambda>i. bs ! i \<and> streak (take i bs) = 0) [0..<length bs]"
    by (rule filter_cong) (simp_all add: nth_append)
  then show "incidents (bs @ [b]) = incidents bs + (if b \<and> streak bs = 0 then 1 else 0)" by (simp add: incidents_def)
qed (simp add: incidents_def)

text \<open>What holds an alert back at the next check.\<close>

definition delivered :: "int \<Rightarrow> bool list \<Rightarrow> (nat \<Rightarrow> bool) \<Rightarrow> bool" where
  "delivered N bs ok \<longleftrightarrow> (\<exists>j < length bs. length bs \<le> j + streak bs \<and> N \<le> int (streak (take (Suc j) bs)) \<and> ok j)"

lemma delivered_simps [simp]:
  "\<not> delivered N [] ok"
  "delivered N (bs @ [b]) ok \<longleftrightarrow> b \<and> (delivered N bs ok \<or> N \<le> int (Suc (streak bs)) \<and> ok (length bs))"
  by (auto simp: delivered_def less_Suc_eq)

lemma due_last: "due N (bs @ [b]) ok (length bs) \<longleftrightarrow> N \<le> int (streak (bs @ [b])) \<and> \<not> (b \<and> delivered N bs ok)"
  by (auto simp: due_def delivered_def Let_def)

lemma due_before: "i < length bs \<Longrightarrow> due N (bs @ [b]) ok i \<longleftrightarrow> due N bs ok i"
  by (auto simp: due_def Let_def)

lemma alertsDue_snoc: "alertsDue N name before (bs @ [b]) ok = alertsDue N name before bs ok
    @ (if N \<le> int (streak (bs @ [b])) \<and> \<not> (b \<and> delivered N bs ok)
       then [EvSend (alertKey name ((before + int (incidents (bs @ [b]))) mod 2 ^ 64))] else [])"
proof -
  have same: "filter (due N (bs @ [b]) ok) [0..<length bs] = filter (due N bs ok) [0..<length bs]"
    by (rule filter_cong) (simp_all add: due_before)
  have "map (\<lambda>i. EvSend (alertKey name ((before + int (incidents (take (Suc i) (bs @ [b])))) mod 2 ^ 64))) (filter (due N bs ok) [0..<length bs])
      = alertsDue N name before bs ok"
    unfolding alertsDue_def by (rule map_cong) auto
  then show ?thesis using due_last [of N bs b ok] by (simp add: alertsDue_def same)
qed

lemma delivered_upd [simp]: "length bs \<le> i \<Longrightarrow> delivered N bs (ok(i := x)) = delivered N bs ok"
  unfolding delivered_def by (rule ex_cong1) auto

lemma alertsDue_upd [simp]: "length bs \<le> i \<Longrightarrow> alertsDue N name before bs (ok(i := x)) = alertsDue N name before bs ok"
  unfolding alertsDue_def by (rule arg_cong [where f = "map _"], rule filter_cong) (auto simp: due_def Let_def)

text \<open>Whether something is wrong with a stack depends on what has been remembered alone.\<close>

definition recalls :: "stackMemory \<Rightarrow> stackMemory \<Rightarrow> bool" where
  "recalls a b \<longleftrightarrow> me_services a = me_services b \<and> me_restarts a = me_restarts b"

lemma recalls_problem: "recalls a b \<Longrightarrow> problem a snap = problem b snap"
  by (simp add: recalls_def problem_def)

lemma recalls_remember: "recalls a b \<Longrightarrow> recalls (remember a snap) (remember b snap)"
  by (simp add: recalls_def remember_def)

lemma troubles_snoc: "troubles mem (snaps @ [s]) = troubles mem snaps @ [problem (foldl remember mem snaps) s \<noteq> []]"
  by (induction snaps arbitrary: mem) auto

lemma length_troubles [simp]: "length (troubles mem snaps) = length snaps"
  by (induction snaps arbitrary: mem) auto

text \<open>The state of the monitor after the checks \<open>snaps\<close> of a stack that it did not know before.\<close>

definition onRecord :: "int \<Rightarrow> string \<Rightarrow> int \<Rightarrow> Snapshot list \<Rightarrow> (nat \<Rightarrow> bool) \<Rightarrow> MonitorState \<Rightarrow> bool" where
  "onRecord N name before snaps ok m \<longleftrightarrow>
     (let bs = troubles newMemory snaps; mem = (case mo_stacks m name of None \<Rightarrow> newMemory | Some mem \<Rightarrow> mem)
      in recalls mem (foldl remember newMemory snaps) \<and> me_streak mem = int (streak bs) \<and> me_alerted mem = delivered N bs ok
       \<and> mo_incidents m mod 2 ^ 64 = (before + int (incidents bs)) mod 2 ^ 64
       \<and> (streak bs \<noteq> 0 \<longrightarrow> me_incident mem = (before + int (incidents bs)) mod 2 ^ 64))"

text \<open>Whether deliveries that are bound to come out one way are recorded so.\<close>

definition truthful :: "'w Deps \<Rightarrow> nat \<Rightarrow> (nat \<Rightarrow> bool) \<Rightarrow> bool" where
  "truthful d n ok \<longleftrightarrow> (\<forall>x. (\<forall>c k e w. fst (run_state (NotifierSendThrottled d c k e) w) = x) \<longrightarrow> (\<forall>i < n. ok i = x))"

lemma truthful_Suc:
  "truthful d n ok \<Longrightarrow> r = fst (run_state (NotifierSendThrottled d c k e) w) \<Longrightarrow> truthful d (Suc n) (ok(n := r))"
  by (auto simp: truthful_def less_Suc_eq)

lemma wp_alert:
  assumes "NotifierEnabled d"
  shows "wp (alert (traced d) c st name prob mem now)
     (\<lambda>ok v. sends (fst v) = sends es @ [EvSend (alertKey name (me_incident mem))]
        \<and> (\<exists>c k e w. ok = fst (run_state (NotifierSendThrottled d c k e) w))) (es, w)"
proof -
  have send: "wp (NotifierSendThrottled (traced d) c k e) (\<lambda>ok v. sends (fst v) = sends es @ [EvSend k]
      \<and> (\<exists>c k e w. ok = fst (run_state (NotifierSendThrottled d c k e) w))) v"
    if "sends (fst v) = sends es" for k e v
    using that by (cases v) (auto simp: traced_def wp_def logged_def sends_def split: prod.splits, metis fst_conv)
  have "NotifierEnabled (traced d)" using assms by (simp add: traced_def)
  then show ?thesis
    unfolding alert_def Let_def
    by (intro wp_bindI wp_keepsI [OF reads.keeps_addCommitContext [where ?es0.0 = es]]) (auto intro!: send sends_reads)
qed

lemma wp_observe:
  fixes d :: "'w Deps"
  defines "N \<equiv> cfg_HealthUnhealthyStreak (Cfg d)"
  assumes "NotifierEnabled d" and N: "1 \<le> N" and m: "onRecord N name before snaps ok m" and ok: "truthful d (length snaps) ok"
    and sent: "sends es = alertsDue N name before (troubles newMemory snaps) ok"
  shows "wp (observe (traced d) c st now (name, snap) m)
     (\<lambda>m' v. \<exists>ok'. onRecord N name before (snaps @ [snap]) ok' m' \<and> truthful d (Suc (length snaps)) ok'
        \<and> sends (fst v) = alertsDue N name before (troubles newMemory (snaps @ [snap])) ok') (es, w)"
proof -
  define bs where "bs = troubles newMemory snaps"
  define mem0 where "mem0 = (case mo_stacks m name of None \<Rightarrow> newMemory | Some mem \<Rightarrow> mem)"
  define p where "p = problem mem0 snap"
  have len: "length snaps = length bs" by (simp add: bs_def)
  have rec0: "recalls mem0 (foldl remember newMemory snaps)" and mem0: "me_streak mem0 = int (streak bs)" "me_alerted mem0 = delivered N bs ok"
    and inc0: "mo_incidents m mod 2 ^ 64 = (before + int (incidents bs)) mod 2 ^ 64"
    and own: "streak bs \<noteq> 0 \<Longrightarrow> me_incident mem0 = (before + int (incidents bs)) mod 2 ^ 64"
    using m by (simp_all add: onRecord_def Let_def bs_def mem0_def)
  have bs': "troubles newMemory (snaps @ [snap]) = bs @ [p \<noteq> []]"
    by (simp add: troubles_snoc bs_def p_def recalls_problem [OF rec0])
  have rec: "recalls (remember mem0 snap) (remember (foldl remember newMemory snaps) snap)" by (rule recalls_remember [OF rec0])
  have next_inc: "(mo_incidents m + 1) mod 2 ^ 64 = (before + int (incidents bs) + 1) mod 2 ^ 64"
    by (metis inc0 mod_add_left_eq)
  define mem where "mem = fst (countProblem now (remember mem0 snap) (mo_incidents m))"
  define incs where "incs = snd (countProblem now (remember mem0 snap) (mo_incidents m))"
  have mem: "recalls mem (remember (foldl remember newMemory snaps) snap)" "me_streak mem = int (Suc (streak bs))" "me_alerted mem = delivered N bs ok"
      "me_incident mem = (before + int (incidents (bs @ [True]))) mod 2 ^ 64"
      "incs mod 2 ^ 64 = (before + int (incidents (bs @ [True]))) mod 2 ^ 64"
    using rec mem0 own next_inc inc0
    by (auto simp: mem_def incs_def countProblem_def remember_def recalls_def Let_def add.assoc)
  have eq: "observe (traced d) c st now (name, snap) m =
     (if p = [] then ret (m\<lparr>mo_stacks := (mo_stacks m)(name \<mapsto> (remember mem0 snap)\<lparr>me_streak := 0, me_alerted := False\<rparr>)\<rparr>)
      else if me_alerted mem \<or> me_streak mem < N then ret (m\<lparr>mo_incidents := incs, mo_stacks := (mo_stacks m)(name \<mapsto> mem)\<rparr>)
      else do {
        ok \<leftarrow> alert (traced d) c st name p mem now;
        ret (m\<lparr>mo_incidents := incs, mo_stacks := (mo_stacks m)(name \<mapsto> mem\<lparr>me_alerted := ok\<rparr>)\<rparr>)
      })"
    by (simp add: observe_def Let_def case_prod_beta p_def mem_def incs_def mem0_def N_def)
  have truth: "truthful d (Suc (length bs)) (ok(length bs := r))" if "\<exists>c k e w. r = fst (run_state (NotifierSendThrottled d c k e) w)" for r
  proof -
    from that obtain c k e w where "r = fst (run_state (NotifierSendThrottled d c k e) w)" by blast
    from truthful_Suc [OF ok this] show ?thesis by (simp only: len)
  qed
  have sent: "sends es = alertsDue N name before bs ok" using sent by (simp add: bs_def)
  define some where "some = fst (run_state (NotifierSendThrottled d c [] undefined) w)"
  have some: "truthful d (Suc (length bs)) (ok(length bs := some))" by (rule truth) (auto simp: some_def)
  have told: "onRecord N name before (snaps @ [snap]) (ok(length bs := r))
      (m\<lparr>mo_incidents := incs, mo_stacks := (mo_stacks m)(name \<mapsto> mem\<lparr>me_alerted := a\<rparr>)\<rparr>)"
    if "p \<noteq> []" "a = (delivered N bs ok \<or> N \<le> int (Suc (streak bs)) \<and> r)" for a r
    using mem that by (simp add: onRecord_def Let_def bs' recalls_def)
  consider (healthy) "p = []" | (quiet) "p \<noteq> []" "me_alerted mem \<or> me_streak mem < N" | (loud) "p \<noteq> []" "\<not> (me_alerted mem \<or> me_streak mem < N)"
    by blast
  then show ?thesis
  proof cases
    case healthy
    have "onRecord N name before (snaps @ [snap]) (ok(length bs := some))
        (m\<lparr>mo_stacks := (mo_stacks m)(name \<mapsto> (remember mem0 snap)\<lparr>me_streak := 0, me_alerted := False\<rparr>)\<rparr>)"
      using rec inc0 by (simp add: onRecord_def Let_def bs' healthy recalls_def)
    then show ?thesis
      unfolding eq if_P [OF healthy] wp_return bs' len using some sent N
      by (intro exI [of _ "ok(length bs := some)"]) (simp add: alertsDue_snoc healthy)
  next
    case quiet
    have same: "mem\<lparr>me_alerted := me_alerted mem\<rparr> = mem" by (cases mem) simp
    have "me_alerted mem = (delivered N bs ok \<or> N \<le> int (Suc (streak bs)) \<and> r)" for r
      using quiet mem(2,3) by auto
    from told [OF quiet(1) this] have "onRecord N name before (snaps @ [snap]) (ok(length bs := some))
        (m\<lparr>mo_incidents := incs, mo_stacks := (mo_stacks m)(name \<mapsto> mem)\<rparr>)" unfolding same .
    moreover have "\<not> (N \<le> int (Suc (streak bs)) \<and> \<not> delivered N bs ok)" using quiet(2) mem(2,3) by auto
    ultimately show ?thesis
      unfolding eq if_not_P [OF quiet(1)] if_P [OF quiet(2)] wp_return bs' len using some sent quiet(1)
      by (intro exI [of _ "ok(length bs := some)"]) (auto simp: alertsDue_snoc)
  next
    case loud
    have log: "sends es @ [EvSend (alertKey name (me_incident mem))] = alertsDue N name before (bs @ [p \<noteq> []]) (ok(length bs := r))" for r
      using sent mem loud by (simp add: alertsDue_snoc)
    have state: "onRecord N name before (snaps @ [snap]) (ok(length bs := r))
        (m\<lparr>mo_incidents := incs, mo_stacks := (mo_stacks m)(name \<mapsto> mem\<lparr>me_alerted := r\<rparr>)\<rparr>)" for r
      by (rule told [OF loud(1)]) (use loud(2) mem in auto)
    show ?thesis
      unfolding eq if_not_P [OF loud(1)] if_not_P [OF loud(2)] bs' len wp_bind
    proof (rule wp_mono [OF wp_alert [OF assms(2)]], unfold wp_return, elim conjE)
      fix r and v :: "event list \<times> 'w"
      assume "sends (fst v) = sends es @ [EvSend (alertKey name (me_incident mem))]"
        and "\<exists>c k e w. r = fst (run_state (NotifierSendThrottled d c k e) w)"
      then show "\<exists>ok'. onRecord N name before (snaps @ [snap]) ok'
            (m\<lparr>mo_incidents := incs, mo_stacks := (mo_stacks m)(name \<mapsto> mem\<lparr>me_alerted := r\<rparr>)\<rparr>)
          \<and> truthful d (Suc (length bs)) ok' \<and> sends (fst v) = alertsDue N name before (bs @ [p \<noteq> []]) ok'"
        using state [of r] truth [of r] log [of r] by (intro exI [of _ "ok(length bs := r)"]) simp
    qed
  qed
qed

lemma wp_observations:
  fixes d :: "'w Deps"
  defines "N \<equiv> cfg_HealthUnhealthyStreak (Cfg d)"
  assumes "NotifierEnabled d" and "1 \<le> N"
  shows "onRecord N name before snaps ok m \<Longrightarrow> truthful d (length snaps) ok \<Longrightarrow>
     sends es = alertsDue N name before (troubles newMemory snaps) ok \<Longrightarrow>
     wp (foldM (\<lambda>(now, snap). observe (traced d) c st now (name, snap)) obs m)
       (\<lambda>_ v. \<exists>ok'. truthful d (length snaps + length obs) ok'
          \<and> sends (fst v) = alertsDue N name before (troubles newMemory (snaps @ map snd obs)) ok') (es, w)"
proof (induction obs arbitrary: snaps ok m es w)
  case (Cons x obs)
  obtain now snap where x: "x = (now, snap)" by (cases x)
  show ?case
    unfolding foldM.simps x prod.case wp_bind
  proof (rule wp_mono [OF wp_observe [OF assms(2) assms(3)[unfolded N_def] Cons.prems [unfolded N_def]]], elim exE conjE)
    fix m1 ok' and v :: "event list \<times> 'w"
    assume step: "onRecord (cfg_HealthUnhealthyStreak (Cfg d)) name before (snaps @ [snap]) ok' m1" "truthful d (Suc (length snaps)) ok'"
      "sends (fst v) = alertsDue (cfg_HealthUnhealthyStreak (Cfg d)) name before (troubles newMemory (snaps @ [snap])) ok'"
    have "wp (foldM (\<lambda>(now, snap). observe (traced d) c st now (name, snap)) obs m1)
       (\<lambda>_ v. \<exists>ok'. truthful d (length (snaps @ [snap]) + length obs) ok'
          \<and> sends (fst v) = alertsDue N name before (troubles newMemory ((snaps @ [snap]) @ map snd obs)) ok') (fst v, snd v)"
      by (rule Cons.IH) (use step in \<open>simp_all add: N_def\<close>)
    then show "wp (foldM (\<lambda>(now, snap). observe (traced d) c st now (name, snap)) obs m1)
       (\<lambda>_ v. \<exists>ok'. truthful d (length snaps + length ((now, snap) # obs)) ok'
          \<and> sends (fst v) = alertsDue N name before (troubles newMemory (snaps @ map snd ((now, snap) # obs))) ok') v"
      by simp
  qed
qed (auto simp: wp_return)

lemma streak_shift: "j \<le> i \<Longrightarrow> i < length bs \<Longrightarrow> i < j + streak (take (Suc i) bs) \<Longrightarrow>
  streak (take (Suc i) bs) = streak (take (Suc j) bs) + (i - j)"
proof (induction i)
  case (Suc i)
  have s: "streak (take (Suc (Suc i)) bs) = (if bs ! Suc i then Suc (streak (take (Suc i) bs)) else 0)"
    using Suc.prems(2) by (simp add: take_Suc_conv_app_nth [of "Suc i"])
  show ?case
  proof (cases "j = Suc i")
    case False
    then show ?thesis using Suc.IH Suc.prems s by (auto split: if_splits)
  qed simp
qed simp

text \<open>When every alert is delivered, one is due exactly when the trouble has lasted for \<open>N\<close> checks.\<close>

lemma due_delivered:
  assumes "\<And>i. i < length bs \<Longrightarrow> ok i" and "1 \<le> N" and "i < length bs"
  shows "due N bs ok i \<longleftrightarrow> int (streak (take (Suc i) bs)) = N"
proof -
  let ?k = "streak (take (Suc i) bs)"
  have "int ?k \<le> N" if "due N bs ok i"
  proof (rule ccontr)
    assume more: "\<not> int ?k \<le> N"
    then have "?k \<ge> 2" using assms(2) by linarith
    moreover have "?k \<le> Suc i" using streak_le [of "take (Suc i) bs"] by simp
    ultimately have i: "1 \<le> i" "i < (i - 1) + ?k" by linarith+
    have "N \<le> int (streak (take (Suc (i - 1)) bs))"
      using streak_shift [of "i - 1" i bs] i assms(3) more by linarith
    moreover have "ok (i - 1)" using assms(1) [of "i - 1"] assms(3) by simp
    moreover from that have "\<not> (i - 1 < i \<and> i < (i - 1) + ?k \<and> N \<le> int (streak (take (Suc (i - 1)) bs)) \<and> ok (i - 1))"
      unfolding due_def Let_def by blast
    ultimately show False using i by simp
  qed
  moreover have "N > int (streak (take (Suc j) bs))" if "int ?k = N" "j < i" "i < j + ?k" for j
    using streak_shift [of j i bs] that assms(3) by linarith
  ultimately show ?thesis by (force simp: due_def Let_def)
qed

text \<open>C27: one alert per incident: whatever the checks of a stack find, from the first one on, the alerts that are sent are those that are
  due: one at each check at which trouble has lasted for at least the configured number of checks in a
  row, as long as none has been delivered for this incident; a healthy check ends the incident, and the next one is counted and reported anew.
  So with deliveries that succeed it is exactly one alert for every incident, at the check at which it has lasted
  long enough. Whether something is wrong is judged by the services and restart counts of the checks before.\<close>

theorem one_alert_per_incident:
  fixes d :: "'w Deps"
  assumes "run_state (foldM (\<lambda>(now, snap). observe (traced d) c st now (name, snap)) obs m) ([], w) = (m', (es, w'))"
    and "NotifierEnabled d" and "mo_stacks m name = None"
    and "N = cfg_HealthUnhealthyStreak (Cfg d)" and "1 \<le> N" and "bs = troubles newMemory (map snd obs)"
  shows "(\<exists>ok. sends es = alertsDue N name (mo_incidents m) bs ok \<and> truthful d (length obs) ok)
    \<and> ((\<forall>c k e w. fst (run_state (NotifierSendThrottled d c k e) w)) \<longrightarrow>
        sends es = map (\<lambda>i. EvSend (alertKey name ((mo_incidents m + int (incidents (take (Suc i) bs))) mod 2 ^ 64)))
          (filter (\<lambda>i. int (streak (take (Suc i) bs)) = N) [0..<length obs]))"
proof -
  let ?none = "\<lambda>_. False"
  have init: "onRecord (cfg_HealthUnhealthyStreak (Cfg d)) name (mo_incidents m) [] ?none m" "truthful d (length []) ?none"
      "sends [] = alertsDue (cfg_HealthUnhealthyStreak (Cfg d)) name (mo_incidents m) (troubles newMemory []) ?none"
    using assms(3) by (simp_all add: onRecord_def newMemory_def recalls_def truthful_def alertsDue_def)
  obtain ok where ok: "truthful d (length obs) ok" "sends es = alertsDue N name (mo_incidents m) bs ok"
    using wpD [OF wp_observations [OF assms(2) assms(5) [unfolded assms(4)] init] assms(1)]
    unfolding assms(4,6) by (auto simp only: append_Nil list.size add_0 fst_conv)
  have len: "length bs = length obs" using assms(6) by simp
  have "sends es = map (\<lambda>i. EvSend (alertKey name ((mo_incidents m + int (incidents (take (Suc i) bs))) mod 2 ^ 64)))
        (filter (\<lambda>i. int (streak (take (Suc i) bs)) = N) [0..<length obs])"
    if "\<forall>c k e w. fst (run_state (NotifierSendThrottled d c k e) w)"
  proof -
    from ok(1) have "(\<forall>c k e w. fst (run_state (NotifierSendThrottled d c k e) w) = True) \<longrightarrow> (\<forall>i < length obs. ok i = True)"
      unfolding truthful_def by (rule spec)
    then have all: "ok i" if "i < length bs" for i using \<open>\<forall>c k e w. fst _\<close> that len by simp
    have "filter (due N bs ok) [0..<length bs] = filter (\<lambda>i. int (streak (take (Suc i) bs)) = N) [0..<length bs]"
      by (rule filter_cong [OF refl]) (simp add: due_delivered [OF all assms(5)])
    then show ?thesis using ok(2) by (simp add: alertsDue_def len)
  qed
  with ok show ?thesis by blast
qed

section \<open>Witnesses\<close>

theorem no_problem_iff_witness:
  "problem (newMemory\<lparr>me_services := [''web''], me_restarts := [''x'' \<mapsto> 0]\<rparr>) demoSnapshot = []"
proof -
  have "fst (EvaluatePreflight demoSnapshot)" by code_simp
  then show ?thesis
    unfolding no_problem_iff by (simp add: demoSnapshot_def demoContainer_def)
qed

theorem monitor_only_looks_witness:
  "\<exists>m' es. run_state (Run_Monitor (traced (demoDeps demoState None emptySnapshot)) CallerCtx 4 NewMonitor) ([], ()) = (m', (es, ()))
     \<and> EvPing \<in> set es \<and> EvUp \<notin> set es"
proof -
  let ?run = "run_state (Run_Monitor (traced (demoDeps demoState None emptySnapshot)) CallerCtx 4 NewMonitor) ([], ())"
  obtain m' es where run: "?run = (m', (es, ()))" by (rule demo_run)
  have "EvPing \<in> set (fst (snd ?run))" by code_simp
  with monitor_only_looks [OF run, of EvUp] run show ?thesis by auto
qed

text \<open>Four checks find nothing of the stack, one finds it healthy, and three find nothing again.\<close>

definition twoIncidents :: "(time \<times> Snapshot) list" where
  "twoIncidents = [(1, emptySnapshot), (2, emptySnapshot), (3, emptySnapshot), (4, emptySnapshot), (5, demoSnapshot),
     (6, emptySnapshot), (7, emptySnapshot), (8, emptySnapshot)]"

theorem one_alert_per_incident_witness:
  "\<exists>m' es. run_state (foldM (\<lambda>(now, snap). observe (traced (demoDeps demoState None emptySnapshot\<lparr>NotifierEnabled := True\<rparr>)) CallerCtx
       demoState now (''web'', snap)) twoIncidents NewMonitor) ([], ()) = (m', (es, ()))
     \<and> sends es = [EvSend ''monitor:web:1'', EvSend ''monitor:web:2'']"
proof -
  let ?d = "demoDeps demoState None emptySnapshot\<lparr>NotifierEnabled := True\<rparr>"
  let ?bs = "troubles newMemory (map snd twoIncidents)"
  obtain m' es where run: "run_state (foldM (\<lambda>(now, snap). observe (traced ?d) CallerCtx demoState now (''web'', snap)) twoIncidents NewMonitor) ([], ())
      = (m', (es, ()))" by (rule demo_run)
  have d: "NotifierEnabled ?d" "\<forall>c k e w. fst (run_state (NotifierSendThrottled ?d c k e) w)" "mo_stacks NewMonitor ''web'' = None"
    by (simp_all add: demoDeps_def NewMonitor_def)
  have N: "3 = cfg_HealthUnhealthyStreak (Cfg ?d)" "(1 :: int) \<le> 3" by code_simp+
  have "map (\<lambda>i. EvSend (alertKey ''web'' ((mo_incidents NewMonitor + int (incidents (take (Suc i) ?bs))) mod 2 ^ 64)))
          (filter (\<lambda>i. int (streak (take (Suc i) ?bs)) = 3) [0..<length twoIncidents]) = [EvSend ''monitor:web:1'', EvSend ''monitor:web:2'']"
    by code_simp
  with one_alert_per_incident [OF run d(1,3) N refl] d(2) run show ?thesis by metis
qed

end
