(* ===== verification/Cli.thy ===== *)
theory Cli
  imports CliFlags Webhook Monitor
begin

text \<open>
  The commands: \<^verbatim>\<open>cmd/composelock/commands.go\<close> and \<^verbatim>\<open>pause.go\<close>. A command is a program over the
  dependencies of a run; what it prints is part of its result, logging is left out. The loops that
  wait for somebody else, for the state lock and for the next poll, are partial functions on the world:
  \<^const>\<open>None\<close> is a loop that never ends.
\<close>

datatype printed = Out string | ErrOut string

definition exitCode :: "RunResult \<Rightarrow> int" where
  "exitCode result = (if rs_Degraded result then 3 else if rs_Err result \<noteq> None then 1 else 0)"

definition sendNotification :: "'w Deps \<Rightarrow> ctx \<Rightarrow> RunResult \<Rightarrow> ('w, unit) state" where
  "sendNotification d c result =
     (case rs_Notification result of
        None \<Rightarrow> ret ()
      | Some emb \<Rightarrow> do { _ \<leftarrow> NotifierSendThrottled d c (rs_NotificationKey result) emb; ret () })"

definition cmdReconcile :: "'w Deps \<Rightarrow> ctx \<Rightarrow> string \<Rightarrow> bool \<Rightarrow> bool \<Rightarrow> ('w, int) state" where
  "cmdReconcile d c trigger dryRun force = do {
     result \<leftarrow> Reconcile d c \<lparr>op_DryRun = dryRun, op_Force = force, op_Trigger = trigger\<rparr>;
     _ \<leftarrow> sendNotification d (WithoutCancel c) result;
     ret (exitCode result)
   }"

section \<open>Times and texts\<close>

text \<open>
  The calendar date of a day number; day 0 is the first of January of year 1. Years start in March
  and come in eras of 400, so that the leap day is the last of its year.
\<close>

definition civil :: "int \<Rightarrow> int \<times> int \<times> int" where
  "civil days =
     (let z = days + 306;
          era = z div 146097;
          doe = z mod 146097;
          yoe = (doe - doe div 1460 + doe div 36524 - doe div 146096) div 365;
          doy = doe - (365 * yoe + yoe div 4 - yoe div 100);
          mp = (5 * doy + 2) div 153;
          m = (if mp < 10 then mp + 3 else mp - 9)
      in (yoe + era * 400 + (if m \<le> 2 then 1 else 0), m, doy - (153 * mp + 2) div 5 + 1))"

definition pad4 :: "int \<Rightarrow> string" where
  "pad4 n = (let s = itoa n in replicate (4 - length s) (CHR ''0'') @ s)"

text \<open>\<^verbatim>\<open>t.Local().Format(time.DateTime)\<close>; \<open>off\<close> is the offset of the local time.\<close>

definition dateTime :: "duration \<Rightarrow> time \<Rightarrow> string" where
  "dateTime off t =
     (let s = (t + off) mod day div second
      in case civil ((t + off) div day) of
           (y, m, d) \<Rightarrow> pad4 y @ ''-'' @ pad2 m @ ''-'' @ pad2 d @ '' ''
             @ pad2 (s div 3600) @ '':'' @ pad2 (s div 60 mod 60) @ '':'' @ pad2 (s mod 60))"

definition padRight :: "nat \<Rightarrow> string \<Rightarrow> string" where
  "padRight n s = s @ replicate (n - length (runes s)) (CHR '' '')"

definition shortCommitID :: "string \<Rightarrow> string" where
  "shortCommitID commit = take (min (length commit) 7) commit"

definition orNone :: "string \<Rightarrow> string" where
  "orNone s = (if s = [] then ''-'' else s)"

definition pauseDescription :: "(time \<Rightarrow> duration) \<Rightarrow> time \<Rightarrow> string \<Rightarrow> string" where
  "pauseDescription zone until reason =
     (if \<not> IsZero until then ''until '' @ dateTime (zone until) until else ''until resumed'')
     @ (if reason \<noteq> [] then '' ('' @ reason @ '')'' else [])"

section \<open>Status\<close>

definition historyLine :: "(time \<Rightarrow> duration) \<Rightarrow> Deployment \<Rightarrow> string" where
  "historyLine zone dep =
     ''  '' @ dateTime (zone (d_At dep)) (d_At dep) @ ''  '' @ padRight 17 (resultString (d_Result dep)) @ '' ''
     @ orNone (shortCommitID (d_Commit dep))
     @ (if d_RolledBackTo dep \<noteq> [] then '' -> '' @ shortCommitID (d_RolledBackTo dep) else [])
     @ (if d_Repeats dep > 0 then '' (x'' @ itoa (d_Repeats dep + 1) @ '')'' else [])
     @ (if d_Error dep \<noteq> [] then ''  '' @ d_Error dep else [])"

definition printPauseAndHistory :: "(time \<Rightarrow> duration) \<Rightarrow> State \<Rightarrow> time \<Rightarrow> printed list" where
  "printPauseAndHistory zone st now =
     (if Paused st now then [Out (''paused: '' @ pauseDescription zone (PausedUntil st) (PauseReason st))] else [])
     @ (if History st = [] then []
        else Out ''recent deployments (newest first):'' # map (\<lambda>dep. Out (historyLine zone dep)) (rev (History st)))"

definition printDeployWindow :: "(time \<Rightarrow> duration) \<Rightarrow> Config \<Rightarrow> time \<Rightarrow> printed list" where
  "printDeployWindow zone cfg now =
     (case Window cfg of
        None \<Rightarrow> []
      | Some w \<Rightarrow>
          if WindowOpen w (zone now) now then [Out (''deploy window: '' @ WindowString w @ '' (open)'')]
          else [Out (''deploy window: '' @ WindowString w @ '' (closed, opens ''
                  @ dateTime (zone (NextOpening w zone now)) (NextOpening w zone now) @ '')'')])"

definition verdict :: "Snapshot \<Rightarrow> string" where
  "verdict snap =
     (case Evaluate snap of (healthy, reason) \<Rightarrow>
        if \<not> healthy then ''UNHEALTHY: '' @ reason
        else if Containers snap = [] then ''NO CONTAINERS'' else ''HEALTHY'')"

definition containerLine :: "ContainerStatus \<Rightarrow> string" where
  "containerLine c = ''  '' @ c_Service c @ '' ('' @ c_ID c @ ''): state='' @ c_State c @ '' health='' @ c_Health c
     @ '' restarts='' @ itoa (c_RestartCount c)"

definition printStackContainers :: "'w Deps \<Rightarrow> ctx \<Rightarrow> string \<Rightarrow> ('w, int \<times> printed list) state" where
  "printStackContainers d c projectName = do {
     r \<leftarrow> TakeSnapshot d (WithTimeout c (10 * second)) projectName;
     ret (case r of
        Inl e \<Rightarrow> (1, [ErrOut (''live health snapshot: '' @ errText e)])
      | Inr snap \<Rightarrow> (0, Out (''live containers ('' @ projectName @ ''): '' @ verdict snap)
                          # map (\<lambda>c. Out (containerLine c)) (Containers snap)))
   }"

text \<open>The lock is taken if it is free; if it is not, the function runs all the same.\<close>

definition withStateLock :: "'w Deps \<Rightarrow> ('w, 'a) state \<Rightarrow> ('w, err + 'a \<times> printed list) state" where
  "withStateLock d fn =
     (case Lock d of
        None \<Rightarrow> do { a \<leftarrow> fn; ret (Inr (a, [])) }
      | Some (tryLock, unlock) \<Rightarrow> do {
          r \<leftarrow> tryLock;
          case r of
            Inl e \<Rightarrow> ret (Inl (wrapf ''acquiring state lock: '' e))
          | Inr held \<Rightarrow>
              if held then do { a \<leftarrow> fn; _ \<leftarrow> unlock; ret (Inr (a, [])) }
              else do {
                a \<leftarrow> fn;
                ret (Inr (a, [Out ''note: a reconcile is in progress, state and containers may not agree'']))
              }
        })"

definition readStatus :: "'w Deps \<Rightarrow> ('w, err + State \<times> (err + Stack list)) state" where
  "readStatus d = do {
     r \<leftarrow> StoreLoad d;
     case r of
       Inl e \<Rightarrow> ret (Inl e)
     | Inr st \<Rightarrow> do { s \<leftarrow> StacksFor d; ret (Inr (st, s)) }
   }"

text \<open>The last code of a stack that is not zero.\<close>

definition statusOfStack :: "'w Deps \<Rightarrow> ctx \<Rightarrow> Stack \<Rightarrow> int \<times> printed list \<Rightarrow> ('w, int \<times> printed list) state" where
  "statusOfStack d c s acc = do {
     p \<leftarrow> printStackContainers d c (k_ProjectName s);
     ret (if fst p \<noteq> 0 then fst p else fst acc, snd acc @ snd p)
   }"

text \<open>\<open>marshalState\<close> is the indented JSON text of the state, or the error of the encoder.\<close>

definition cmdStatus :: "(State \<Rightarrow> err + string) \<Rightarrow> 'w Deps \<Rightarrow> ctx \<Rightarrow> string \<Rightarrow> ('w, int \<times> printed list) state" where
  "cmdStatus marshalState d c configPath = do {
     let config = [Out (''config: '' @ configPath)];
     r \<leftarrow> withStateLock d (readStatus d);
     case r of
       Inl e \<Rightarrow> ret (2, config @ [ErrOut (errText e)])
     | Inr (Inl e, note) \<Rightarrow> ret (2, config @ note @ [ErrOut (''reading state: '' @ errText e)])
     | Inr (Inr (st, stacks), note) \<Rightarrow> do {
         now1 \<leftarrow> TimeNow d;
         now2 \<leftarrow> TimeNow d;
         let out = config @ note @ printDeployWindow (ZoneOffset d) (Cfg d) now1 @ printPauseAndHistory (ZoneOffset d) st now2;
         case marshalState st of
           Inl e \<Rightarrow> ret (1, out @ [ErrOut (''encoding state: '' @ errText e)])
         | Inr data \<Rightarrow>
             (case stacks of
                Inl e \<Rightarrow> ret (1, out @ [Out (''state:'' @ [CHR 0x0A] @ data), ErrOut (''discovering compose stacks: '' @ errText e)])
              | Inr ss \<Rightarrow> foldM (statusOfStack d c) ss (0, out @ [Out (''state:'' @ [CHR 0x0A] @ data)]))
       }
   }"

section \<open>Pause and resume\<close>

definition lockRetryInterval :: duration where
  "lockRetryInterval = second"

definition gaveUp :: "err option \<Rightarrow> err" where
  "gaveUp e = (case e of
     Some e \<Rightarrow> wrapf ''gave up waiting for the state lock: '' e
   | None \<Rightarrow> errorf ''gave up waiting for the state lock: %!w(<nil>)'')"

text \<open>\<open>waiting\<close> is whether the note has been printed; \<open>SleepCtx\<close> is the timer against the context.\<close>

partial_function (option) waitForLock ::
  "'w Deps \<Rightarrow> ctx \<Rightarrow> ('w, err + bool) state \<Rightarrow> bool \<Rightarrow> 'w \<Rightarrow> ((err option \<times> bool) \<times> 'w) option" where
  "waitForLock d c tryLock waiting w =
     (case run_state tryLock w of
        (Inl e, w1) \<Rightarrow> Some ((Some (wrapf ''acquiring state lock: '' e), waiting), w1)
      | (Inr held, w1) \<Rightarrow>
          if held then Some ((None, waiting), w1)
          else (case run_state (SleepCtx d c lockRetryInterval) w1 of
                  (elapsed, w2) \<Rightarrow>
                    if elapsed then waitForLock d c tryLock True w2
                    else (case run_state (CtxErr d c) w2 of
                            (e, w3) \<Rightarrow> Some ((Some (gaveUp e), True), w3))))"

declare waitForLock.simps [code]

text \<open>Load, change and save under the lock.\<close>

definition changeState :: "'w Deps \<Rightarrow> (State \<Rightarrow> ('w, 'a \<times> State) state) \<Rightarrow> ('w, err + 'a) state" where
  "changeState d change = do {
     r \<leftarrow> StoreLoad d;
     case r of
       Inl e \<Rightarrow> ret (Inl (wrapf ''reading state: '' e))
     | Inr st \<Rightarrow> do {
         p \<leftarrow> change st;
         s \<leftarrow> StoreSave d (snd p);
         ret (case s of Some e \<Rightarrow> Inl (wrapf ''saving state: '' e) | None \<Rightarrow> Inr (fst p))
       }
   }"

text \<open>A nil lock makes the method call panic, which does not return either.\<close>

definition updateState ::
  "'w Deps \<Rightarrow> ctx \<Rightarrow> (State \<Rightarrow> ('w, 'a \<times> State) state) \<Rightarrow> 'w \<Rightarrow> (((err + 'a) \<times> printed list) \<times> 'w) option" where
  "updateState d c change w =
     (case Lock d of
        None \<Rightarrow> None
      | Some (tryLock, unlock) \<Rightarrow>
          (case waitForLock d c tryLock False w of
             None \<Rightarrow> None
           | Some ((e, waited), w1) \<Rightarrow>
               let note = (if waited then [Out ''waiting for the running reconcile to finish (Ctrl-C to abort)''] else [])
               in case e of
                    Some e \<Rightarrow> Some ((Inl e, note), w1)
                  | None \<Rightarrow> Some (run_state (do { r \<leftarrow> changeState d change; _ \<leftarrow> unlock; ret (r, note) }) w1)))"

text \<open>The exit code and the output for the result of a change.\<close>

definition reportChange :: "('a \<Rightarrow> string) \<Rightarrow> (err + 'a) \<times> printed list \<Rightarrow> int \<times> printed list" where
  "reportChange say p = (case fst p of
     Inl e \<Rightarrow> (1, snd p @ [ErrOut (errText e)]) | Inr a \<Rightarrow> (0, snd p @ [Out (say a)]))"

definition cmdPause :: "'w Deps \<Rightarrow> ctx \<Rightarrow> duration \<Rightarrow> string \<Rightarrow> 'w \<Rightarrow> ((int \<times> printed list) \<times> 'w) option" where
  "cmdPause d c pauseFor reason w0 =
     (case run_state (ClockNow d) w0 of (now, w) \<Rightarrow>
        let until = (if pauseFor > 0 then now + pauseFor else zeroTime)
        in map_option (apfst (reportChange (\<lambda>_. ''deployments paused '' @ pauseDescription (ZoneOffset d) until reason)))
             (updateState d c (\<lambda>st. ret ((), Pause st now until reason)) w))"

definition cmdResume :: "'w Deps \<Rightarrow> ctx \<Rightarrow> 'w \<Rightarrow> ((int \<times> printed list) \<times> 'w) option" where
  "cmdResume d c w =
     map_option (apfst (reportChange (\<lambda>wasPaused. if wasPaused then ''deployments resumed'' else ''deployments were not paused'')))
       (updateState d c (\<lambda>st. do { now \<leftarrow> ClockNow d; ret (Paused st now, Resume st) }) w)"

lemma reportChange_code:
  assumes "map_option (apfst (reportChange say)) u = Some ((code, out), v)"
  obtains r msg where "u = Some ((r, msg), v)" "code = (if isl r then 1 else 0)"
  using assms by (cases u) (auto simp: reportChange_def split: sum.splits)

section \<open>The daemons\<close>

text \<open>
  One tick of \<open>cmdPoll\<close> and its loop. The notification of a run is sent right after it: the goroutine
  of \<^verbatim>\<open>asyncNotifier\<close> shares nothing with the next run but the notifier. Waiting for the timer against the
  context is \<open>SleepCtx\<close>, for the rest of the interval.
\<close>

definition asyncSend :: "'w Deps \<Rightarrow> ctx \<Rightarrow> RunResult \<Rightarrow> ('w, unit) state" where
  "asyncSend d c result = (if rs_Notification result = None then ret () else sendNotification d (WithoutCancel c) result)"

definition pollTick :: "'w Deps \<Rightarrow> ctx \<Rightarrow> ('w, unit) state" where
  "pollTick d c = do {
     result \<leftarrow> Reconcile d c \<lparr>op_DryRun = False, op_Force = False, op_Trigger = ''poll''\<rparr>;
     asyncSend d c result
   }"

partial_function (option) pollLoop :: "'w Deps \<Rightarrow> ctx \<Rightarrow> duration \<Rightarrow> 'w \<Rightarrow> 'w option" where
  "pollLoop d c interval w =
     (case run_state (do { _ \<leftarrow> pollTick d c; ended d c }) w of
        (over, w1) \<Rightarrow>
          if over then Some w1
          else (case run_state (SleepCtx d c interval) w1 of
                  (elapsed, w2) \<Rightarrow> if elapsed then pollLoop d c interval w2 else Some w2))"

declare pollLoop.simps [code]

definition cmdPoll :: "'w Deps \<Rightarrow> ctx \<Rightarrow> 'w \<Rightarrow> ((int \<times> printed list) \<times> 'w) option" where
  "cmdPoll d c w =
     (let interval = seconds (cfg_PollIntervalSeconds (Cfg d))
      in if interval \<le> 0 then Some ((2, [ErrOut ''poll_interval_seconds must be > 0 to use the poll command'']), w)
         else map_option (\<lambda>w'. ((0, []), w')) (pollLoop d c interval w))"

text \<open>What the webhook server does for a trigger: the run, its notification, and the window timer that is
  armed when the run found the window closed.\<close>

definition webhookRun :: "'w Deps \<Rightarrow> ctx \<Rightarrow> time option \<Rightarrow> ('w, time option) state" where
  "webhookRun d c timer = do {
     result \<leftarrow> Reconcile d c \<lparr>op_DryRun = False, op_Force = False, op_Trigger = ''webhook''\<rparr>;
     _ \<leftarrow> asyncSend d c result;
     if rs_SkipReason result = SkipOutsideWindow
     then do { now \<leftarrow> TimeNow d; ret (schedule (Cfg d) (ZoneOffset d) now timer) }
     else ret timer
   }"

text \<open>The monitor of the daemons: none unless an interval is configured.\<close>

definition startMonitor :: "'w Deps \<Rightarrow> ctx \<Rightarrow> nat \<Rightarrow> ('w, unit) state" where
  "startMonitor d c ticks =
     (if cfg_MonitorIntervalSeconds (Cfg d) \<le> 0 then ret ()
      else do { _ \<leftarrow> Run_Monitor d (WithCancel c False) ticks NewMonitor; ret () })"

section \<open>Waiting for the lock\<close>

text \<open>The lock of traced dependencies.\<close>

abbreviation tracedTry :: "('w, err + bool) state \<Rightarrow> (event list \<times> 'w, err + bool) state" where
  "tracedTry tryLock \<equiv> logged (\<lambda>r. EvLock (r = Inr True)) tryLock"

lemma Lock_traced: "Lock d = Some (tryLock, unlock) \<Longrightarrow> Lock (traced d) = Some (tracedTry tryLock, logged (\<lambda>_. EvUnlock) unlock)"
  by (simp add: traced_def)

lemma run_logged: "run_state (logged ev m) (es, w) = (a, v) \<longleftrightarrow> (\<exists>w'. run_state m w = (a, w') \<and> v = (es @ [ev a], w'))"
  by (auto simp: logged_def split: prod.splits)

lemma run_quiet: "run_state (quiet m) (es, w) = (a, v) \<longleftrightarrow> (\<exists>w'. run_state m w = (a, w') \<and> v = (es, w'))"
  by (auto simp: quiet_def split: prod.splits)

definition waits :: "event list \<Rightarrow> (err option \<times> bool) \<times> event list \<times> 'w \<Rightarrow> bool" where
  "waits es r \<longleftrightarrow> (\<exists>k. fst (snd r) = es @ replicate k (EvLock False) @ (if fst (fst r) = None then [EvLock True] else []))"

lemma waits_failed: "waits es ((Some e, b), (es @ [EvLock False], w))"
  unfolding waits_def by (rule exI [of _ "Suc 0"]) simp

lemma waits_held: "waits es ((None, b), (es @ [EvLock True], w))"
  unfolding waits_def by (rule exI [of _ 0]) simp

lemma waits_Cons: "waits (es @ [EvLock False]) r \<Longrightarrow> waits es r"
  unfolding waits_def by (metis append.assoc append_Cons append_Nil replicate_Suc)

lemma waitForLock_induct [consumes 1, case_names error held over again]:
  assumes "waitForLock d c tryLock waiting w = Some r"
    and error: "\<And>waiting w e w1. run_state tryLock w = (Inl e, w1) \<Longrightarrow> P w ((Some (wrapf ''acquiring state lock: '' e), waiting), w1)"
    and held: "\<And>waiting w w1. run_state tryLock w = (Inr True, w1) \<Longrightarrow> P w ((None, waiting), w1)"
    and over: "\<And>w w1 w2 e w3. run_state tryLock w = (Inr False, w1) \<Longrightarrow> run_state (SleepCtx d c lockRetryInterval) w1 = (False, w2) \<Longrightarrow>
      run_state (CtxErr d c) w2 = (e, w3) \<Longrightarrow> P w ((Some (gaveUp e), True), w3)"
    and again: "\<And>w w1 w2 r. run_state tryLock w = (Inr False, w1) \<Longrightarrow> run_state (SleepCtx d c lockRetryInterval) w1 = (True, w2) \<Longrightarrow>
      P w2 r \<Longrightarrow> P w r"
  shows "P w r"
proof -
  have "d' = d \<and> c' = c \<and> t' = tryLock \<longrightarrow> P w r" if "waitForLock d' c' t' waiting w = Some r" for d' c' t' waiting w r
    using that
  proof (rule waitForLock.raw_induct [rotated], intro impI, elim conjE)
    fix f d' c' t' waiting w r
    assume IH: "\<And>d' c' t' waiting w r. f d' c' t' waiting w = Some r \<Longrightarrow> d' = d \<and> c' = c \<and> t' = tryLock \<longrightarrow> P w r"
      and body: "(case run_state t' w of
        (Inl e, w1) \<Rightarrow> Some ((Some (wrapf ''acquiring state lock: '' e), waiting), w1)
      | (Inr held, w1) \<Rightarrow> if held then Some ((None, waiting), w1)
          else case run_state (SleepCtx d' c' lockRetryInterval) w1 of (elapsed, w2) \<Rightarrow>
            if elapsed then f d' c' t' True w2
            else case run_state (CtxErr d' c') w2 of (e, w3) \<Rightarrow> Some ((Some (gaveUp e), True), w3)) = Some r"
      and [simp]: "d' = d" "c' = c" "t' = tryLock"
    have "P w2 r" if "f d c tryLock True w2 = Some r" for w2 using IH [OF that] by simp
    with body show "P w r"
      by (auto intro: error held over again split: prod.splits sum.splits if_splits)
  qed
  with assms(1) show ?thesis by blast
qed

lemma waitForLock_log:
  assumes "waitForLock (traced d) c (tracedTry tryLock) waiting v = Some r"
  shows "waits (fst v) r"
  using assms
proof (induction rule: waitForLock_induct)
  case (error waiting v e w1)
  then show ?case by (cases v) (auto simp: waits_failed waits_held run_logged)
next
  case (held waiting v w1)
  then show ?case by (cases v) (auto simp: waits_failed waits_held run_logged)
next
  case (over v w1 w2 e w3)
  then show ?case by (cases v) (auto simp: waits_failed waits_held traced_def run_logged run_quiet)
next
  case (again v w1 w2 r)
  then have "fst w2 = fst v @ [EvLock False]" by (cases v) (auto simp: traced_def run_logged run_quiet)
  with again show ?case using waits_Cons by metis
qed

text \<open>Waiting for the state lock ends: if every attempt that finds the lock taken and every second of
  waiting brings the moment closer at which the lock is free or the wait is given up, the wait returns,
  whatever it is that the attempts do to the world.\<close>

theorem lock_wait_returns:
  fixes remaining :: "'w \<Rightarrow> nat"
  assumes "\<And>w w1 w2. run_state tryLock w = (Inr False, w1) \<Longrightarrow> run_state (SleepCtx d c lockRetryInterval) w1 = (True, w2) \<Longrightarrow>
      remaining w2 < remaining w"
  shows "\<exists>r. waitForLock d c tryLock waiting w = Some r"
proof (induction "remaining w" arbitrary: waiting w rule: less_induct)
  case less
  obtain q w1 where q: "run_state tryLock w = (q, w1)" by fastforce
  obtain el w2 where s: "run_state (SleepCtx d c lockRetryInterval) w1 = (el, w2)" by fastforce
  have "\<exists>r. waitForLock d c tryLock True w2 = Some r" if "q = Inr False" and el
    using less.hyps [OF assms] q s that by simp
  then show ?case
    by (subst waitForLock.simps) (auto simp: q s split: sum.splits prod.splits)
qed

text \<open>A lock that is free after as many seconds as the name of the checkout is long.\<close>

definition busyTry :: "(repo, err + bool) state" where
  "busyTry = State (\<lambda>w. (Inr (r_Head w = []), w))"

definition busyDeps :: "repo Deps" where
  "busyDeps = (repoDeps ''docker-compose.yml'' (upFailsAt ''bbbb''))
     \<lparr>SleepCtx := (\<lambda>c t. State (\<lambda>w. (True, w\<lparr>r_Head := tl (r_Head w)\<rparr>))), Lock := Some (busyTry, ret None)\<rparr>"

theorem lock_wait_returns_witness: "\<exists>r. waitForLock busyDeps CallerCtx busyTry False (repoAt demoState) = Some r"
proof (rule lock_wait_returns [where remaining = "\<lambda>w. length (r_Head w)"])
  fix w w1 w2
  assume "run_state busyTry w = (Inr False, w1)" "run_state (SleepCtx busyDeps CallerCtx lockRetryInterval) w1 = (True, w2)"
  then show "length (r_Head w2) < length (r_Head w)" by (auto simp: busyTry_def busyDeps_def)
qed

section \<open>Changes under the lock\<close>

text \<open>The log of a command that changes the state: attempts to take the lock, and if one of them succeeds at
  most one save before the lock is released. \<open>ok\<close> says what a successful save may store, given the state that was loaded.\<close>

definition lockedChange :: "'w Deps \<Rightarrow> (State \<Rightarrow> State \<Rightarrow> bool) \<Rightarrow> bool \<Rightarrow> event list \<Rightarrow> bool" where
  "lockedChange d ok success es \<longleftrightarrow>
     (\<exists>k. es = replicate k (EvLock False) \<and> \<not> success)
     \<or> (\<exists>k mid. es = replicate k (EvLock False) @ [EvLock True] @ mid @ [EvUnlock]
          \<and> (if success then \<exists>st st' w1 w2. run_state (StoreLoad d) w1 = (Inr st, w2) \<and> ok st st' \<and> mid = [EvSave st' True]
             else mid = [] \<or> (\<exists>st. mid = [EvSave st False])))"

lemma wp_changeState:
  assumes "\<And>st es w. wp (change st) (\<lambda>p v. fst v = es \<and> ok st (snd p)) (es, w)"
  shows "wp (changeState (traced d) change) (\<lambda>r v. \<exists>mid. fst v = es @ mid \<and>
     (if isl r then mid = [] \<or> (\<exists>st. mid = [EvSave st False])
      else \<exists>st st' w1 w2. run_state (StoreLoad d) w1 = (Inr st, w2) \<and> ok st st' \<and> mid = [EvSave st' True])) (es, w)"
proof -
  have save: "wp (StoreSave (traced d) st') Q v" if "\<And>r w'. Q r (fst v @ [EvSave st' (r = None)], w')" for st' Q v
    using that by (cases v) (auto intro!: wp_traced_save)
  show ?thesis
    unfolding changeState_def
    by (intro wp_bindI wp_traced_load wp_sumI wp_returnI wp_mono [OF assms] save)
      (auto split: option.splits)
qed

lemma updateState_log:
  assumes "updateState (traced d) c change ([], w) = Some ((r, msg), (es, w'))" and "Lock d = Some (tryLock, unlock)"
    and "\<And>st es w. wp (change st) (\<lambda>p v. fst v = es \<and> ok st (snd p)) (es, w)"
  shows "lockedChange d ok (\<not> isl r) es"
proof -
  from assms(1) obtain e waited es1 w1 where wait: "waitForLock (traced d) c (tracedTry tryLock) False ([], w) = Some ((e, waited), (es1, w1))"
    by (auto simp: updateState_def Lock_traced [OF assms(2)] split: option.splits prod.splits)
  from waitForLock_log [OF wait] obtain k where
    k: "es1 = replicate k (EvLock False) @ (if e = None then [EvLock True] else [])" by (auto simp: waits_def)
  show ?thesis
  proof (cases e)
    case (Some x)
    with assms(1) k wait show ?thesis
      by (auto simp: updateState_def Lock_traced [OF assms(2)] lockedChange_def Let_def)
  next
    case None
    let ?body = "do { r \<leftarrow> changeState (traced d) change; _ \<leftarrow> logged (\<lambda>_. EvUnlock) unlock; ret (r, msg) }"
    from assms(1) None wait have run: "run_state ?body (es1, w1) = ((r, msg), (es, w'))"
      by (auto simp: updateState_def Lock_traced [OF assms(2)] Let_def split: prod.splits)
    have unlock: "wp (logged (\<lambda>_. EvUnlock) unlock) (\<lambda>_ v'. fst v' = fst v @ [EvUnlock]) v" for v
      by (cases v) (auto intro!: wp_logged)
    have "wp ?body (\<lambda>p v. lockedChange d ok (\<not> isl (fst p)) (fst v)) (es1, w1)"
      by (intro wp_bindI wp_mono [OF wp_changeState [OF assms(3)]] wp_mono [OF unlock] wp_returnI)
        (use k None in \<open>fastforce simp: lockedChange_def split: if_splits\<close>)
    from wpD [OF this run] show ?thesis by simp
  qed
qed

lemma cmdPause_log:
  assumes "cmdPause (traced d) c pauseFor reason ([], w) = Some ((code, out), (es, w'))" and "Lock d = Some (tryLock, unlock)"
  shows "code \<in> {0, 1} \<and> (\<exists>now. lockedChange d (\<lambda>st st'. st' = st\<lparr>PausedAt := now,
      PausedUntil := (if pauseFor > 0 then now + pauseFor else zeroTime), PauseReason := reason\<rparr>) (code = 0) es)"
proof -
  obtain now w1 where now: "run_state (ClockNow (traced d)) ([], w) = (now, ([], w1))"
    by (cases "run_state (Now (Clk d)) w") (auto simp: ClockNow_def traced_def quiet_def)
  define till where "till = (if pauseFor > 0 then now + pauseFor else zeroTime)"
  let ?upd = "updateState (traced d) c (\<lambda>st. ret ((), Pause st now till reason)) ([], w1)"
  from assms(1) obtain say where "map_option (apfst (reportChange say)) ?upd = Some ((code, out), (es, w'))"
    by (simp only: cmdPause_def now prod.case Let_def flip: till_def)
  then obtain r msg where upd: "?upd = Some ((r, msg), (es, w'))" and code: "code = (if isl r then 1 else 0)" by (rule reportChange_code)
  have "lockedChange d (\<lambda>st st'. st' = st\<lparr>PausedAt := now, PausedUntil := till, PauseReason := reason\<rparr>) (\<not> isl r) es"
    by (rule updateState_log [OF upd assms(2)]) (simp add: wp_return Pause_def)
  moreover have "code \<in> {0, 1}" "code = 0 \<longleftrightarrow> \<not> isl r" using code by simp_all
  ultimately show ?thesis unfolding till_def by (intro conjI exI [of _ now]) simp_all
qed

text \<open>Pausing is one save under the lock: the pause command never writes without the lock, writes at most
  once and releases the lock. It reports success exactly when the state it loaded was saved with the
  pause: since the time at which the command was given, until the end that was asked for if any, with
  the given reason, and nothing else changed.\<close>

theorem pause_saved_under_lock:
  assumes "cmdPause (traced d) c pauseFor reason ([], w) = Some ((code, out), (es, w'))" and "Lock d = Some (tryLock, unlock)"
  shows "code \<in> {0, 1} \<and> (\<exists>now. lockedChange d (\<lambda>st st'. st' = st\<lparr>PausedAt := now,
      PausedUntil := (if pauseFor > 0 then now + pauseFor else zeroTime), PauseReason := reason\<rparr>) (code = 0) es)"
  using assms by (rule cmdPause_log)

lemma cmdResume_log:
  assumes "cmdResume (traced d) c ([], w) = Some ((code, out), (es, w'))" and "Lock d = Some (tryLock, unlock)"
  shows "code \<in> {0, 1} \<and> lockedChange d (\<lambda>st st'. (\<forall>t. \<not> Paused st' t)
      \<and> st' = st\<lparr>PausedAt := zeroTime, PausedUntil := zeroTime, PauseReason := []\<rparr>) (code = 0) es"
proof -
  let ?change = "\<lambda>st. do { now \<leftarrow> ClockNow (traced d); ret (Paused st now, Resume st) }"
  obtain r msg where upd: "updateState (traced d) c ?change ([], w) = Some ((r, msg), (es, w'))"
      and code: "code = (if isl r then 1 else 0)"
    using assms(1) unfolding cmdResume_def by (rule reportChange_code)
  have "lockedChange d (\<lambda>st st'. (\<forall>t. \<not> Paused st' t)
      \<and> st' = st\<lparr>PausedAt := zeroTime, PausedUntil := zeroTime, PauseReason := []\<rparr>) (\<not> isl r) es"
    by (rule updateState_log [OF upd assms(2)])
      (auto intro!: wp_bindI wp_traced_now wp_returnI simp: Resume_def Paused_def IsZero_def)
  then show ?thesis using code by (cases "isl r") auto
qed

text \<open>Resuming is one save under the lock: it reports success exactly when the state it loaded was saved
  with the pause taken out, after which deployments are not paused at any time.\<close>

theorem resume_saved_under_lock:
  assumes "cmdResume (traced d) c ([], w) = Some ((code, out), (es, w'))" and "Lock d = Some (tryLock, unlock)"
  shows "code \<in> {0, 1} \<and> lockedChange d (\<lambda>st st'. (\<forall>t. \<not> Paused st' t)
      \<and> st' = st\<lparr>PausedAt := zeroTime, PausedUntil := zeroTime, PauseReason := []\<rparr>) (code = 0) es"
  using assms by (rule cmdResume_log)

lemma busyLock: "Lock busyDeps = Some (busyTry, ret None)"
  by (simp add: busyDeps_def)

text \<open>The lock is taken for four seconds; then the pause is saved.\<close>

theorem pause_saved_under_lock_witness:
  "\<exists>out es w. cmdPause (traced busyDeps) CallerCtx (2 * hour) ''freeze'' ([], repoAt demoState) = Some ((0, out), (es, w))
     \<and> length es = 7 \<and> (\<exists>now. lockedChange busyDeps (\<lambda>st st'. st' = st\<lparr>PausedAt := now, PausedUntil := now + 2 * hour,
          PauseReason := ''freeze''\<rparr>) True es)"
proof -
  let ?run = "cmdPause (traced busyDeps) CallerCtx (2 * hour) ''freeze'' ([], repoAt demoState)"
  have "map_option (\<lambda>((code, _), es, _). (code, length es)) ?run = Some (0, 7)" by code_simp
  then obtain out es w where run: "?run = Some ((0, out), (es, w))" and "length es = 7" by auto
  moreover have "0 < 2 * hour" by (simp add: hour_def minute_def second_def)
  ultimately show ?thesis using pause_saved_under_lock [OF run busyLock] by simp
qed

theorem resume_saved_under_lock_witness:
  "\<exists>out es w. cmdResume (traced busyDeps) CallerCtx ([], repoAt (Pause demoState 1 zeroTime ''freeze'')) = Some ((0, out), (es, w))
     \<and> out = [Out ''waiting for the running reconcile to finish (Ctrl-C to abort)'', Out ''deployments resumed'']
     \<and> lockedChange busyDeps (\<lambda>st st'. (\<forall>t. \<not> Paused st' t)
          \<and> st' = st\<lparr>PausedAt := zeroTime, PausedUntil := zeroTime, PauseReason := []\<rparr>) True es"
proof -
  let ?run = "cmdResume (traced busyDeps) CallerCtx ([], repoAt (Pause demoState 1 zeroTime ''freeze''))"
  have "map_option (\<lambda>((code, out), _, _). (code, out)) ?run
      = Some (0, [Out ''waiting for the running reconcile to finish (Ctrl-C to abort)'', Out ''deployments resumed''])" by code_simp
  then obtain es w where run: "?run = Some ((0, [Out ''waiting for the running reconcile to finish (Ctrl-C to abort)'', Out ''deployments resumed'']), (es, w))"
    by auto
  from resume_saved_under_lock [OF run busyLock] run show ?thesis by simp
qed

end
