(* ===== verification/Daemons.thy ===== *)
theory Daemons
  imports Cli
begin

text \<open>
  The daemons as processes: \<^verbatim>\<open>cmdPoll\<close>, \<^verbatim>\<open>asyncNotifier\<close> and \<^verbatim>\<open>startMonitor\<close> of
  \<^verbatim>\<open>cmd/composelock/commands.go\<close>, and the profiling endpoint of \<^verbatim>\<open>cmd/composelock/pprof.go\<close>. \<open>pollerStep\<close> interleaves
  the goroutines of the poll command: the loop, the notifications on their way, the monitor and the profiling
  server; what a run itself does is the subject of \<open>pollTick\<close> and of the theories on runs.
\<close>

section \<open>The profiling endpoint\<close>

datatype profile = PprofIndex | PprofCmdline | PprofProfile | PprofSymbol | PprofTrace

definition pprofPatterns :: "(string \<times> profile) list" where
  "pprofPatterns =
     [(''/debug/pprof/'', PprofIndex), (''/debug/pprof/cmdline'', PprofCmdline), (''/debug/pprof/profile'', PprofProfile),
      (''/debug/pprof/symbol'', PprofSymbol), (''/debug/pprof/trace'', PprofTrace)]"

text \<open>The mux takes the most specific pattern, here the longest one; \<^const>\<open>None\<close> is 404 or, for the path without its
  final slash, a redirect.\<close>

definition longer :: "string \<times> profile \<Rightarrow> (string \<times> profile) option \<Rightarrow> (string \<times> profile) option" where
  "longer x best = (case best of None \<Rightarrow> Some x | Some y \<Rightarrow> if length (fst y) < length (fst x) then Some x else best)"

definition pprofHandler :: "string \<Rightarrow> profile option" where
  "pprofHandler path = map_option snd (fold longer (filter (\<lambda>(pat, _). matchesPath pat path) pprofPatterns) None)"

record PprofServer =
  pp_Addr :: string
  pp_ReadHeaderTimeout :: duration
  pp_IdleTimeout :: duration

text \<open>\<^const>\<open>None\<close>: nothing is started and there is nothing to stop.\<close>

definition startPprof :: "string \<Rightarrow> PprofServer option" where
  "startPprof addr =
     (if addr = [] then None
      else Some \<lparr>pp_Addr = addr, pp_ReadHeaderTimeout = 5 * second, pp_IdleTimeout = 120 * second\<rparr>)"

lemma pprofHandler_is:
  "pprofHandler path =
     (if path = ''/debug/pprof/cmdline'' then Some PprofCmdline
      else if path = ''/debug/pprof/profile'' then Some PprofProfile
      else if path = ''/debug/pprof/symbol'' then Some PprofSymbol
      else if path = ''/debug/pprof/trace'' then Some PprofTrace
      else if HasPrefix path ''/debug/pprof/'' then Some PprofIndex
      else None)"
  by (simp add: pprofHandler_def pprofPatterns_def matchesPath_def longer_def HasPrefix_def)

text \<open>The profiling server answers nothing outside its own directory, and is not there unless an address is configured.\<close>

lemma pprof_confined: "pprofHandler path \<noteq> None \<longleftrightarrow> HasPrefix path ''/debug/pprof/''"
  by (auto simp: pprofHandler_is HasPrefix_def)

section \<open>The poll command\<close>

text \<open>
  Where the goroutine of \<^verbatim>\<open>cmdPoll\<close> is: in a run, in the \<^verbatim>\<open>select\<close>, or in one of its deferred calls, which come in the
  reverse of their order in the code: \<^verbatim>\<open>notifier.drain\<close>, \<^verbatim>\<open>stopMonitor\<close>, \<^verbatim>\<open>stopPprof\<close>.
\<close>

datatype pollPhase = Reconciling | Selecting | DrainingNotifier | StoppingMonitor | StoppingPprof | Returned

datatype monitorPhase = Ticking | Checking | MonitorDone

record PollState =
  pd_phase :: pollPhase
  pd_signalled :: bool
  pd_timer :: bool
  pd_sending :: nat
  pd_monitor :: monitorPhase
  pd_monitorStopped :: bool
  pd_pprof :: bool

text \<open>How the command starts: at once with exit code 2 unless the interval is positive, otherwise with its first run.\<close>

definition pollStart :: "Config \<Rightarrow> int + PollState" where
  "pollStart cfg =
     (let interval = seconds (cfg_PollIntervalSeconds cfg)
      in if interval \<le> 0 then Inl 2
         else Inr \<lparr>pd_phase = Reconciling, pd_signalled = False, pd_timer = False, pd_sending = 0,
           pd_monitor = (if cfg_MonitorIntervalSeconds cfg \<le> 0 then MonitorDone else Ticking), pd_monitorStopped = False,
           pd_pprof = (startPprof (cfg_PprofListen cfg) \<noteq> None)\<rparr>)"

datatype pollEvent =
    RunEnds bool | TimerFires | NextRun | Signal | Interrupted | Sent | Drained bool
  | MonitorTick | MonitorChecked | MonitorEnds | MonitorStopped | PprofEnds | PprofStopped

text \<open>
  \<open>RunEnds b\<close> is the end of a run, with a notification to send or not, and the check of the context after it;
  \<open>TimerFires\<close> the timer of the interval, whose channel keeps the value until \<open>NextRun\<close> takes it and resets the
  timer (the first of the deferred calls stops it); \<open>Interrupted\<close> the other branch of the \<^verbatim>\<open>select\<close>, which may come second when both are ready. \<open>Sent\<close> is
  the end of a goroutine of the notifier, \<open>Drained late\<close> the return of \<^verbatim>\<open>drain\<close>, \<open>late\<close> when its timer came first. The monitor
  ends on the signal or when it is stopped, between checks; \<open>MonitorStopped\<close> and \<open>PprofStopped\<close> are the returns
  of the two stop functions, which wait for their goroutines. The profiling server ends when it is shut down or on an
  error of its own.
\<close>

inductive pollerStep :: "PollState \<Rightarrow> pollEvent \<Rightarrow> PollState \<Rightarrow> bool" where
  run_ends: "pd_phase s = Reconciling \<Longrightarrow>
    pollerStep s (RunEnds b) (s\<lparr>pd_sending := pd_sending s + (if b then 1 else 0),
      pd_phase := (if pd_signalled s then DrainingNotifier else Selecting)\<rparr>)"
| timer_fires: "pd_phase s \<in> {Reconciling, Selecting} \<Longrightarrow> \<not> pd_timer s \<Longrightarrow> pollerStep s TimerFires (s\<lparr>pd_timer := True\<rparr>)"
| next_run: "pd_phase s = Selecting \<Longrightarrow> pd_timer s \<Longrightarrow> pollerStep s NextRun (s\<lparr>pd_phase := Reconciling, pd_timer := False\<rparr>)"
| signal: "pollerStep s Signal (s\<lparr>pd_signalled := True\<rparr>)"
| interrupted: "pd_phase s = Selecting \<Longrightarrow> pd_signalled s \<Longrightarrow> pollerStep s Interrupted (s\<lparr>pd_phase := DrainingNotifier\<rparr>)"
| sent: "0 < pd_sending s \<Longrightarrow> pollerStep s Sent (s\<lparr>pd_sending := pd_sending s - 1\<rparr>)"
| drain: "pd_phase s = DrainingNotifier \<Longrightarrow> drained (pd_sending s) late \<Longrightarrow>
    pollerStep s (Drained late) (s\<lparr>pd_phase := StoppingMonitor, pd_monitorStopped := True\<rparr>)"
| monitor_tick: "pd_monitor s = Ticking \<Longrightarrow> pollerStep s MonitorTick (s\<lparr>pd_monitor := Checking\<rparr>)"
| monitor_checked: "pd_monitor s = Checking \<Longrightarrow> pollerStep s MonitorChecked (s\<lparr>pd_monitor := Ticking\<rparr>)"
| monitor_ends: "pd_monitor s = Ticking \<Longrightarrow> pd_signalled s \<or> pd_monitorStopped s \<Longrightarrow>
    pollerStep s MonitorEnds (s\<lparr>pd_monitor := MonitorDone\<rparr>)"
| monitor_stopped: "pd_phase s = StoppingMonitor \<Longrightarrow> pd_monitor s = MonitorDone \<Longrightarrow>
    pollerStep s MonitorStopped (s\<lparr>pd_phase := StoppingPprof\<rparr>)"
| pprof_ends: "pd_pprof s \<Longrightarrow> pollerStep s PprofEnds (s\<lparr>pd_pprof := False\<rparr>)"
| pprof_stopped: "pd_phase s = StoppingPprof \<Longrightarrow> \<not> pd_pprof s \<Longrightarrow> pollerStep s PprofStopped (s\<lparr>pd_phase := Returned\<rparr>)"

inductive_cases pollerStepE: "pollerStep s e s'"

inductive pollRun :: "PollState \<Rightarrow> pollEvent list \<Rightarrow> PollState \<Rightarrow> bool" where
  stay: "pollRun s [] s"
| go: "pollerStep s e s' \<Longrightarrow> pollRun s' es s'' \<Longrightarrow> pollRun s (e # es) s''"

inductive_cases pollRun_ConsE: "pollRun s (e # es) s'"
inductive_simps pollRun_Nil [simp]: "pollRun s [] s'"

text \<open>The steps as a function: \<^const>\<open>None\<close> is an event that cannot happen.\<close>

fun pollNext :: "PollState \<Rightarrow> pollEvent \<Rightarrow> PollState option" where
  "pollNext s (RunEnds b) = (if pd_phase s = Reconciling then Some (s\<lparr>pd_sending := pd_sending s + (if b then 1 else 0),
      pd_phase := (if pd_signalled s then DrainingNotifier else Selecting)\<rparr>) else None)"
| "pollNext s TimerFires = (if pd_phase s \<in> {Reconciling, Selecting} \<and> \<not> pd_timer s then Some (s\<lparr>pd_timer := True\<rparr>) else None)"
| "pollNext s NextRun = (if pd_phase s = Selecting \<and> pd_timer s then Some (s\<lparr>pd_phase := Reconciling, pd_timer := False\<rparr>) else None)"
| "pollNext s Signal = Some (s\<lparr>pd_signalled := True\<rparr>)"
| "pollNext s Interrupted = (if pd_phase s = Selecting \<and> pd_signalled s then Some (s\<lparr>pd_phase := DrainingNotifier\<rparr>) else None)"
| "pollNext s Sent = (if 0 < pd_sending s then Some (s\<lparr>pd_sending := pd_sending s - 1\<rparr>) else None)"
| "pollNext s (Drained late) = (if pd_phase s = DrainingNotifier \<and> drained (pd_sending s) late
     then Some (s\<lparr>pd_phase := StoppingMonitor, pd_monitorStopped := True\<rparr>) else None)"
| "pollNext s MonitorTick = (if pd_monitor s = Ticking then Some (s\<lparr>pd_monitor := Checking\<rparr>) else None)"
| "pollNext s MonitorChecked = (if pd_monitor s = Checking then Some (s\<lparr>pd_monitor := Ticking\<rparr>) else None)"
| "pollNext s MonitorEnds = (if pd_monitor s = Ticking \<and> (pd_signalled s \<or> pd_monitorStopped s) then Some (s\<lparr>pd_monitor := MonitorDone\<rparr>) else None)"
| "pollNext s MonitorStopped = (if pd_phase s = StoppingMonitor \<and> pd_monitor s = MonitorDone then Some (s\<lparr>pd_phase := StoppingPprof\<rparr>) else None)"
| "pollNext s PprofEnds = (if pd_pprof s then Some (s\<lparr>pd_pprof := False\<rparr>) else None)"
| "pollNext s PprofStopped = (if pd_phase s = StoppingPprof \<and> \<not> pd_pprof s then Some (s\<lparr>pd_phase := Returned\<rparr>) else None)"

lemma pollNext_iff: "pollNext s e = Some s' \<longleftrightarrow> pollerStep s e s'"
proof
  assume taken: "pollNext s e = Some s'"
  show "pollerStep s e s'"
  proof (cases e)
    case (RunEnds b)
    with taken pollerStep.run_ends [of s b] show ?thesis by (auto split: if_splits)
  next
    case Sent
    with taken pollerStep.sent [of s] show ?thesis by (auto split: if_splits)
  qed (use taken in \<open>auto split: if_splits intro: pollerStep.intros\<close>)
qed (auto elim: pollerStepE)

fun pollExec :: "PollState \<Rightarrow> pollEvent list \<Rightarrow> PollState option" where
  "pollExec s [] = Some s"
| "pollExec s (e # es) = Option.bind (pollNext s e) (\<lambda>s'. pollExec s' es)"

lemma pollExec_run: "pollExec s es = Some s' \<Longrightarrow> pollRun s es s'"
  by (induction es arbitrary: s) (auto simp: bind_eq_Some_conv pollNext_iff intro: pollRun.intros)

lemma pollRun_append: "pollRun s xs m \<Longrightarrow> pollRun m ys s' \<Longrightarrow> pollRun s (xs @ ys) s'"
  by (induction rule: pollRun.induct) (auto intro: pollRun.intros)

lemma pollRun_appendE: "pollRun s (xs @ ys) s' \<Longrightarrow> \<exists>m. pollRun s xs m \<and> pollRun m ys s'"
  by (induction xs arbitrary: s) (auto intro: pollRun.intros elim!: pollRun_ConsE, blast intro: pollRun.intros)

text \<open>The deferred calls are made in order, after the last run: what each phase says about the goroutines.\<close>

definition winding :: "pollPhase \<Rightarrow> bool" where
  "winding p \<longleftrightarrow> p \<notin> {Reconciling, Selecting}"

definition wfPoll :: "PollState \<Rightarrow> bool" where
  "wfPoll s \<longleftrightarrow> (winding (pd_phase s) \<longrightarrow> pd_signalled s)
     \<and> (pd_monitorStopped s \<longleftrightarrow> pd_phase s \<in> {StoppingMonitor, StoppingPprof, Returned})
     \<and> (pd_phase s \<in> {StoppingPprof, Returned} \<longrightarrow> pd_monitor s = MonitorDone)
     \<and> (pd_phase s = Returned \<longrightarrow> \<not> pd_pprof s)"

lemma wfPoll_step: "pollerStep s e s' \<Longrightarrow> wfPoll s \<Longrightarrow> wfPoll s'"
  by (erule pollerStepE) (auto simp: wfPoll_def winding_def)

lemma wfPoll_run: "pollRun s es s' \<Longrightarrow> wfPoll s \<Longrightarrow> wfPoll s'"
  by (induction rule: pollRun.induct) (auto intro: wfPoll_step)

lemma pollStart_InrD:
  "pollStart cfg = Inr s \<Longrightarrow> 0 < seconds (cfg_PollIntervalSeconds cfg) \<and> pd_phase s = Reconciling \<and> \<not> pd_signalled s
     \<and> pd_sending s = 0 \<and> wfPoll s"
  by (auto simp: pollStart_def wfPoll_def winding_def Let_def split: if_splits)

text \<open>Every run that is started comes to its end, one at a time.\<close>

abbreviation running :: "PollState \<Rightarrow> nat" where
  "running s \<equiv> (if pd_phase s = Reconciling then 1 else 0)"

lemma runs_balance:
  "pollRun s es s' \<Longrightarrow> running s + count_list es NextRun = running s' + count_list es (RunEnds True) + count_list es (RunEnds False)"
proof (induction rule: pollRun.induct)
  case (go s e s' es s'')
  from go.hyps(1) go.IH show ?case
  proof (cases rule: pollerStep.cases)
    case (run_ends b)
    with go.IH show ?thesis by (cases b; cases "pd_signalled s") simp_all
  qed (auto split: if_splits)
qed simp

text \<open>No notification is lost and none is sent twice: those sent and those on their way are those of the runs.\<close>

lemma notifications_balance:
  "pollRun s es s' \<Longrightarrow> pd_sending s + count_list es (RunEnds True) = pd_sending s' + count_list es Sent"
proof (induction rule: pollRun.induct)
  case (go s e s' es s'')
  from go.hyps(1) go.IH show ?case by (elim pollerStepE) auto
qed simp

text \<open>If the notifier has been drained in time, the notifications of all runs have been sent by then.\<close>

lemma drained_in_time:
  assumes "pollRun s es s'" and "pd_phase s' \<in> {StoppingMonitor, StoppingPprof, Returned}"
    and "pd_phase s \<notin> {StoppingMonitor, StoppingPprof, Returned}"
  shows "\<exists>xs late ys. es = xs @ Drained late # ys"
  using assms
proof (induction rule: pollRun.induct)
  case (go s e s' es s'')
  show ?case
  proof (cases "pd_phase s' \<in> {StoppingMonitor, StoppingPprof, Returned}")
    case True
    with go.hyps(1) go.prems(2) obtain late where "e = Drained late" by (elim pollerStepE) (auto split: if_splits)
    then show ?thesis by (metis append_Nil)
  next
    case False
    with go.IH go.prems(1) obtain xs late ys where "es = xs @ Drained late # ys" by blast
    then show ?thesis by (metis append_Cons)
  qed
qed auto

lemma winding_stays: "pollerStep s e s' \<Longrightarrow> winding (pd_phase s) \<Longrightarrow> winding (pd_phase s') \<and> (\<forall>b. e \<noteq> RunEnds b) \<and> e \<noteq> NextRun"
  by (erule pollerStepE) (auto simp: winding_def)

lemma winding_runs: "pollRun s es s' \<Longrightarrow> winding (pd_phase s) \<Longrightarrow> RunEnds b \<notin> set es \<and> NextRun \<notin> set es"
  by (induction rule: pollRun.induct) (use winding_stays in \<open>fastforce+\<close>)

text \<open>After the signal at most one more run is started.\<close>

lemma runs_after_signal:
  assumes "pollRun s es s'" and "pd_signalled s"
  shows "count_list es NextRun \<le> (if pd_phase s = Selecting then 1 else 0)"
  using assms
proof (induction rule: pollRun.induct)
  case (go s e s' es s'')
  from go.hyps(1) go.IH go.prems show ?case by (elim pollerStepE) (auto split: if_splits)
qed simp

lemma signalled_by: "pollRun s es s' \<Longrightarrow> pd_signalled s' \<Longrightarrow> pd_signalled s \<or> Signal \<in> set es"
proof (induction rule: pollRun.induct)
  case (go s e s' es s'')
  then show ?case by (elim pollerStepE) auto
qed simp

lemma sent_when_drained:
  assumes run: "pollRun s (xs @ Drained False # ys) s'" and "pd_sending s = 0"
  shows "count_list (xs @ Drained False # ys) Sent = count_list (xs @ Drained False # ys) (RunEnds True)"
proof -
  obtain m where before: "pollRun s xs m" and rest: "pollRun m (Drained False # ys) s'" using pollRun_appendE [OF run] by blast
  then obtain m' where d: "pollerStep m (Drained False) m'" and after: "pollRun m' ys s'" by (auto elim: pollRun_ConsE)
  have "pd_sending m = 0" "pd_sending m' = 0" "winding (pd_phase m')"
    using d by (auto elim!: pollerStepE simp: drained_def winding_def)
  moreover have "count_list ys (RunEnds True) = 0"
    using winding_runs [OF after] calculation(3) by (simp add: count_list_0_iff)
  ultimately show ?thesis using notifications_balance [OF before] notifications_balance [OF after] assms(2) by simp
qed

text \<open>From every state the poll command can be brought to its end, however its goroutines have interleaved so far: after
  the signal no goroutine waits for another one that cannot go on.\<close>

lemma finish_pprof:
  assumes "pd_phase s = StoppingPprof"
  shows "\<exists>es s'. pollRun s es s' \<and> pd_phase s' = Returned"
proof -
  have off: "\<exists>es s'. pollRun v es s' \<and> pd_phase s' = Returned" if "pd_phase v = StoppingPprof" "\<not> pd_pprof v" for v
    using pollRun.go [OF pollerStep.pprof_stopped [OF that] pollRun.stay] by fastforce
  show ?thesis
  proof (cases "pd_pprof s")
    case True
    then show ?thesis using off [of "s\<lparr>pd_pprof := False\<rparr>"] pollRun.go [OF pollerStep.pprof_ends [OF True]] assms by auto
  qed (use off assms in auto)
qed

lemma finish_monitor:
  assumes "pd_phase s = StoppingMonitor" and "pd_signalled s"
  shows "\<exists>es s'. pollRun s es s' \<and> pd_phase s' = Returned"
proof -
  have quiet: "\<exists>es s'. pollRun v es s' \<and> pd_phase s' = Returned" if "pd_phase v = StoppingMonitor" "pd_monitor v = MonitorDone" for v
    using finish_pprof [of "v\<lparr>pd_phase := StoppingPprof\<rparr>"] pollRun.go [OF pollerStep.monitor_stopped [OF that]] by auto
  have ticking: "\<exists>es s'. pollRun v es s' \<and> pd_phase s' = Returned"
    if "pd_phase v = StoppingMonitor" "pd_monitor v = Ticking" "pd_signalled v" for v
    using quiet [of "v\<lparr>pd_monitor := MonitorDone\<rparr>"] pollRun.go [OF pollerStep.monitor_ends [OF that(2)]] that by auto
  show ?thesis
  proof (cases "pd_monitor s")
    case Checking
    then show ?thesis using ticking [of "s\<lparr>pd_monitor := Ticking\<rparr>"] pollRun.go [OF pollerStep.monitor_checked [OF Checking]] assms by auto
  qed (use quiet ticking assms in auto)
qed

theorem poll_can_return: "\<exists>es s'. pollRun s es s' \<and> pd_phase s' = Returned"
proof -
  have drained: "\<exists>es s'. pollRun v es s' \<and> pd_phase s' = Returned" if "pd_phase v = DrainingNotifier" "pd_signalled v" for v
  proof -
    have "pollerStep v (Drained True) (v\<lparr>pd_phase := StoppingMonitor, pd_monitorStopped := True\<rparr>)"
      by (rule pollerStep.drain [OF that(1)]) (simp add: drained_def)
    with finish_monitor [of "v\<lparr>pd_phase := StoppingMonitor, pd_monitorStopped := True\<rparr>"] that(2) show ?thesis by (auto intro: pollRun.go)
  qed
  let ?s = "s\<lparr>pd_signalled := True\<rparr>"
  have "\<exists>es s'. pollRun ?s es s' \<and> pd_phase s' = Returned"
  proof (cases "pd_phase s")
    case Reconciling
    then have "pollerStep ?s (RunEnds False) (?s\<lparr>pd_sending := pd_sending s, pd_phase := DrainingNotifier\<rparr>)"
      using pollerStep.run_ends [of ?s False] by simp
    with drained [of "?s\<lparr>pd_sending := pd_sending s, pd_phase := DrainingNotifier\<rparr>"] show ?thesis by (auto intro: pollRun.go)
  next
    case Selecting
    then have "pollerStep ?s Interrupted (?s\<lparr>pd_phase := DrainingNotifier\<rparr>)" by (intro pollerStep.interrupted) simp_all
    with drained [of "?s\<lparr>pd_phase := DrainingNotifier\<rparr>"] show ?thesis by (auto intro: pollRun.go)
  next
    case Returned
    then show ?thesis by (intro exI [of _ "[]"] exI [of _ ?s]) simp
  qed (use drained [of ?s] finish_monitor [of ?s] finish_pprof [of ?s] in simp_all)
  then show ?thesis using pollRun.go [OF pollerStep.signal] by blast
qed

text \<open>After the return nothing is left that could act: the signal apart, only notifications can come to their end that
  \<open>drain\<close> has not waited for.\<close>

lemma returned_step:
  "pollerStep s e s' \<Longrightarrow> wfPoll s \<Longrightarrow> pd_phase s = Returned \<Longrightarrow>
     pd_phase s' = Returned \<and> pd_sending s' \<le> pd_sending s \<and> (e = Signal \<or> e = Sent \<and> 0 < pd_sending s)"
  by (erule pollerStepE) (auto simp: wfPoll_def)

lemma returned_run:
  "pollRun s es s' \<Longrightarrow> wfPoll s \<Longrightarrow> pd_phase s = Returned \<Longrightarrow> set es \<subseteq> (if pd_sending s = 0 then {Signal} else {Signal, Sent})"
proof (induction rule: pollRun.induct)
  case (go s e s' es s'')
  from returned_step [OF go.hyps(1) go.prems] go.IH wfPoll_step [OF go.hyps(1) go.prems(1)] show ?case
    by (auto split: if_splits)
qed simp

text \<open>C17: the poll command, once it has started, which it does only with a positive interval, leaves nothing behind. When it
  returns it has been signalled, and after the signal at most one more run was started; every run that was started has ended;
  the monitor and the profiling server have come to an end, and nothing happens any more but
  notifications that were not waited for; unless the time for draining ran out, there are none, and the
  notification of every run has been sent exactly once.\<close>

theorem poll_exit_clean:
  assumes "pollStart cfg = Inr s0" and "pollRun s0 es s" and "pd_phase s = Returned"
  shows "0 < seconds (cfg_PollIntervalSeconds cfg) \<and> pd_monitor s = MonitorDone \<and> \<not> pd_pprof s
    \<and> (\<exists>xs ys. es = xs @ Signal # ys \<and> count_list ys NextRun \<le> 1)
    \<and> count_list es (RunEnds True) + count_list es (RunEnds False) = Suc (count_list es NextRun)
    \<and> (\<forall>es' s'. pollRun s es' s' \<longrightarrow> set es' \<subseteq> {Signal, Sent})
    \<and> (Drained True \<notin> set es \<longrightarrow> count_list es Sent = count_list es (RunEnds True)
         \<and> (\<forall>es' s'. pollRun s es' s' \<longrightarrow> set es' \<subseteq> {Signal}))"
proof -
  note start = pollStart_InrD [OF assms(1)]
  then have wf: "wfPoll s" by (simp add: wfPoll_run [OF assms(2)])
  then have ended: "pd_monitor s = MonitorDone" "\<not> pd_pprof s" "pd_signalled s" using assms(3) by (simp_all add: wfPoll_def winding_def)
  with signalled_by [OF assms(2)] start obtain xs ys where es: "es = xs @ Signal # ys" by (auto dest: split_list)
  obtain m m' where "pollerStep m Signal m'" "pollRun m' ys s"
    using pollRun_appendE [OF assms(2) [unfolded es]] by (auto elim: pollRun_ConsE)
  then have one: "count_list ys NextRun \<le> 1" using runs_after_signal [of m' ys s] by (auto elim!: pollerStepE split: if_splits)
  have runs: "count_list es (RunEnds True) + count_list es (RunEnds False) = Suc (count_list es NextRun)"
    using runs_balance [OF assms(2)] start assms(3) by simp
  have sent: "count_list es Sent = count_list es (RunEnds True)" if "Drained True \<notin> set es"
  proof -
    obtain us late vs where split: "es = us @ Drained late # vs"
      using drained_in_time [OF assms(2)] assms(3) start by auto
    moreover have "\<not> late" using that split by (cases late) auto
    ultimately have "es = us @ Drained False # vs" by simp
    with sent_when_drained [of s0 us vs s] assms(2) start show ?thesis by simp
  qed
  then have "pd_sending s = 0" if "Drained True \<notin> set es" using notifications_balance [OF assms(2)] start that by simp
  with returned_run [OF _ wf assms(3)] have "\<forall>es' s'. pollRun s es' s' \<longrightarrow> set es' \<subseteq> {Signal, Sent}"
    "Drained True \<notin> set es \<longrightarrow> (\<forall>es' s'. pollRun s es' s' \<longrightarrow> set es' \<subseteq> {Signal})" by (fastforce split: if_splits)+
  with start ended es one runs sent show ?thesis by blast
qed

text \<open>A daemon with monitor and profiling: one run with a notification, the signal during the second one.\<close>

definition pollDemo :: Config where
  "pollDemo = Default\<lparr>cfg_PollIntervalSeconds := 300, cfg_MonitorIntervalSeconds := 60, cfg_PprofListen := ''127.0.0.1:6060''\<rparr>"

definition pollDemoEvents :: "pollEvent list" where
  "pollDemoEvents = [RunEnds True, MonitorTick, TimerFires, NextRun, Signal, Sent, MonitorChecked, RunEnds False, MonitorEnds, Drained False,
     MonitorStopped, PprofEnds, PprofStopped]"

lemma pollDemo_runs: "\<exists>s0 s. pollStart pollDemo = Inr s0 \<and> pollRun s0 pollDemoEvents s \<and> pd_phase s = Returned"
proof -
  have "case pollStart pollDemo of Inl _ \<Rightarrow> False | Inr s0 \<Rightarrow> (case pollExec s0 pollDemoEvents of None \<Rightarrow> False | Some s \<Rightarrow> pd_phase s = Returned)"
    by code_simp
  then show ?thesis using pollExec_run by (fastforce split: sum.splits option.splits)
qed

theorem poll_exit_clean_witness:
  "\<exists>s0 s. pollStart pollDemo = Inr s0 \<and> pollRun s0 pollDemoEvents s \<and> pd_monitor s = MonitorDone \<and> \<not> pd_pprof s
     \<and> count_list pollDemoEvents Sent = count_list pollDemoEvents (RunEnds True)
     \<and> (\<forall>es' s'. pollRun s es' s' \<longrightarrow> set es' \<subseteq> {Signal})"
proof -
  obtain s0 s where run: "pollStart pollDemo = Inr s0" "pollRun s0 pollDemoEvents s" "pd_phase s = Returned" using pollDemo_runs by blast
  have "Drained True \<notin> set pollDemoEvents" by (simp add: pollDemoEvents_def)
  with poll_exit_clean [OF run] run(1,2) show ?thesis by blast
qed

end
