(* ===== verification/Findings.thy ===== *)
theory Findings
  imports RunOutcomes Daemons
begin

text \<open>
  Behaviours that modelling brought to light, each shown on a concrete run of the model. They are not
  what the documentation says and are recorded here so that a change of the code shows up.
\<close>

text \<open>A dry run moves the checkout and writes the state when the new commit changes no compose file.\<close>

theorem dry_run_can_move_checkout:
  "let (r, es, w) = repoRun ''README.md'' ''bbbb'' (demoOpts\<lparr>op_DryRun := True\<rparr>) demoState in
     EvGit [''checkout'', ''--detach'', ''--force'', ''bbbb''] \<in> set es \<and> r_Head w = ''bbbb'' \<and> LastCheckoutCommit (r_State w) = ''bbbb''"
  by code_simp

text \<open>A commit in which no stack changed becomes the rollback target without ever having been watched.\<close>

theorem unchanged_commit_promoted_unwatched:
  "let (p, es, w) = run_state (applyNothing (traced (demoDeps demoState None exitedSnapshot)) CallerCtx demoState
       (emptyResult\<lparr>rs_NewCommit := ''bbbb''\<rparr>) [] [] False) ([], ())
   in LastHealthyCommit (snd p) = ''bbbb'' \<and> EvUp \<notin> set es"
  by code_simp

text \<open>A watch of more than 9223372036 seconds is no watch: the duration wraps around.\<close>

theorem huge_watch_is_disabled:
  "fst (run_state (Watch (\<lambda>c. ret None) (\<lambda>c n. ret (Inr exitedSnapshot)) (Clk (demoDeps demoState None exitedSnapshot)) CallerCtx
      (healthOptions (Default\<lparr>cfg_HealthWatchSeconds := 9223372037\<rparr>) ''p'' True)) ())
   = Inr (zeroResult\<lparr>w_Outcome := Healthy\<rparr>)"
  by code_simp

text \<open>Signs are accepted in the hours and minutes of a deploy window.\<close>

theorem signed_window_accepted:
  "ParseDeployWindow ''+2:+0-+5:00'' = Inr \<lparr>win_start = 120, win_end = 300\<rparr>"
  by code_simp

text \<open>Recovery goes on after the attempt limit when the branch has a newer commit: an attempt is counted and
  the newer commit is brought up.\<close>

theorem superseding_commit_bypasses_limit:
  "let (r, es, w) = run_state (recoverFromCrash (traced (repoDeps ''docker-compose.yml'' (\<lambda>_. None))) CallerCtx demoOpts
       (demoState\<lparr>PendingCommit := ''cccc'', PendingAttempts := 7\<rparr>) 0) ([], repoAt demoState)
   in EvUp \<in> set es \<and> r_Head w = ''bbbb''"
  by code_simp

text \<open>On the night on which the clocks go forward from two to three, a deploy window from two to three does not
  exist: its next opening is the hour at which it is over, and the run that was put off until then finds it closed.\<close>

theorem opening_in_the_skipped_hour_is_closed:
  "let off = (\<lambda>u. if u < hour then hour else 2 * hour); w = \<lparr>win_start = 120, win_end = 180\<rparr>; opening = NextOpening w off 0
   in opening = hour \<and> \<not> WindowOpen w (off opening) opening"
  by code_simp

text \<open>The poll command needs an interval to be configured; the default is none, and not the five minutes of the usage text.\<close>

theorem default_does_not_poll: "pollStart Default = Inl 2"
  by code_simp

end
