(* ===== verification/Clients.thy ===== *)
theory Clients
  imports Deps
begin

text \<open>
  The adapters to the world outside: the compose service (\<^verbatim>\<open>internal/compose/compose.go\<close>), the
  snapshotter over it (\<^verbatim>\<open>internal/health/snapshotter.go\<close>), and the HTTP requests of the notifier
  (\<^verbatim>\<open>internal/notify/notifier.go\<close>, \<^verbatim>\<open>discord.go\<close>) and the heartbeat (\<^verbatim>\<open>internal/heartbeat/heartbeat.go\<close>).
  The Docker Compose SDK, the Docker client and the HTTP client are the parameters.
\<close>

section \<open>The compose service\<close>

text \<open>The options of the SDK's calls that the program sets.\<close>

datatype UpOptions = UpOptions (RemoveOrphansOnUp: bool) (BuildDeps: bool)
datatype PullOptions = PullOptions (Quiet: bool)
datatype DownOptions = DownOptions (RemoveOrphansOnDown: bool)
datatype PsOptions = PsOptions (AllContainers: bool)

text \<open>What the program reads of an inspected container.\<close>

record ContainerInfo =
  ci_RestartCount :: int

record 'w SDK =
  sdkLoadProject :: "ctx \<Rightarrow> string list \<Rightarrow> string \<Rightarrow> ('w, err + Project) state"
  sdkUp :: "ctx \<Rightarrow> Project \<Rightarrow> UpOptions \<Rightarrow> ('w, err option) state"
  sdkPull :: "ctx \<Rightarrow> Project \<Rightarrow> PullOptions \<Rightarrow> ('w, err option) state"
  sdkDown :: "ctx \<Rightarrow> string \<Rightarrow> DownOptions \<Rightarrow> ('w, err option) state"
  sdkPs :: "ctx \<Rightarrow> string \<Rightarrow> PsOptions \<Rightarrow> ('w, err + ContainerSummary list) state"
  sdkImageInspect :: "ctx \<Rightarrow> string \<Rightarrow> ('w, err option) state"
  sdkContainerInspect :: "ctx \<Rightarrow> string \<Rightarrow> ('w, err + ContainerInfo) state"
  sdkPullPolicy :: "Service \<Rightarrow> err + string"

record 'w ComposeClient =
  cc_sdk :: "'w SDK"
  cc_timeout :: duration
  cc_upTimeout :: duration
  cc_ctxErr :: "'w CtxErr"

text \<open>\<^verbatim>\<open>New\<close>: the client of Docker is created and initialised, then the SDK's service on it.\<close>

definition NewService :: "err option \<Rightarrow> err option \<Rightarrow> err + 'w SDK \<Rightarrow> 'w CtxErr \<Rightarrow> duration \<Rightarrow> duration \<Rightarrow> err + 'w ComposeClient" where
  "NewService cliErr initErr svc ctxErr timeout upTimeout =
     (case cliErr of
        Some e \<Rightarrow> Inl (wrapf ''creating docker cli: '' e)
      | None \<Rightarrow>
          (case initErr of
             Some e \<Rightarrow> Inl (wrapf ''initializing docker cli: '' e)
           | None \<Rightarrow>
               (case svc of
                  Inl e \<Rightarrow> Inl (wrapf ''creating compose service: '' e)
                | Inr sdk \<Rightarrow> Inr \<lparr>cc_sdk = sdk, cc_timeout = timeout, cc_upTimeout = upTimeout, cc_ctxErr = ctxErr\<rparr>)))"

definition withTimeout :: "ctx \<Rightarrow> duration \<Rightarrow> ctx" where
  "withTimeout c d = (if d \<le> 0 then WithCancel c False else WithTimeout c d)"

definition Service_LoadProject :: "'w ComposeClient \<Rightarrow> ctx \<Rightarrow> string list \<Rightarrow> string \<Rightarrow> ('w, err + Project) state" where
  "Service_LoadProject s c composeFiles projectName = do {
     r \<leftarrow> sdkLoadProject (cc_sdk s) (withTimeout c (cc_timeout s)) composeFiles projectName;
     ret (case r of
        Inl e \<Rightarrow> Inl (wrapf (''loading compose project '' @ Join composeFiles '', '' @ '': '') e)
      | Inr project \<Rightarrow> Inr project)
   }"

text \<open>\<open>ownDeadline\<close> with the states of the two contexts after the call.\<close>

definition deadlineError :: "'w ComposeClient \<Rightarrow> ctx \<Rightarrow> ctx \<Rightarrow> err \<Rightarrow> ('w, err) state" where
  "deadlineError s caller inner e = do {
     ce \<leftarrow> cc_ctxErr s caller;
     if ce \<noteq> None then ret e
     else do {
       ie \<leftarrow> cc_ctxErr s inner;
       ret (ownDeadline ce ie e (cc_upTimeout s))
     }
   }"

definition Service_Up :: "'w ComposeClient \<Rightarrow> ctx \<Rightarrow> Project \<Rightarrow> ('w, err option) state" where
  "Service_Up s c project = do {
     let upCtx = withTimeout c (cc_upTimeout s);
     r \<leftarrow> sdkUp (cc_sdk s) upCtx (forceBuild project) (UpOptions True True);
     case r of
       None \<Rightarrow> ret None
     | Some e \<Rightarrow> do {
         e' \<leftarrow> deadlineError s c upCtx e;
         ret (Some (wrapf ''compose up: '' e'))
       }
   }"

definition imagePresent :: "'w SDK \<Rightarrow> ctx \<Rightarrow> string \<Rightarrow> ('w, err + bool) state" where
  "imagePresent sdk c img = do {
     r \<leftarrow> sdkImageInspect sdk c img;
     ret (case r of
        None \<Rightarrow> Inr True
      | Some e \<Rightarrow> if errIs e NotFound then Inr False else Inl (wrapf (''inspecting image '' @ img @ '': '') e))
   }"

definition Service_Pull :: "'w ComposeClient \<Rightarrow> ctx \<Rightarrow> Project \<Rightarrow> ('w, err option) state" where
  "Service_Pull s c project = do {
     let pullCtx = withTimeout c (cc_upTimeout s);
     r \<leftarrow> imagesToPull (sdkPullPolicy (cc_sdk s)) (imagePresent (cc_sdk s) pullCtx) (p_Services project);
     case r of
       Inl e \<Rightarrow> ret (Some (wrapf ''compose pull: '' e))
     | Inr svcs \<Rightarrow>
         if svcs = [] then ret None
         else do {
           q \<leftarrow> sdkPull (cc_sdk s) pullCtx (project\<lparr>p_Services := svcs\<rparr>) (PullOptions True);
           case q of
             None \<Rightarrow> ret None
           | Some e \<Rightarrow> do {
               e' \<leftarrow> deadlineError s c pullCtx e;
               ret (Some (wrapf ''compose pull: '' (classifyPullError e')))
             }
         }
   }"

definition Service_Down :: "'w ComposeClient \<Rightarrow> ctx \<Rightarrow> string \<Rightarrow> ('w, err option) state" where
  "Service_Down s c projectName = do {
     r \<leftarrow> sdkDown (cc_sdk s) (withTimeout c (cc_timeout s)) projectName (DownOptions True);
     ret (map_option (wrapf ''compose down: '') r)
   }"

definition Service_Ps :: "'w ComposeClient \<Rightarrow> ctx \<Rightarrow> string \<Rightarrow> ('w, err + ContainerSummary list) state" where
  "Service_Ps s c projectName = do {
     r \<leftarrow> sdkPs (cc_sdk s) (withTimeout c (cc_timeout s)) projectName (PsOptions True);
     ret (case r of Inl e \<Rightarrow> Inl (wrapf ''compose ps: '' e) | Inr cs \<Rightarrow> Inr cs)
   }"

section \<open>The snapshotter\<close>

definition restartCount :: "'w SDK \<Rightarrow> ctx \<Rightarrow> string \<Rightarrow> ('w, err + int) state" where
  "restartCount sdk c containerID = do {
     r \<leftarrow> sdkContainerInspect sdk c containerID;
     ret (case r of Inl e \<Rightarrow> Inl e | Inr container \<Rightarrow> Inr (ci_RestartCount container))
   }"

text \<open>The answers of the inspections, by container.\<close>

fun inspectEach :: "(string \<Rightarrow> ('w, err + int) state) \<Rightarrow> string list \<Rightarrow> ('w, (string \<times> (err + int)) list) state" where
  "inspectEach inspect [] = ret []"
| "inspectEach inspect (i # is) = do {
     r \<leftarrow> inspect i;
     rs \<leftarrow> inspectEach inspect is;
     ret ((i, r) # rs)
   }"

definition Snapshotter_Snapshot :: "'w ComposeClient \<Rightarrow> ('w, time) state \<Rightarrow> duration \<Rightarrow> ctx \<Rightarrow> string \<Rightarrow> ('w, err + Snapshot) state" where
  "Snapshotter_Snapshot s timeNow limit c0 projectName = do {
     let c = (if limit > 0 then WithTimeout c0 limit else c0);
     r \<leftarrow> Service_Ps s c projectName;
     case r of
       Inl e \<Rightarrow> ret (Inl (wrapf ''listing containers: '' e))
     | Inr summaries \<Rightarrow> do {
         rs \<leftarrow> inspectEach (restartCount (cc_sdk s) c) (map s_ID summaries);
         now \<leftarrow> timeNow;
         ret (buildSnapshot (\<lambda>i. case map_of rs i of Some x \<Rightarrow> x | None \<Rightarrow> Inr 0) summaries now)
       }
   }"

section \<open>HTTP\<close>

text \<open>An error of the HTTP client: a \<^verbatim>\<open>url.Error\<close> with its operation, address and cause, or any other. The address can
  hold a secret and is taken out.\<close>

datatype httpErr = UrlError (ue_Op: string) (ue_URL: string) (ue_Err: err) | OtherErr err

fun redactURL :: "httpErr \<Rightarrow> err" where
  "redactURL (UrlError op url e) = wrapf (op @ '': '') e"
| "redactURL (OtherErr e) = e"

lemma redactURL_hides: "redactURL (UrlError op url e) = redactURL (UrlError op url' e)"
  by simp

definition maxRateLimitWait :: duration where
  "maxRateLimitWait = 15 * second"

text \<open>\<open>parseSeconds\<close> is \<^verbatim>\<open>strconv.ParseFloat\<close> and the conversion to a duration: \<^const>\<open>None\<close> for an error and for
  values that are not positive. The conversion of a value out of range is up to the machine.\<close>

definition rateLimitDelay :: "(string \<Rightarrow> duration option) \<Rightarrow> string \<Rightarrow> duration" where
  "rateLimitDelay parseSeconds retryAfter =
     (case parseSeconds (TrimSpace retryAfter) of None \<Rightarrow> second | Some d \<Rightarrow> min d maxRateLimitWait)"

text \<open>The result of a heartbeat request: only logged by its caller.\<close>

definition pingResult :: "(ctx \<Rightarrow> string \<Rightarrow> ('w, httpErr + int \<times> string) state) \<Rightarrow> ctx \<Rightarrow> string \<Rightarrow> ('w, err option) state" where
  "pingResult get c url = do {
     r \<leftarrow> get c url;
     ret (case r of
        Inl e \<Rightarrow> Some (redactURL e)
      | Inr (status, text) \<Rightarrow> if status \<ge> 300 then Some (errorf (''unexpected status '' @ text)) else None)
   }"

section \<open>Properties\<close>

lemma rateLimitDelay_bounds:
  assumes "\<And>s d. parseSeconds s = Some d \<Longrightarrow> 0 < d"
  shows "0 < rateLimitDelay parseSeconds s \<and> rateLimitDelay parseSeconds s \<le> maxRateLimitWait"
  using assms by (auto simp: rateLimitDelay_def maxRateLimitWait_def second_def split: option.split)

lemma IsInfraError_registry:
  "IsInfraError (classifyPullError e) \<longleftrightarrow> IsInfraError e
     \<or> \<not> (errIs e NotFound \<or> errIs e InvalidArgument \<or> errIs e Unauthorized \<or> errIs e PermissionDenied)"
  by (auto simp: classifyPullError_def IsInfraError_def errIs_def)

text \<open>C30: which failures of \<^verbatim>\<open>compose up\<close> count against the commit: an error of the SDK is reported as it is, with
  its kind, unless it is the program's own time limit that ended the call while the caller's context
  was still alive. Then the error is no infrastructure error, whatever the SDK said, and the commit
  that did not come up in time is condemned.\<close>

theorem up_failure_kind:
  assumes "run_state (sdkUp (cc_sdk s) (withTimeout c (cc_upTimeout s)) (forceBuild project) (UpOptions True True)) w = (Some e, w1)"
    and "run_state (cc_ctxErr s c) w1 = (caller, w2)"
    and "run_state (cc_ctxErr s (withTimeout c (cc_upTimeout s))) w2 = (inner, w3)"
  shows "\<exists>e'. fst (run_state (Service_Up s c project) w) = Some e'
    \<and> (IsInfraError e' \<longleftrightarrow> IsInfraError e \<and> (caller \<noteq> None \<or> (\<forall>x. inner = Some x \<longrightarrow> \<not> errIs x DeadlineExceeded)))"
proof (cases "caller = None")
  case True
  then show ?thesis using assms by (auto simp: Service_Up_def Let_def deadlineError_def ownDeadline_def split: option.split)
next
  case False
  then show ?thesis using assms by (auto simp: Service_Up_def Let_def deadlineError_def)
qed

text \<open>What a pull that fails means: the images are wrong only if the registry says so.\<close>

lemma pull_failure_kind:
  assumes "run_state (imagesToPull (sdkPullPolicy (cc_sdk s)) (imagePresent (cc_sdk s) (withTimeout c (cc_upTimeout s))) (p_Services project)) w
      = (Inr svcs, w1)" and "svcs \<noteq> []"
    and "run_state (sdkPull (cc_sdk s) (withTimeout c (cc_upTimeout s)) (project\<lparr>p_Services := svcs\<rparr>) (PullOptions True)) w1 = (Some e, w2)"
  shows "\<exists>e' w3 w4. run_state (deadlineError s c (withTimeout c (cc_upTimeout s)) e) w2 = (e', w3)
    \<and> run_state (Service_Pull s c project) w = (Some (wrapf ''compose pull: '' (classifyPullError e')), w4)"
  using assms by (cases "run_state (deadlineError s c (withTimeout c (cc_upTimeout s)) e) w2") (simp add: Service_Pull_def Let_def)

text \<open>An SDK whose \<^verbatim>\<open>up\<close> runs into the time limit of the program.\<close>

definition slowSDK :: "'w SDK" where
  "slowSDK = \<lparr>sdkLoadProject = (\<lambda>_ _ _. ret (Inl (errorf []))), sdkUp = (\<lambda>_ _ _. ret (Some (Leaf DeadlineExceeded ''deadline exceeded''))),
     sdkPull = (\<lambda>_ _ _. ret None), sdkDown = (\<lambda>_ _ _. ret None), sdkPs = (\<lambda>_ _ _. ret (Inr [])),
     sdkImageInspect = (\<lambda>_ _. ret None), sdkContainerInspect = (\<lambda>_ _. ret (Inr \<lparr>ci_RestartCount = 0\<rparr>)), sdkPullPolicy = (\<lambda>_. Inr ''missing'')\<rparr>"

definition slowClient :: "unit ComposeClient" where
  "slowClient = \<lparr>cc_sdk = slowSDK, cc_timeout = minute, cc_upTimeout = 30 * minute,
     cc_ctxErr = (\<lambda>c. ret (case c of WithTimeout _ _ \<Rightarrow> Some (Leaf DeadlineExceeded ''deadline exceeded'') | _ \<Rightarrow> None))\<rparr>"

theorem up_failure_kind_witness:
  "\<exists>e'. fst (run_state (Service_Up slowClient CallerCtx \<lparr>p_WorkingDir = [], p_ComposeFiles = [], p_Services = [], p_Configs = [], p_Secrets = []\<rparr>) ()) = Some e'
     \<and> \<not> IsInfraError e' \<and> IsInfraError (Leaf DeadlineExceeded ''deadline exceeded'')"
proof -
  let ?p = "\<lparr>p_WorkingDir = [], p_ComposeFiles = [], p_Services = [], p_Configs = [], p_Secrets = []\<rparr>"
  let ?c = "withTimeout CallerCtx (cc_upTimeout slowClient)" and ?e = "Leaf DeadlineExceeded ''deadline exceeded''"
  have c: "?c = WithTimeout CallerCtx (30 * minute)" by (simp add: withTimeout_def slowClient_def minute_def second_def)
  have "run_state (sdkUp (cc_sdk slowClient) ?c (forceBuild ?p) (UpOptions True True)) () = (Some ?e, ())"
      "run_state (cc_ctxErr slowClient CallerCtx) () = (None, ())"
      "run_state (cc_ctxErr slowClient ?c) () = (Some ?e, ())"
    unfolding c by (simp_all add: slowClient_def slowSDK_def)
  from up_failure_kind [OF this] obtain e' where "fst (run_state (Service_Up slowClient CallerCtx ?p) ()) = Some e'"
      "IsInfraError e' \<longleftrightarrow> IsInfraError ?e \<and> (None \<noteq> (None :: err option) \<or> (\<forall>x. Some ?e = Some x \<longrightarrow> \<not> errIs x DeadlineExceeded))"
    by blast
  moreover have "errIs ?e DeadlineExceeded" "IsInfraError ?e" by code_simp+
  ultimately show ?thesis by auto
qed

end
