(* ===== verification/Delivery.thy ===== *)
theory Delivery
  imports Clients
begin

text \<open>
  What leaves the process as a notification (\<^verbatim>\<open>internal/notify/notifier.go\<close>): the JSON documents of the two
  kinds of payload, the HTTP request that carries them, the notifier with the sinks of a configuration, and
  its throttling as other goroutines see it. The text of a JSON document (\<open>marshal\<close>) and the HTTP client are
  parameters.
\<close>

section \<open>Payloads\<close>

definition encodeField :: "Field \<Rightarrow> json" where
  "encodeField f = JObject ([(''name'', JString (f_Name f)), (''value'', JString (f_Value f))] @ omitzero False JBool ''inline'' (f_Inline f))"

definition encodeEmbed :: "Embed \<Rightarrow> json" where
  "encodeEmbed e = JObject ([(''title'', JString (em_Title e))] @ omitzero [] JString ''description'' (em_Description e)
     @ [(''color'', JInt (em_Color e))] @ omitzero [] (\<lambda>fs. JArray (map encodeField fs)) ''fields'' (em_Fields e))"

definition encodeDiscord :: "(json \<Rightarrow> err + string) \<Rightarrow> Embed \<Rightarrow> time \<Rightarrow> err + string" where
  "encodeDiscord marshal e now = marshal (JObject [(''embeds'', JArray [encodeEmbed e])])"

text \<open>The keys of a map are printed in order.\<close>

definition encodePayload :: "WebhookPayload \<Rightarrow> json" where
  "encodePayload w = JObject ([(''schema_version'', JInt (wp_SchemaVersion w)), (''source'', JString (wp_Source w)),
       (''status'', JString (outcomeText (wp_Status w))), (''title'', JString (wp_Title w))]
     @ omitzero [] JString ''message'' (wp_Message w) @ omitzero [] JString ''commit'' (wp_Commit w)
     @ omitzero [] JString ''commit_url'' (wp_CommitURL w) @ omitzero [] JString ''compare_url'' (wp_CompareURL w)
     @ omitzero [] (\<lambda>fs. JObject (map (\<lambda>(k, v). (k, JString v)) (sort_key fst fs))) ''fields'' (wp_Fields w)
     @ [(''timestamp'', JTime (wp_Timestamp w))])"

definition encodeWebhook :: "(json \<Rightarrow> err + string) \<Rightarrow> Embed \<Rightarrow> time \<Rightarrow> err + string" where
  "encodeWebhook marshal e now = marshal (encodePayload (webhookPayload e now))"

section \<open>Requests\<close>

record HttpRequest =
  hq_Method :: string
  hq_URL :: string
  hq_Headers :: "(string \<times> string) list"
  hq_Body :: string

text \<open>\<^verbatim>\<open>http.CanonicalHeaderKey\<close> for the names that pass validation: a letter is large at the beginning and behind a hyphen.\<close>

definition upperChar :: "char \<Rightarrow> char" where
  "upperChar c = (if inRange (CHR ''a'') (CHR ''z'') c then char_of (byte c - 32) else c)"

fun canonicalFrom :: "bool \<Rightarrow> string \<Rightarrow> string" where
  "canonicalFrom start [] = []"
| "canonicalFrom start (c # cs) = (if start then upperChar c else lowerChar c) # canonicalFrom (c = CHR ''-'') cs"

definition CanonicalHeaderKey :: "string \<Rightarrow> string" where
  "CanonicalHeaderKey name = canonicalFrom True name"

text \<open>\<^verbatim>\<open>Header.Set\<close>.\<close>

definition setHeader :: "string \<times> string \<Rightarrow> (string \<times> string) list \<Rightarrow> (string \<times> string) list" where
  "setHeader = (\<lambda>(name, value). AList.update (CanonicalHeaderKey name) value)"

definition postRequest :: "sink \<Rightarrow> string \<Rightarrow> HttpRequest" where
  "postRequest s data = \<lparr>hq_Method = ''POST'', hq_URL = sk_url s,
     hq_Headers = fold setHeader (sk_headers s @ [(''Content-Type'', ''application/json''), (''User-Agent'', ''composelock'')]) [],
     hq_Body = data\<rparr>"

text \<open>\<open>roundTrip\<close> makes a request and reads the status and the \<^verbatim>\<open>Retry-After\<close> header; a request that cannot be built fails.\<close>

definition postSink :: "(ctx \<Rightarrow> HttpRequest \<Rightarrow> ('w, httpErr + int \<times> string) state) \<Rightarrow> (string \<Rightarrow> duration option) \<Rightarrow>
    ctx \<Rightarrow> sink \<Rightarrow> string \<Rightarrow> ('w, err + duration) state" where
  "postSink roundTrip parseSeconds c s data = do {
     r \<leftarrow> roundTrip c (postRequest s data);
     ret (case r of
        Inl e \<Rightarrow> Inl (redactURL e)
      | Inr (status, retryAfter) \<Rightarrow>
          if status = 429 then Inr (rateLimitDelay parseSeconds retryAfter)
          else if status \<ge> 300 then Inl (errorf (''non-2xx response: '' @ itoa status))
          else Inr 0)
   }"

section \<open>The notifier of a process\<close>

definition NewNotifier :: "(json \<Rightarrow> err + string) \<Rightarrow> string \<Rightarrow> string \<Rightarrow> (string \<times> string) list \<Rightarrow> Notifier" where
  "NewNotifier marshal discordURL webhookURL headers = \<lparr>
     sinks = (if discordURL \<noteq> []
         then [\<lparr>sk_name = ''discord'', sk_url = discordURL, sk_headers = [], sk_encode = encodeDiscord marshal\<rparr>] else [])
       @ (if webhookURL \<noteq> []
         then [\<lparr>sk_name = ''webhook'', sk_url = webhookURL, sk_headers = headers, sk_encode = encodeWebhook marshal\<rparr>] else []),
     sent = []\<rparr>"

section \<open>Properties\<close>

lemma setHeader_lookup: "map_of (setHeader h hs) = (map_of hs)(CanonicalHeaderKey (fst h) \<mapsto> snd h)"
  by (auto simp: setHeader_def update_conv' split: prod.split)

text \<open>Whatever headers are configured, a notification is posted as JSON, under the name of the program.\<close>

theorem posted_as_json:
  "map_of (hq_Headers (postRequest s data)) ''Content-Type'' = Some ''application/json''
   \<and> map_of (hq_Headers (postRequest s data)) ''User-Agent'' = Some ''composelock''"
proof -
  have "CanonicalHeaderKey ''Content-Type'' = ''Content-Type''" "CanonicalHeaderKey ''User-Agent'' = ''User-Agent''" by code_simp+
  then show ?thesis by (simp add: postRequest_def setHeader_lookup)
qed

end
