(* ===== verification/Execx.thy ===== *)
theory Execx
  imports CL_Prelude
begin

text \<open>
  The process runner: \<^verbatim>\<open>internal/execx/runner.go\<close>. Its output reaches logs and notifications, so
  credentials in addresses are replaced. \<open>Redact\<close> is the replacement of the regular expression
  \<^verbatim>\<open>([a-zA-Z][a-zA-Z0-9+.\-]*://)[^/\s"'<>{}|\\]+@\<close>: leftmost matches, greedy. The scheme of a match is a
  maximal run of scheme characters, since none of them is a colon, and the credentials reach to the
  last at sign before a character they must not contain.
\<close>

definition isLetter :: "char \<Rightarrow> bool" where
  "isLetter c \<longleftrightarrow> inRange (CHR ''a'') (CHR ''z'') c \<or> inRange (CHR ''A'') (CHR ''Z'') c"

definition schemeChar :: "char \<Rightarrow> bool" where
  "schemeChar c \<longleftrightarrow> isLetter c \<or> isDigit c \<or> c \<in> set ''+.-''"

definition userChar :: "char \<Rightarrow> bool" where
  "userChar c \<longleftrightarrow> c \<notin> set ''/ <>{}|'' \<and> c \<notin> {CHR 0x09, CHR 0x0A, CHR 0x0C, CHR 0x0D, CHR 0x22, CHR 0x27, CHR 0x5C}"

text \<open>What follows the last at sign that has something before it, if there is one.\<close>

fun afterLastAt :: "string \<Rightarrow> string option" where
  "afterLastAt [] = None"
| "afterLastAt (c # s) =
     (case afterLastAt s of Some r \<Rightarrow> Some r | None \<Rightarrow> if s \<noteq> [] \<and> hd s = CHR ''@'' then Some (tl s) else None)"

text \<open>A match at the head: the scheme with its slashes, and the text after the at sign.\<close>

definition matchCredentials :: "string \<Rightarrow> (string \<times> string) option" where
  "matchCredentials s =
     (let scheme = takeWhile schemeChar s; rest = dropWhile schemeChar s
      in if s = [] \<or> \<not> isLetter (hd s) \<or> \<not> HasPrefix rest ''://'' then None
         else map_option (\<lambda>r. (scheme @ ''://'', r @ dropWhile userChar (drop 3 rest)))
                (afterLastAt (takeWhile userChar (drop 3 rest))))"

lemma afterLastAt_shorter: "afterLastAt s = Some r \<Longrightarrow> length r < length s"
  by (induction s arbitrary: r) (auto split: option.splits if_splits)

lemma matchCredentials_shorter:
  assumes "matchCredentials s = Some (scheme, r)"
  shows "length r < length s"
proof -
  let ?rest = "dropWhile schemeChar s"
  from assms obtain q where q: "afterLastAt (takeWhile userChar (drop 3 ?rest)) = Some q"
      and r: "r = q @ dropWhile userChar (drop 3 ?rest)"
    by (auto simp: matchCredentials_def Let_def split: if_splits)
  have "length q < length (takeWhile userChar (drop 3 ?rest))" using afterLastAt_shorter [OF q] .
  moreover have "length (takeWhile userChar (drop 3 ?rest)) + length (dropWhile userChar (drop 3 ?rest)) = length (drop 3 ?rest)"
    by (metis length_append takeWhile_dropWhile_id)
  moreover have "length ?rest \<le> length s" by (rule length_dropWhile_le)
  ultimately show ?thesis using r by simp
qed

function Redact :: "string \<Rightarrow> string" where
  "Redact [] = []"
| "Redact (c # s) =
     (case matchCredentials (c # s) of
        None \<Rightarrow> c # Redact s
      | Some (scheme, r) \<Rightarrow> scheme @ ''***@'' @ Redact r)"
  by pat_completeness auto
termination
  by (relation "measure length") (auto dest: matchCredentials_shorter)

text \<open>\<open>exec\<close> is \<^verbatim>\<open>exec.CommandContext\<close> with its buffers: standard output, standard error and the error.\<close>

definition OSRunner_Run ::
  "(ctx \<Rightarrow> string \<Rightarrow> string list \<Rightarrow> string \<Rightarrow> string list \<Rightarrow> ('w, string \<times> string \<times> err option) state) \<Rightarrow>
     ctx \<Rightarrow> string \<Rightarrow> string list \<Rightarrow> string \<Rightarrow> string list \<Rightarrow> ('w, string \<times> string \<times> err option) state" where
  "OSRunner_Run exec c dir env name args = do {
     r \<leftarrow> exec c dir env name args;
     (case r of (out, errOut, e) \<Rightarrow>
        let errBytes = Redact errOut
        in ret (out, errBytes,
             case e of
               None \<Rightarrow> None
             | Some e \<Rightarrow> Some (Wrap (Redact (name @ '' '' @ Join args '' '') @ '': '') e ('' (stderr: '' @ TrimSpace errBytes @ '')''))))
   }"

section \<open>Credentials do not show\<close>

lemma afterLastAt_append: "afterLastAt t \<noteq> None \<Longrightarrow> afterLastAt (s @ t) = afterLastAt t"
  by (induction s) (auto split: option.splits)

lemma afterLastAt_at: "s \<noteq> [] \<Longrightarrow> afterLastAt (s @ CHR ''@'' # t) = (case afterLastAt (CHR ''@'' # t) of Some r \<Rightarrow> Some r | None \<Rightarrow> Some t)"
proof (induction s)
  case (Cons c s)
  then show ?case by (cases s) (auto split: option.splits)
qed simp

lemma takeWhile_cat: "\<forall>c \<in> set u. P c \<Longrightarrow> takeWhile P (u @ v) = u @ takeWhile P v" "\<forall>c \<in> set u. P c \<Longrightarrow> dropWhile P (u @ v) = dropWhile P v"
  by simp_all

text \<open>A secret in the place of credentials.\<close>

definition secret :: "string \<Rightarrow> bool" where
  "secret u \<longleftrightarrow> u \<noteq> [] \<and> (\<forall>c \<in> set u. userChar c)"

lemma at_userChar [simp]: "userChar (CHR ''@'')"
  by (simp add: userChar_def)

lemma scheme_seps [simp]: "\<not> schemeChar (CHR '':'')" "\<not> userChar (CHR ''/'')" "\<not> schemeChar (CHR ''/'')" "\<not> schemeChar (CHR ''@'')"
  by code_simp+

text \<open>At the scheme of an address with credentials there is a match, whose rest does not depend on them.\<close>

lemma match_at_scheme:
  assumes "secret u" and "\<forall>c \<in> set scheme. schemeChar c" and "scheme \<noteq> []" and "isLetter (hd scheme)"
  shows "matchCredentials (scheme @ ''://'' @ u @ ''@'' @ post)
     = Some (scheme @ ''://'', (case afterLastAt (CHR ''@'' # takeWhile userChar post) of Some r \<Rightarrow> r | None \<Rightarrow> takeWhile userChar post)
         @ dropWhile userChar post)"
proof -
  have u: "u \<noteq> []" "\<forall>c \<in> set u. userChar c" using assms(1) by (auto simp: secret_def)
  have "takeWhile schemeChar (scheme @ ''://'' @ u @ ''@'' @ post) = scheme"
      "dropWhile schemeChar (scheme @ ''://'' @ u @ ''@'' @ post) = ''://'' @ u @ ''@'' @ post"
    using assms(2) by (simp_all add: takeWhile_append2 dropWhile_append2)
  moreover have "afterLastAt (takeWhile userChar (u @ ''@'' @ post))
      = Some (case afterLastAt (CHR ''@'' # takeWhile userChar post) of Some r \<Rightarrow> r | None \<Rightarrow> takeWhile userChar post)"
    using u afterLastAt_at [OF u(1), of "takeWhile userChar post"] by (simp add: takeWhile_append2 split: option.splits)
  moreover have "dropWhile userChar (u @ ''@'' @ post) = dropWhile userChar post" using u by (simp add: dropWhile_append2)
  ultimately show ?thesis
    using assms(3,4) by (cases scheme) (simp_all add: matchCredentials_def Let_def HasPrefix_def)
qed

text \<open>An address with the credentials \<open>u\<close>.\<close>

definition address :: "string \<Rightarrow> string \<Rightarrow> string \<Rightarrow> string" where
  "address scheme u post = scheme @ ''://'' @ u @ ''@'' @ post"

definition isScheme :: "string \<Rightarrow> bool" where
  "isScheme scheme \<longleftrightarrow> scheme \<noteq> [] \<and> isLetter (hd scheme) \<and> (\<forall>c \<in> set scheme. schemeChar c)"

lemma schemeChar_userChar: "schemeChar c \<Longrightarrow> userChar c \<and> c \<noteq> CHR ''@''"
  by (auto simp: schemeChar_def isLetter_def isDigit_def inRange_def userChar_def less_eq_char_def)

lemma letter_not_slash: "isLetter c \<Longrightarrow> c \<noteq> CHR ''/''"
  by (auto simp: isLetter_def inRange_def less_eq_char_def)

lemma afterLastAt_no_at: "CHR ''@'' \<notin> set b \<Longrightarrow> afterLastAt (a @ b) = map_option (\<lambda>r. r @ b) (afterLastAt a)"
proof (induction a)
  case Nil
  then show ?case by (induction b) (auto dest: hd_in_set)
next
  case (Cons c a)
  then show ?case by (cases a; cases b) (auto split: option.splits)
qed

lemma prefix_before_scheme:
  assumes "y \<noteq> []" and "isScheme scheme"
  shows "HasPrefix (y @ address scheme u post) ''://'' \<longleftrightarrow> HasPrefix y ''://''"
proof -
  obtain s ss where s: "scheme = s # ss" "s \<noteq> CHR ''/''"
    using assms(2) letter_not_slash by (cases scheme) (auto simp: isScheme_def)
  obtain y0 ys where y: "y = y0 # ys" using assms(1) by (cases y) auto
  show ?thesis
    using s(2) by (cases ys; cases "tl ys") (auto simp: y s(1) address_def HasPrefix_def)
qed

text \<open>Text before the address that is not all part of its scheme: whether there is a match at its head, and
  how far it reaches, does not depend on the credentials.\<close>

lemma match_before:
  assumes "isScheme scheme" and "\<exists>x \<in> set pre. \<not> schemeChar x"
  shows "\<exists>m. (\<forall>u. matchCredentials (pre @ address scheme u post) = map_option (apsnd (\<lambda>q. q @ address scheme u post)) m)
    \<and> (\<forall>s q. m = Some (s, q) \<longrightarrow> length q < length pre)"
proof -
  define y where "y = dropWhile schemeChar pre"
  have ne: "y \<noteq> []" "pre \<noteq> []" using assms(2) by (auto simp: y_def)
  have drop: "takeWhile schemeChar (pre @ z) = takeWhile schemeChar pre" "dropWhile schemeChar (pre @ z) = y @ z" for z
    using assms(2) unfolding y_def by (auto simp: takeWhile_append1 dropWhile_append1)
  show ?thesis
  proof (cases "isLetter (hd pre) \<and> HasPrefix y ''://''")
    case False
    then have "matchCredentials (pre @ address scheme u post) = None" for u
      using ne prefix_before_scheme [OF ne(1) assms(1)] by (auto simp: matchCredentials_def drop Let_def)
    then show ?thesis by (intro exI [of _ None]) simp
  next
    case True
    then obtain y' where y': "y = ''://'' @ y'" by (auto simp: HasPrefix_iff prefix_def)
    have len: "length y' + 3 \<le> length pre" using y' length_dropWhile_le [of schemeChar pre] by (simp add: y_def)
    have match: "matchCredentials (pre @ address scheme u post) = map_option (\<lambda>r. (takeWhile schemeChar pre @ ''://'',
        r @ dropWhile userChar (y' @ address scheme u post))) (afterLastAt (takeWhile userChar (y' @ address scheme u post)))" for u
      using True ne prefix_before_scheme [OF ne(1) assms(1), of u post] by (simp add: matchCredentials_def drop Let_def y')
    show ?thesis
    proof (cases "\<forall>x \<in> set y'. userChar x")
      case all: True
      have "takeWhile userChar (address scheme u post) = scheme @ '':''" "dropWhile userChar (address scheme u post) = ''//'' @ u @ ''@'' @ post" for u
        using assms(1) schemeChar_userChar by (auto simp: address_def isScheme_def takeWhile_append2 dropWhile_append2 userChar_def)
      then have "takeWhile userChar (y' @ address scheme u post) = y' @ scheme @ '':''"
          "dropWhile userChar (y' @ address scheme u post) = ''//'' @ u @ ''@'' @ post" for u
        using all by (simp_all add: takeWhile_append2 dropWhile_append2)
      moreover have "CHR ''@'' \<notin> set (scheme @ '':'')" using assms(1) schemeChar_userChar by (auto simp: isScheme_def)
      ultimately have "matchCredentials (pre @ address scheme u post) = map_option (apsnd (\<lambda>q. q @ address scheme u post))
          (map_option (\<lambda>r. (takeWhile schemeChar pre @ ''://'', r)) (afterLastAt y'))" for u
        using afterLastAt_no_at [of "scheme @ '':''" y']
        by (cases "afterLastAt y'") (simp_all add: match, simp_all add: address_def)
      then show ?thesis using len by (intro exI conjI allI) (auto dest: afterLastAt_shorter)
    next
      case False
      then have "takeWhile userChar (y' @ z) = takeWhile userChar y'" "dropWhile userChar (y' @ z) = dropWhile userChar y' @ z" for z
        by (auto simp: takeWhile_append1 dropWhile_append1)
      then have "matchCredentials (pre @ address scheme u post) = map_option (apsnd (\<lambda>q. q @ address scheme u post))
          (map_option (\<lambda>r. (takeWhile schemeChar pre @ ''://'', r @ dropWhile userChar y')) (afterLastAt (takeWhile userChar y')))" for u
        by (cases "afterLastAt (takeWhile userChar y')") (simp_all add: match)
      moreover have "length r + length (dropWhile userChar y') < length pre" if "afterLastAt (takeWhile userChar y') = Some r" for r
      proof -
        have "length (takeWhile userChar y') + length (dropWhile userChar y') = length y'"
          by (metis length_append takeWhile_dropWhile_id)
        then show ?thesis using afterLastAt_shorter [OF that] len by simp
      qed
      ultimately show ?thesis by (intro exI conjI allI) auto
    qed
  qed
qed

text \<open>C29: credentials never show: in any text, replacing the credentials of an address by any others leaves the
  redacted text the same, so that nothing about them can be read off logs, errors or notifications.\<close>

theorem redacted_independent_of_credentials:
  assumes "isScheme scheme" and "secret u" and "secret u'"
  shows "Redact (pre @ address scheme u post) = Redact (pre @ address scheme u' post)"
proof (induction "length pre" arbitrary: pre rule: less_induct)
  case less
  show ?case
  proof (cases "pre \<noteq> [] \<and> (\<exists>x \<in> set pre. \<not> schemeChar x)")
    case True
    then obtain c p where pre: "pre = c # p" by (cases pre) auto
    from match_before [OF assms(1)] True obtain m where
        m: "\<And>u. matchCredentials (pre @ address scheme u post) = map_option (apsnd (\<lambda>q. q @ address scheme u post)) m"
        and len: "\<And>s q. m = Some (s, q) \<Longrightarrow> length q < length pre" by blast
    then show ?thesis
      using less [of p] less [OF len] by (cases m) (auto simp: pre m [unfolded pre, simplified])
  next
    case False
    then have all: "\<forall>x \<in> set pre. schemeChar x" by auto
    show ?thesis
    proof (cases "pre = [] \<or> isLetter (hd pre)")
      case True
      let ?s = "pre @ scheme"
      have s: "?s \<noteq> []" "isLetter (hd ?s)" "\<forall>c \<in> set ?s. schemeChar c"
        using True all assms(1) by (auto simp: isScheme_def hd_append)
      obtain c cs where cs: "?s = c # cs" using s(1) by (cases ?s) auto
      have "Redact (?s @ ''://'' @ v @ ''@'' @ post) = ?s @ ''://'' @ ''***@'' @ Redact ((case afterLastAt (CHR ''@'' # takeWhile userChar post) of
          Some r \<Rightarrow> r | None \<Rightarrow> takeWhile userChar post) @ dropWhile userChar post)" if "secret v" for v
        using match_at_scheme [OF that s(3,1,2), of post] unfolding cs by simp
      from this [OF assms(2)] this [OF assms(3)] show ?thesis by (simp add: address_def)
    next
      case no: False
      then obtain c p where pre: "pre = c # p" by (cases pre) auto
      have "matchCredentials (c # p @ address scheme v post) = None" for v
        using no pre by (simp add: matchCredentials_def)
      then show ?thesis using less [of p] by (simp add: pre)
    qed
  qed
qed

theorem redacted_independent_of_credentials_witness:
  "Redact (''fatal: '' @ address ''https'' ''bob:hunter2'' ''git.example/r.git'') = Redact (''fatal: '' @ address ''https'' ''x'' ''git.example/r.git'')
   \<and> Redact (''fatal: '' @ address ''https'' ''x'' ''git.example/r.git'') = ''fatal: https://***@git.example/r.git''"
proof -
  have "isScheme ''https''" "secret ''bob:hunter2''" "secret ''x''" by code_simp+
  from redacted_independent_of_credentials [OF this] show ?thesis by (intro conjI) (blast, code_simp)
qed

end
