(* ===== verification/ConfigInit.thy ===== *)
theory ConfigInit
  imports Config
begin

text \<open>
  The configuration file that the init command writes (\<^verbatim>\<open>config.Init\<close> in \<^verbatim>\<open>internal/config/config.go\<close>): the
  JSON document of a configuration, and that reading it gives the configuration back.
\<close>

section \<open>The document of a configuration\<close>

definition encodeWebhookConfig :: "WebhookConfig \<Rightarrow> json" where
  "encodeWebhookConfig w = JObject [(''listen'', JString (wh_Listen w)), (''path'', JString (wh_Path w)), (''secret'', JString (wh_Secret w))]"

text \<open>The keys of a map are printed in order, and an empty one is left out.\<close>

definition encodeHeaders :: "(string \<times> string) list \<Rightarrow> json" where
  "encodeHeaders hs = JObject (map (\<lambda>(k, v). (k, JString v)) (sort_key fst hs))"

definition encodeNotifyWebhook :: "NotifyWebhookConfig \<Rightarrow> json" where
  "encodeNotifyWebhook w = JObject ([(''url'', JString (nw_URL w))] @ omitzero [] encodeHeaders ''headers'' (nw_Headers w))"

definition configFields :: "Config \<Rightarrow> (string \<times> json) list" where
  "configFields c = [(''schema_version'', JInt (cfg_SchemaVersion c)),
     (''repo_path'', JString (cfg_RepoPath c)), (''remote'', JString (cfg_Remote c)), (''branch'', JString (cfg_Branch c)),
     (''compose_file'', JString (cfg_ComposeFile c)), (''compose_dir'', JString (cfg_ComposeDir c)),
     (''project_name'', JString (cfg_ProjectName c)), (''ssh_key'', JString (cfg_SSHKey c)), (''state_file'', JString (cfg_StateFile c)),
     (''retry_attempts'', JInt (cfg_RetryAttempts c)), (''retry_delay_seconds'', JInt (cfg_RetryDelaySeconds c)),
     (''docker_timeout_seconds'', JInt (cfg_DockerTimeoutSeconds c)), (''docker_up_timeout_seconds'', JInt (cfg_DockerUpTimeoutSeconds c)),
     (''poll_interval_seconds'', JInt (cfg_PollIntervalSeconds c)), (''monitor_interval_seconds'', JInt (cfg_MonitorIntervalSeconds c)),
     (''deploy_window'', JString (cfg_DeployWindow c)), (''health_watch_seconds'', JInt (cfg_HealthWatchSeconds c)),
     (''health_poll_interval_seconds'', JInt (cfg_HealthPollIntervalSeconds c)),
     (''health_unhealthy_streak'', JInt (cfg_HealthUnhealthyStreak c)), (''health_restart_tolerance'', JInt (cfg_HealthRestartTolerance c)),
     (''discord_webhook'', JString (cfg_DiscordWebhook c)), (''repo_url'', JString (cfg_RepoURL c)),
     (''heartbeat_url'', JString (cfg_HeartbeatURL c)), (''log_format'', JString (cfg_LogFormat c)),
     (''log_level'', JString (cfg_LogLevel c)), (''pprof_listen'', JString (cfg_PprofListen c)),
     (''webhook'', encodeWebhookConfig (cfg_Webhook c)), (''notify_webhook'', encodeNotifyWebhook (cfg_NotifyWebhook c))]"

definition encodeConfig :: "Config \<Rightarrow> json" where
  "encodeConfig c = JObject (configFields c)"

section \<open>The round trip\<close>

text \<open>Headers as a Go map has them: one value per name, here in the order of the names.\<close>

definition orderedHeaders :: "(string \<times> string) list \<Rightarrow> bool" where
  "orderedHeaders hs \<longleftrightarrow> sorted (map fst hs) \<and> distinct (map fst hs)"

lemma decodeHeaders_encode: "distinct (map fst hs) \<Longrightarrow> decodeHeaders (map (\<lambda>(k, v). (k, JString v)) hs) = Some hs"
  by (induction hs) (force split: prod.splits)+

lemma headers_round_trip:
  assumes "orderedHeaders hs"
  shows "\<exists>sub. encodeHeaders hs = JObject sub \<and> decodeHeaders sub = Some hs"
  using assms sort_key_id_if_sorted [of fst hs] by (simp add: orderedHeaders_def encodeHeaders_def decodeHeaders_encode)

lemma configNames_lower:
  "list_all (\<lambda>k. ToLower k = k) (map fst (configFields c))"
  "ToLower ''listen'' = ''listen''" "ToLower ''path'' = ''path''" "ToLower ''secret'' = ''secret''"
  "ToLower ''url'' = ''url''" "ToLower ''headers'' = ''headers''"
  by (simp_all add: configFields_def, code_simp+)

lemma foldKeys_configFields: "foldKeys (configFields c) = configFields c"
proof -
  have "filter (\<lambda>(_, v). v \<noteq> JNull) (configFields c) = configFields c"
    by (simp add: configFields_def encodeWebhookConfig_def encodeNotifyWebhook_def)
  moreover have "map (apfst ToLower) (configFields c) = configFields c"
    using configNames_lower(1) [of c] by (intro map_idI) (auto simp: list_all_iff)
  ultimately show ?thesis by (simp add: foldKeys_def)
qed

lemma distinct_configNames: "distinct (map fst (configFields c))"
  by (simp add: configFields_def)

lemma jlookup_distinct: "distinct (map fst kvs) \<Longrightarrow> (k, v) \<in> set kvs \<Longrightarrow> jlookup k kvs = Some v"
proof (induction kvs)
  case (Cons kv kvs)
  have "jlookup k kvs = None" if "k \<notin> fst ` set kvs" for k
    using that by (induction kvs) auto
  then show ?case using Cons by (cases kv) force
qed simp

lemma webhook_round_trip:
  "decodeWebhook w [(''listen'', JString l), (''path'', JString p), (''secret'', JString s)] = Some \<lparr>wh_Listen = l, wh_Path = p, wh_Secret = s\<rparr>"
  by (simp add: decodeWebhook_def Let_def foldKeys_def configNames_lower ovString_def)

lemma notify_round_trip:
  assumes "orderedHeaders (nw_Headers w)" and "nw_Headers w0 = []"
  shows "\<exists>sub. encodeNotifyWebhook w = JObject sub \<and> decodeNotifyWebhook w0 sub = Some w"
proof -
  obtain sub where sub: "encodeHeaders (nw_Headers w) = JObject sub" "decodeHeaders sub = Some (nw_Headers w)"
    using headers_round_trip [OF assms(1)] by blast
  have "decodeNotifyWebhook w0 ([(''url'', JString (nw_URL w))] @ omitzero [] encodeHeaders ''headers'' (nw_Headers w)) = Some w"
    using sub assms(2)
    by (simp add: decodeNotifyWebhook_def Let_def foldKeys_def omitzero_def configNames_lower ovString_def ovObject_def)
  then show ?thesis by (simp add: encodeNotifyWebhook_def)
qed

text \<open>Every field of the document is found.\<close>

lemma ov_field:
  assumes "distinct (map fst kvs)"
  shows "(k, JString s) \<in> set kvs \<Longrightarrow> ovString kvs k old = Some s"
    and "(k, JInt i) \<in> set kvs \<Longrightarrow> ovInt kvs k n = Some i"
    and "(k, JObject sub) \<in> set kvs \<Longrightarrow> ovObject kvs k x dec = dec sub"
  by (simp_all add: ovString_def ovInt_def ovObject_def jlookup_distinct [OF assms])

lemmas ov_config = ov_field [OF distinct_configNames]

lemma ov_configFields:
  "ovInt (configFields c) ''schema_version'' n = Some (cfg_SchemaVersion c)"
  "ovString (configFields c) ''repo_path'' old = Some (cfg_RepoPath c)"
  "ovString (configFields c) ''remote'' old = Some (cfg_Remote c)"
  "ovString (configFields c) ''branch'' old = Some (cfg_Branch c)"
  "ovString (configFields c) ''compose_file'' old = Some (cfg_ComposeFile c)"
  "ovString (configFields c) ''compose_dir'' old = Some (cfg_ComposeDir c)"
  "ovString (configFields c) ''project_name'' old = Some (cfg_ProjectName c)"
  "ovString (configFields c) ''ssh_key'' old = Some (cfg_SSHKey c)"
  "ovString (configFields c) ''state_file'' old = Some (cfg_StateFile c)"
  "ovInt (configFields c) ''retry_attempts'' n = Some (cfg_RetryAttempts c)"
  "ovInt (configFields c) ''retry_delay_seconds'' n = Some (cfg_RetryDelaySeconds c)"
  "ovInt (configFields c) ''docker_timeout_seconds'' n = Some (cfg_DockerTimeoutSeconds c)"
  "ovInt (configFields c) ''docker_up_timeout_seconds'' n = Some (cfg_DockerUpTimeoutSeconds c)"
  "ovInt (configFields c) ''poll_interval_seconds'' n = Some (cfg_PollIntervalSeconds c)"
  "ovInt (configFields c) ''monitor_interval_seconds'' n = Some (cfg_MonitorIntervalSeconds c)"
  "ovString (configFields c) ''deploy_window'' old = Some (cfg_DeployWindow c)"
  "ovInt (configFields c) ''health_watch_seconds'' n = Some (cfg_HealthWatchSeconds c)"
  "ovInt (configFields c) ''health_poll_interval_seconds'' n = Some (cfg_HealthPollIntervalSeconds c)"
  "ovInt (configFields c) ''health_unhealthy_streak'' n = Some (cfg_HealthUnhealthyStreak c)"
  "ovInt (configFields c) ''health_restart_tolerance'' n = Some (cfg_HealthRestartTolerance c)"
  "ovString (configFields c) ''discord_webhook'' old = Some (cfg_DiscordWebhook c)"
  "ovString (configFields c) ''repo_url'' old = Some (cfg_RepoURL c)"
  "ovString (configFields c) ''heartbeat_url'' old = Some (cfg_HeartbeatURL c)"
  "ovString (configFields c) ''log_format'' old = Some (cfg_LogFormat c)"
  "ovString (configFields c) ''log_level'' old = Some (cfg_LogLevel c)"
  "ovString (configFields c) ''pprof_listen'' old = Some (cfg_PprofListen c)"
  by (rule ov_config, simp add: configFields_def)+

lemma decodeConfig_encodeConfig:
  assumes "orderedHeaders (nw_Headers (cfg_NotifyWebhook c))" and "nw_Headers (cfg_NotifyWebhook base) = []"
  shows "decodeConfig base (encodeConfig c) = Some c"
proof -
  obtain sub where sub: "encodeNotifyWebhook (cfg_NotifyWebhook c) = JObject sub"
      "decodeNotifyWebhook (cfg_NotifyWebhook base) sub = Some (cfg_NotifyWebhook c)"
    using notify_round_trip [OF assms(1,2)] by blast
  have nested: "ovObject (configFields c) ''webhook'' x dec
      = dec [(''listen'', JString (wh_Listen (cfg_Webhook c))), (''path'', JString (wh_Path (cfg_Webhook c))), (''secret'', JString (wh_Secret (cfg_Webhook c)))]"
    "ovObject (configFields c) ''notify_webhook'' y dec' = dec' sub" for x y dec dec'
    by (rule ov_config, simp add: configFields_def encodeWebhookConfig_def sub)+
  show ?thesis
    by (simp only: encodeConfig_def decodeConfig.simps Let_def foldKeys_configFields ov_configFields nested webhook_round_trip sub(2)
        bind.bind_lunit) simp
qed

end
