(* ===== verification/CliMain.thy ===== *)
theory CliMain
  imports Cli Delivery Execx ConfigInit
begin

text \<open>
  The process: \<^verbatim>\<open>cmd/composelock/main.go\<close> and \<^verbatim>\<open>setup.go\<close>, with the construction of the components and
  \<^verbatim>\<open>config.Init\<close>. \<open>Platform\<close> is what the process finds outside: files, locks, the clients of Docker and of
  HTTP, the listener of the webhook server. \<open>runMain\<close> is the whole program: parse, set up, dispatch.
\<close>

text \<open>
  \<open>pf_Stat\<close> is \<^const>\<open>None\<close> for a file that exists; \<open>pf_WriteFile\<close> writes a text; \<open>pf_Marshal\<close> is the indented text of
  a JSON document. \<open>pf_Disk\<close> and \<open>pf_SetDisk\<close> give the files of the state in the world, \<open>pf_Sent\<close> and \<open>pf_SetSent\<close> the memory
  of the notifier. \<open>pf_CliErr\<close>, \<open>pf_InitErr\<close> and \<open>pf_SDK\<close> are the outcomes of connecting to Docker, \<open>pf_Exec\<close> starts a
  process, \<open>pf_Get\<close> and \<open>pf_RoundTrip\<close> make HTTP requests, and \<open>pf_Runtime\<close> holds what dependencies take from the
  runtime: clock, contexts, the mutex of the process; \<open>pf_Flock\<close> is the lock on a path;
  \<open>pf_Listen\<close> serves until the context ends and says how many triggers were run.
\<close>

record 'w Flock =
  fl_TryLock :: "('w, err + bool) state"
  fl_TryRLock :: "('w, err + bool) state"
  fl_Unlock :: "('w, err option) state"

record 'w Platform =
  pf_Parsers :: valueParsers
  pf_Getenv :: string
  pf_Host :: "'w Host"
  pf_Net :: Net
  pf_ParseJSON :: "string \<Rightarrow> err + json"
  pf_EvalSymlinks :: "string \<Rightarrow> ('w, err + string) state"
  pf_Stat :: "string \<Rightarrow> ('w, err option) state"
  pf_WriteFile :: "string \<Rightarrow> string \<Rightarrow> ('w, err option) state"
  pf_Marshal :: "json \<Rightarrow> err + string"
  pf_Disk :: "'w \<Rightarrow> disk"
  pf_SetDisk :: "disk \<Rightarrow> 'w \<Rightarrow> 'w"
  pf_Sent :: "'w \<Rightarrow> (string \<times> time) list"
  pf_SetSent :: "(string \<times> time) list \<Rightarrow> 'w \<Rightarrow> 'w"
  pf_Flock :: "string \<Rightarrow> 'w Flock"
  pf_CliErr :: "err option"
  pf_InitErr :: "err option"
  pf_SDK :: "err + 'w SDK"
  pf_Exec :: "ctx \<Rightarrow> string \<Rightarrow> string list \<Rightarrow> string \<Rightarrow> string list \<Rightarrow> ('w, string \<times> string \<times> err option) state"
  pf_Runtime :: "'w Deps"
  pf_RoundTrip :: "ctx \<Rightarrow> HttpRequest \<Rightarrow> ('w, httpErr + int \<times> string) state"
  pf_ParseSeconds :: "string \<Rightarrow> duration option"
  pf_Get :: "ctx \<Rightarrow> string \<Rightarrow> ('w, httpErr + int \<times> string) state"
  pf_Listen :: "ServerConfig \<Rightarrow> ('w, err option \<times> nat) state"

text \<open>The store, the check of the state file and the notifier of a process, in its world.\<close>

definition onDisk :: "'w Platform \<Rightarrow> (disk, 'a) state \<Rightarrow> ('w, 'a) state" where
  "onDisk p m = State (\<lambda>w. case run_state m (pf_Disk p w) of (a, d) \<Rightarrow> (a, pf_SetDisk p d w))"

definition transport :: "'w Platform \<Rightarrow> 'w Transport" where
  "transport p = \<lparr>post = postSink (pf_RoundTrip p) (pf_ParseSeconds p), tNow = TimeNow (pf_Runtime p), tSleep = SleepCtx (pf_Runtime p)\<rparr>"

definition notifyWith :: "'w Platform \<Rightarrow> Notifier \<Rightarrow> ctx \<Rightarrow> string \<Rightarrow> Embed \<Rightarrow> ('w, bool) state" where
  "notifyWith p n c key emb = do {
     w \<leftarrow> State (\<lambda>w. (w, w));
     r \<leftarrow> SendThrottled (transport p) (n\<lparr>sent := pf_Sent p w\<rparr>) c key emb;
     State (\<lambda>w. (fst r, pf_SetSent p (sent (snd r)) w))
   }"

section \<open>Init\<close>

definition Init :: "'w Platform \<Rightarrow> string \<Rightarrow> bool \<Rightarrow> Overrides \<Rightarrow> ('w, err + Config) state" where
  "Init p path force ov = do {
     blocked \<leftarrow> (if force then ret None
       else do {
         r \<leftarrow> pf_Stat p path;
         ret (case r of
            None \<Rightarrow> Some (errorf (''config file '' @ path @ '' already exists (use --force to overwrite)''))
          | Some e \<Rightarrow> if errIs e ErrNotExist then None else Some (wrapf (''checking config file '' @ path @ '': '') e))
       });
     case blocked of
       Some e \<Rightarrow> ret (Inl e)
     | None \<Rightarrow>
         (case Apply Default ov of
            (_, Some e) \<Rightarrow> ret (Inl e)
          | (cfg, None) \<Rightarrow>
              (case pf_Marshal p (encodeConfig cfg) of
                 Inl e \<Rightarrow> ret (Inl (wrapf ''marshaling default config: '' e))
               | Inr data \<Rightarrow> do {
                   r \<leftarrow> pf_WriteFile p path (data @ [CHR 0x0A]);
                   ret (case r of Some e \<Rightarrow> Inl (wrapf (''writing config file '' @ path @ '': '') e) | None \<Rightarrow> Inr cfg)
                 }))
   }"

definition initState :: "'w Platform \<Rightarrow> string \<Rightarrow> bool \<Rightarrow> ('w, int \<times> printed list) state" where
  "initState p statePath force = do {
     r \<leftarrow> pf_Stat p statePath;
     if r = None \<and> \<not> force
     then ret (2, [ErrOut (''state file '' @ statePath @ '' already exists (use --force to overwrite)'')])
     else case r of
       Some e \<Rightarrow>
         if \<not> errIs e ErrNotExist then ret (2, [ErrOut (errText e)])
         else do {
           s \<leftarrow> onDisk p (FileStore_Save statePath New);
           ret (case s of Some e \<Rightarrow> (2, [ErrOut (errText e)]) | None \<Rightarrow> (0, [Out (''wrote '' @ statePath)]))
         }
     | None \<Rightarrow> do {
         s \<leftarrow> onDisk p (FileStore_Save statePath New);
         ret (case s of Some e \<Rightarrow> (2, [ErrOut (errText e)]) | None \<Rightarrow> (0, [Out (''wrote '' @ statePath)]))
       }
   }"

definition cmdInit :: "'w Platform \<Rightarrow> cliFlags \<Rightarrow> ('w, int \<times> printed list) state" where
  "cmdInit p f = do {
     let path = ResolvePath (pf_Getenv p) (fString f ''config'');
     r \<leftarrow> Init p path (fBool f ''force'') (overrides f);
     case r of
       Inl e \<Rightarrow> ret (2, [ErrOut (errText e)])
     | Inr cfg \<Rightarrow>
         if fBool f ''with-state''
         then do {
           q \<leftarrow> initState p (cfg_StateFile cfg) (fBool f ''force'');
           ret (fst q, Out (''wrote '' @ path) # snd q)
         }
         else ret (0, [Out (''wrote '' @ path)])
   }"

section \<open>Setup\<close>

text \<open>\<^verbatim>\<open>heartbeat.New\<close> and \<^verbatim>\<open>Pinger.Ping\<close>: without an address there is no ping, and an error is only logged.\<close>

definition Ping :: "'w Platform \<Rightarrow> string \<Rightarrow> ctx \<Rightarrow> ('w, unit) state" where
  "Ping p pingURL c = (if pingURL = [] then ret () else do { _ \<leftarrow> pingResult (pf_Get p) c pingURL; ret () })"

definition loadConfig :: "'w Platform \<Rightarrow> cliFlags \<Rightarrow> ('w, err + Config) state" where
  "loadConfig p f = do {
     r \<leftarrow> Config_Load (pf_Host p) (pf_Net p) (pf_ParseJSON p) (pf_EvalSymlinks p)
            (ResolvePath (pf_Getenv p) (fString f ''config'')) (overrides f);
     ret (case r of Inl e \<Rightarrow> Inl (wrapf ''loading config: '' e) | Inr cfg \<Rightarrow> Inr cfg)
   }"

text \<open>\<^verbatim>\<open>execx.OSRunner\<close>, whose standard error the git client does not look at.\<close>

definition osRunner :: "'w Platform \<Rightarrow> 'w Runner" where
  "osRunner p c dir env name args = do { r \<leftarrow> OSRunner_Run (pf_Exec p) c dir env name args; ret (fst r, snd (snd r)) }"

definition buildDeps :: "'w Platform \<Rightarrow> Config \<Rightarrow> err + 'w Deps" where
  "buildDeps p cfg =
     (let dockerTimeout = seconds (cfg_DockerTimeoutSeconds cfg); rt = pf_Runtime p
      in case NewService (pf_CliErr p) (pf_InitErr p) (pf_SDK p) (CtxErr rt) dockerTimeout (seconds (cfg_DockerUpTimeoutSeconds cfg)) of
           Inl e \<Rightarrow> Inl (wrapf ''initializing compose service: '' e)
         | Inr composeSvc \<Rightarrow>
             let n = NewNotifier (pf_Marshal p) (cfg_DiscordWebhook cfg) (nw_URL (cfg_NotifyWebhook cfg)) (nw_Headers (cfg_NotifyWebhook cfg))
             in Inr (rt\<lparr>
                  Cfg := cfg,
                  Git := \<lparr>Run = osRunner p, RepoPath = cfg_RepoPath cfg, Remote = cfg_Remote cfg,
                           Branch = cfg_Branch cfg, SSHKey = cfg_SSHKey cfg\<rparr>,
                  LoadProject := Service_LoadProject composeSvc,
                  Pull := Service_Pull composeSvc,
                  Up := Service_Up composeSvc,
                  Down := Service_Down composeSvc,
                  TakeSnapshot := Snapshotter_Snapshot composeSvc (TimeNow rt) dockerTimeout,
                  StoreLoad := onDisk p (FileStore_Load (cfg_StateFile cfg)),
                  StoreSave := (\<lambda>st. onDisk p (FileStore_Save (cfg_StateFile cfg) st)),
                  NotifierEnabled := Enabled n,
                  NotifierSendThrottled := notifyWith p n,
                  HeartbeatPing := Ping p (cfg_HeartbeatURL cfg),
                  Lock := None\<rparr>))"

text \<open>Commands that only read the state share the lock; the others need it for themselves.\<close>

definition sharedLock :: "'w Flock \<Rightarrow> ('w, err + bool) state \<times> ('w, err option) state" where
  "sharedLock l = (fl_TryRLock l, fl_Unlock l)"

definition stateLock :: "'w Flock \<Rightarrow> bool \<Rightarrow> ('w, err + bool) state \<times> ('w, err option) state" where
  "stateLock l writesState = (if writesState then (fl_TryLock l, fl_Unlock l) else sharedLock l)"

definition setupDeps :: "'w Platform \<Rightarrow> cliFlags \<Rightarrow> bool \<Rightarrow> ('w, (int \<times> printed list) + 'w Deps) state" where
  "setupDeps p f writesState = do {
     r \<leftarrow> loadConfig p f;
     case r of
       Inl e \<Rightarrow> ret (Inl (2, [ErrOut (errText e)]))
     | Inr cfg \<Rightarrow>
         (case buildDeps p cfg of
            Inl e \<Rightarrow> ret (Inl (2, [ErrOut (errText e)]))
          | Inr d \<Rightarrow> do {
              s \<leftarrow> StoreLoad d;
              case s of
                Inl e \<Rightarrow> ret (Inl (2, [ErrOut (''reading state: '' @ errText e)]))
              | Inr _ \<Rightarrow> do {
                  q \<leftarrow> (if writesState then onDisk p (FileStore_CheckWritable (cfg_StateFile cfg)) else ret None);
                  ret (case q of
                     Some e \<Rightarrow> Inl (2, [ErrOut (''state file unwritable: '' @ errText e)])
                   | None \<Rightarrow> Inr (d\<lparr>Lock := Some (stateLock (pf_Flock p (cfg_StateFile cfg @ ''.lock'')) writesState)\<rparr>))
                }
            })
   }"

section \<open>Dispatch\<close>

fun webhookRuns :: "'w Deps \<Rightarrow> ctx \<Rightarrow> nat \<Rightarrow> time option \<Rightarrow> ('w, time option) state" where
  "webhookRuns d c 0 timer = ret timer"
| "webhookRuns d c (Suc n) timer = do { timer' \<leftarrow> webhookRun d c timer; webhookRuns d c n timer' }"

definition cmdWebhook :: "(ServerConfig \<Rightarrow> ('w, err option \<times> nat) state) \<Rightarrow> 'w Deps \<Rightarrow> ctx \<Rightarrow> ('w, int) state" where
  "cmdWebhook listen d c = do {
     r \<leftarrow> listen (serverConfig (Cfg d));
     _ \<leftarrow> webhookRuns d c (snd r) None;
     ret (if fst r = None then 0 else 1)
   }"

text \<open>The switch of \<^verbatim>\<open>run\<close>, after the setup.\<close>

definition dispatch ::
  "(State \<Rightarrow> err + string) \<Rightarrow> (ServerConfig \<Rightarrow> ('w, err option \<times> nat) state) \<Rightarrow> string \<Rightarrow> string \<Rightarrow> cliFlags \<Rightarrow> ctx \<Rightarrow> 'w Deps \<Rightarrow>
     'w \<Rightarrow> ((int \<times> printed list) \<times> 'w) option" where
  "dispatch marshalState listen configPath command f c d w =
     (if command = ''sync'' then Some (apfst (\<lambda>code. (code, [])) (run_state (cmdReconcile d c ''cli'' (fBool f ''dry-run'') (fBool f ''force'')) w))
      else if command = ''check'' then Some (apfst (\<lambda>code. (code, [])) (run_state (cmdReconcile d c ''cli'' True (fBool f ''force'')) w))
      else if command = ''status'' then Some (run_state (cmdStatus marshalState d c configPath) w)
      else if command = ''poll'' then cmdPoll d c w
      else if command = ''webhook'' then Some (apfst (\<lambda>code. (code, [])) (run_state (cmdWebhook listen d c) w))
      else if command = ''pause'' then cmdPause d c (fDuration f ''for'') (fString f ''reason'') w
      else if command = ''resume'' then cmdResume d c w
      else Some ((2, [ErrOut (''unknown command '' @ Quote command)]), w))"

definition versionLine :: printed where
  "versionLine = Out ''composelock dev (commit none, built unknown)''"

definition defaultCommand :: "string \<Rightarrow> cliFlags \<Rightarrow> string" where
  "defaultCommand command f = (if command = [] then (if fBool f ''init'' then ''init'' else ''sync'') else command)"

definition readOnly :: "string \<Rightarrow> cliFlags \<Rightarrow> bool" where
  "readOnly command f \<longleftrightarrow> command = ''status'' \<or> command = ''check'' \<or> (command = ''sync'' \<and> fBool f ''dry-run'')"

definition runMain :: "'w Platform \<Rightarrow> string list \<Rightarrow> 'w \<Rightarrow> ((int \<times> printed list) \<times> 'w) option" where
  "runMain p args w =
     (case parseArgs (pf_Parsers p) Map.empty [] args of
        Inl ErrHelp \<Rightarrow> Some ((0, []), w)
      | Inl ErrBadFlag \<Rightarrow> Some ((2, []), w)
      | Inr (command0, f) \<Rightarrow>
          if fBool f ''version'' then Some ((0, [versionLine]), w)
          else let command = defaultCommand command0 f
               in if command = ''version'' then Some ((0, [versionLine]), w)
                  else if command = ''init'' then Some (run_state (cmdInit p f) w)
                  else (let warning = (if fBool f ''with-state''
                               then [ErrOut (''warning: -with-state only applies to the init command, ignoring it for '' @ command)] else [])
                        in case checkFlagsFor command f of
                             Some e \<Rightarrow> Some ((2, warning @ [ErrOut (errText e)]), w)
                           | None \<Rightarrow>
                               (case run_state (setupDeps p f (\<not> readOnly command f)) w of
                                  (Inl (code, out), w1) \<Rightarrow> Some ((code, warning @ out), w1)
                                | (Inr d, w1) \<Rightarrow>
                                    map_option (apfst (apsnd (\<lambda>out. warning @ out)))
                                      (dispatch (pf_Marshal p \<circ> encodeState) (pf_Listen p)
                                         (ResolvePath (pf_Getenv p) (fString f ''config'')) command f CallerCtx d w1))))"

section \<open>Read-only commands\<close>

text \<open>Everything but compose up, pull and down.\<close>

abbreviation sparing :: "event \<Rightarrow> bool" where
  "sparing \<equiv> permits (\<lambda>_. True) (\<lambda>_. True) False False False True"

lemma keeps_sparing_Reconcile: "op_DryRun opts \<Longrightarrow> keeps (extends es0 sparing) (Reconcile (traced d) c opts)"
  by (rule dry_run.keeps_Reconcile)
    (simp_all add: storeGives_def historyGrows_def unrestricted_def keeps_traced_run)

lemma keeps_sendNotification:
  "(\<And>k. ok (EvSend k)) \<Longrightarrow> keeps (extends es0 ok) (sendNotification (traced d) c result)"
  unfolding sendNotification_def by (intro keeps_intros) (simp add: traced_def keeps_logged_extends)

lemma keeps_dry_cmdReconcile: "keeps (extends es0 sparing) (cmdReconcile (traced d) c trigger True force)"
  unfolding cmdReconcile_def by (intro keeps_intros keeps_sparing_Reconcile keeps_sendNotification) simp_all

text \<open>Events of a command that only looks: queries and the lock.\<close>

abbreviation lockOnly :: "event \<Rightarrow> bool" where
  "lockOnly \<equiv> permits (\<lambda>_. False) (\<lambda>_. False) False False False True"

lemma keeps_withStateLock:
  assumes "keeps (extends es0 lockOnly) fn"
  shows "keeps (extends es0 lockOnly) (withStateLock (traced d) fn)"
proof (cases "Lock (traced d)")
  case None
  then show ?thesis unfolding withStateLock_def by (auto intro!: keeps_intros assms)
next
  case (Some p)
  then obtain tryLock unlock where p: "Lock (traced d) = Some (tryLock, unlock)" by (cases p) auto
  have "keeps (extends es0 lockOnly) tryLock" "keeps (extends es0 lockOnly) unlock"
    using keeps_lock_extends [OF _ _ p] by simp_all
  then show ?thesis unfolding withStateLock_def p by (auto intro!: keeps_intros assms split: sum.split)
qed

lemma keeps_cmdStatus: "keeps (extends es0 lockOnly) (cmdStatus marshalState (traced d) c path)"
  unfolding cmdStatus_def readStatus_def statusOfStack_def printStackContainers_def StacksFor_def
  by (intro keeps_intros keeps_withStateLock acts.reads)

text \<open>The status command only looks: it checks nothing out, saves nothing and touches no container; all it
  does besides queries is to take and release the state lock.\<close>

theorem status_only_looks:
  assumes "run_state (cmdStatus marshalState (traced d) c path) ([], w) = ((code, out), (es, w'))" and "e \<in> set es"
  shows "\<not> (\<exists>args. e = EvGit args \<and> \<not> gitQuery args) \<and> \<not> (\<exists>st ok. e = EvSave st ok)
    \<and> e \<noteq> EvUp \<and> e \<noteq> EvPull \<and> (\<forall>n. e \<noteq> EvDown n)"
proof -
  have "lockOnly e" using keepsD [OF keeps_cmdStatus [where ?es0.0 = "[]"] _ assms(1)] assms(2) by (simp add: list_all_iff)
  then show ?thesis by (cases e) auto
qed

theorem status_only_looks_witness:
  "\<exists>code out es. run_state (cmdStatus (\<lambda>_. Inr ''{}'') (traced (demoDeps demoState None demoSnapshot)) CallerCtx ''c.json'') ([], ()) = ((code, out), (es, ()))
     \<and> code = 0 \<and> EvLock True \<in> set es \<and> EvUp \<notin> set es"
proof -
  let ?run = "run_state (cmdStatus (\<lambda>_. Inr ''{}'') (traced (demoDeps demoState None demoSnapshot)) CallerCtx ''c.json'') ([], ())"
  obtain code out es where run: "?run = ((code, out), (es, ()))" by (cases ?run) auto
  have "fst (fst ?run) = 0" "EvLock True \<in> set (fst (snd ?run))" by code_simp+
  with status_only_looks [OF run, of EvUp] run show ?thesis by auto
qed

text \<open>The commands that share the lock leave Docker alone: whatever the flags, a status, a check and a
  dry run never start, pull or tear down anything.\<close>

lemma readOnly_sparing:
  assumes "readOnly command f"
    and "dispatch marshalState listen path command f c (traced d) ([], w) = Some (r, (es, w'))"
  shows "list_all sparing es"
proof (cases "command = ''status''")
  case True
  with assms(2) have "run_state (cmdStatus marshalState (traced d) c path) ([], w) = (r, (es, w'))"
    by (simp add: dispatch_def)
  from keepsD [OF keeps_cmdStatus [where ?es0.0 = "[]"] _ this] have "list_all lockOnly es" by simp
  then show ?thesis by (rule list.pred_mono_strong) (auto elim!: permits.elims)
next
  case False
  with assms obtain code where "run_state (cmdReconcile (traced d) c ''cli'' True (fBool f ''force'')) ([], w) = (code, (es, w'))"
    by (auto simp: dispatch_def readOnly_def apfst_def map_prod_def split: if_splits prod.splits)
  from keepsD [OF keeps_dry_cmdReconcile [where ?es0.0 = "[]"] _ this] show ?thesis by simp
qed

theorem read_only_commands_spare_docker:
  assumes "readOnly command f"
    and "dispatch marshalState listen path command f c (traced d) ([], w) = Some (r, (es, w'))"
  shows "EvUp \<notin> set es \<and> EvPull \<notin> set es \<and> EvDown n \<notin> set es"
  using readOnly_sparing [OF assms] by (auto simp: list_all_iff)

theorem read_only_commands_spare_docker_witness:
  "\<exists>r es w. dispatch (\<lambda>_. Inr []) (\<lambda>_. ret (None, 0)) [] ''check'' Map.empty CallerCtx
       (traced (repoDeps ''docker-compose.yml'' (upFailsAt ''bbbb''))) ([], repoAt demoState) = Some (r, (es, w))
     \<and> es \<noteq> [] \<and> EvUp \<notin> set es"
proof -
  let ?d = "repoDeps ''docker-compose.yml'' (upFailsAt ''bbbb'')"
  let ?run = "dispatch (\<lambda>_. Inr []) (\<lambda>_. ret (None, 0)) [] ''check'' Map.empty CallerCtx (traced ?d) ([], repoAt demoState)"
  let ?check = "run_state (cmdReconcile (traced ?d) CallerCtx ''cli'' True (fBool Map.empty ''force'')) ([], repoAt demoState)"
  have some: "fst (snd ?check) \<noteq> []" by code_simp
  have run: "?run = Some (apfst (\<lambda>code. (code, [])) ?check)" by (simp add: dispatch_def)
  obtain code es w where check: "?check = (code, (es, w))" by (cases ?check) (auto simp only: prod.inject)
  have res: "?run = Some ((code, []), (es, w))" unfolding run check by simp
  have ro: "readOnly ''check'' Map.empty" by (simp add: readOnly_def)
  have "es \<noteq> []" using some unfolding check by simp
  with res read_only_commands_spare_docker [OF ro res] show ?thesis by (intro exI conjI) auto
qed

section \<open>Refusals\<close>

text \<open>The daemons refuse one-off flags before they do anything: with \<^verbatim>\<open>-dry-run\<close> or \<^verbatim>\<open>-force\<close>, \<^verbatim>\<open>poll\<close> and
  \<^verbatim>\<open>webhook\<close> exit with code 2 and the world is as it was.\<close>

theorem daemons_refuse_one_off_flags:
  assumes "parseArgs (pf_Parsers p) Map.empty [] args = Inr (command, f)" and "command = ''poll'' \<or> command = ''webhook''"
    and "fBool f ''dry-run'' \<or> fBool f ''force''" and "\<not> fBool f ''version''"
  shows "\<exists>out. runMain p args w = Some ((2, out), w)"
proof -
  obtain e where e: "checkFlagsFor command f = Some e" using daemon_flags [OF assms(2)] assms(3) by fastforce
  have "defaultCommand command f = command" "command \<noteq> ''version''" "command \<noteq> ''init''"
    using assms(2) by (auto simp: defaultCommand_def)
  then show ?thesis unfolding runMain_def by (simp add: assms(1,4) e Let_def)
qed

text \<open>What \<open>setupDeps\<close> has seen when it succeeds, and what it hands out.\<close>

lemma Load_validated:
  "run_state (Config_Load host net parseJSON evalSymlinks path ov) v = (Inr cfg, v') \<Longrightarrow>
     \<exists>w1 w2. run_state (Validate host net cfg) w1 = (None, w2)"
  by (auto simp: Config_Load_def Let_def split: prod.splits sum.splits option.splits if_splits)

lemma buildDeps_InrD:
  "buildDeps p cfg = Inr d0 \<Longrightarrow> Cfg d0 = cfg \<and> StoreLoad d0 = onDisk p (FileStore_Load (cfg_StateFile cfg))"
  by (auto simp: buildDeps_def Let_def split: sum.splits)

lemma setupDeps_InrD:
  assumes "run_state (setupDeps p f writesState) w = (Inr d, w')"
  obtains d0 w1 w2 w3 st where "run_state (loadConfig p f) w = (Inr (Cfg d), w1)" and "buildDeps p (Cfg d) = Inr d0"
    and "run_state (onDisk p (FileStore_Load (cfg_StateFile (Cfg d)))) w1 = (Inr st, w2)"
    and "writesState \<Longrightarrow> run_state (onDisk p (FileStore_CheckWritable (cfg_StateFile (Cfg d)))) w2 = (None, w3)"
    and "d = d0\<lparr>Lock := Some (stateLock (pf_Flock p (cfg_StateFile (Cfg d) @ ''.lock'')) writesState)\<rparr>"
proof -
  obtain cfg w1 where cfg: "run_state (loadConfig p f) w = (Inr cfg, w1)"
    using assms by (cases "run_state (loadConfig p f) w") (auto simp: setupDeps_def split: sum.splits)
  obtain d0 where d0: "buildDeps p cfg = Inr d0"
    using assms cfg by (cases "buildDeps p cfg") (auto simp: setupDeps_def)
  note fields = buildDeps_InrD [OF d0]
  obtain st w2 where st: "run_state (StoreLoad d0) w1 = (Inr st, w2)"
    using assms cfg d0 by (cases "run_state (StoreLoad d0) w1") (auto simp: setupDeps_def split: sum.splits)
  define q w3 where "q = fst (run_state (if writesState then onDisk p (FileStore_CheckWritable (cfg_StateFile cfg)) else ret None) w2)"
    and "w3 = snd (run_state (if writesState then onDisk p (FileStore_CheckWritable (cfg_StateFile cfg)) else ret None) w2)"
  then have q: "run_state (if writesState then onDisk p (FileStore_CheckWritable (cfg_StateFile cfg)) else ret None) w2 = (q, w3)" by simp
  have run: "run_state (setupDeps p f writesState) w
      = (case q of Some e \<Rightarrow> Inl (2, [ErrOut (''state file unwritable: '' @ errText e)])
           | None \<Rightarrow> Inr (d0\<lparr>Lock := Some (stateLock (pf_Flock p (cfg_StateFile cfg @ ''.lock'')) writesState)\<rparr>), w3)"
    by (simp add: setupDeps_def cfg d0 st q)
  with assms have none: "q = None" and d: "d = d0\<lparr>Lock := Some (stateLock (pf_Flock p (cfg_StateFile cfg @ ''.lock'')) writesState)\<rparr>"
    by (cases q; simp)+
  have c: "Cfg d = cfg" by (simp add: d fields)
  have "run_state (onDisk p (FileStore_Load (cfg_StateFile cfg))) w1 = (Inr st, w2)" using st fields by simp
  moreover have "run_state (onDisk p (FileStore_CheckWritable (cfg_StateFile cfg))) w2 = (None, w3)" if writesState
    using q none that by simp
  ultimately show ?thesis using that [unfolded c, OF cfg d0 _ _ d] by blast
qed

text \<open>C28: a command runs only on a validated configuration, on a state that can be read, and with the lock of its state
  file. When the arguments are well-formed and the setup succeeds, the process carries the command out, on dependencies whose
  configuration has passed validation; the state file has been read, and tried for writing unless the command shares the lock;
  git runs in the configured repository with redacted errors, compose with the configured time limits; the
  lock is the one beside the state file, shared (\<^verbatim>\<open>TryRLock\<close>) by \<^verbatim>\<open>status\<close>, \<^verbatim>\<open>check\<close> and a dry
  \<^verbatim>\<open>sync\<close>, and exclusive (\<^verbatim>\<open>TryLock\<close>) for all other commands; and the commands that share it start, pull and tear down nothing.\<close>

theorem setup_validates_and_locks:
  assumes "parseArgs (pf_Parsers p) Map.empty [] args = Inr (command0, f)" and "\<not> fBool f ''version''"
    and "command = defaultCommand command0 f" and "command \<notin> {''version'', ''init''}" and "checkFlagsFor command f = None"
    and "run_state (setupDeps p f (\<not> readOnly command f)) w = (Inr d, w1)"
  defines "path \<equiv> ResolvePath (pf_Getenv p) (fString f ''config'')"
    and "shared \<equiv> command \<in> {''status'', ''check''} \<or> command = ''sync'' \<and> fBool f ''dry-run''"
    and "flock \<equiv> pf_Flock p (cfg_StateFile (Cfg d) @ ''.lock'')"
  shows "(\<exists>warning. runMain p args w
            = map_option (apfst (apsnd ((@) warning)))
                (dispatch (pf_Marshal p \<circ> encodeState) (pf_Listen p) path command f CallerCtx d w1))
    \<and> (\<exists>v v'. run_state (Validate (pf_Host p) (pf_Net p) (Cfg d)) v = (None, v'))
    \<and> (\<exists>v st v'. run_state (onDisk p (FileStore_Load (cfg_StateFile (Cfg d)))) v = (Inr st, v'))
    \<and> (\<not> shared \<longrightarrow> (\<exists>v v'. run_state (onDisk p (FileStore_CheckWritable (cfg_StateFile (Cfg d)))) v = (None, v')))
    \<and> Lock d = Some (if shared then fl_TryRLock flock else fl_TryLock flock, fl_Unlock flock)
    \<and> StoreLoad d = onDisk p (FileStore_Load (cfg_StateFile (Cfg d))) \<and> StoreSave d = (\<lambda>st. onDisk p (FileStore_Save (cfg_StateFile (Cfg d)) st))
    \<and> RepoPath (Git d) = cfg_RepoPath (Cfg d) \<and> Branch (Git d) = cfg_Branch (Cfg d) \<and> Run (Git d) = osRunner p
    \<and> (\<exists>s. Up d = Service_Up s \<and> Pull d = Service_Pull s \<and> Down d = Service_Down s
          \<and> cc_upTimeout s = seconds (cfg_DockerUpTimeoutSeconds (Cfg d)) \<and> cc_timeout s = seconds (cfg_DockerTimeoutSeconds (Cfg d)))
    \<and> (shared \<longrightarrow> (\<forall>listen v r es v' n. dispatch (pf_Marshal p \<circ> encodeState) listen path command f CallerCtx (traced d) ([], v) = Some (r, (es, v'))
          \<longrightarrow> EvUp \<notin> set es \<and> EvPull \<notin> set es \<and> EvDown n \<notin> set es))"
proof -
  have shared: "readOnly command f = shared" by (auto simp: readOnly_def shared_def)
  have main: "\<exists>warning. runMain p args w
      = map_option (apfst (apsnd ((@) warning))) (dispatch (pf_Marshal p \<circ> encodeState) (pf_Listen p) path command f CallerCtx d w1)"
    using assms(4) unfolding runMain_def path_def
    by (intro exI [of _ "if fBool f ''with-state''
        then [ErrOut (''warning: -with-state only applies to the init command, ignoring it for '' @ command)] else []"])
      (simp add: assms(1,2,5,6) assms(3) [symmetric] Let_def)
  obtain d0 w1 w2 w3 st where cfg: "run_state (loadConfig p f) w = (Inr (Cfg d), w1)" and d0: "buildDeps p (Cfg d) = Inr d0"
      and load: "run_state (onDisk p (FileStore_Load (cfg_StateFile (Cfg d)))) w1 = (Inr st, w2)"
      and writable: "\<not> shared \<Longrightarrow> run_state (onDisk p (FileStore_CheckWritable (cfg_StateFile (Cfg d)))) w2 = (None, w3)"
      and d: "d = d0\<lparr>Lock := Some (stateLock flock (\<not> shared))\<rparr>"
    by (rule setupDeps_InrD [OF assms(6), unfolded shared, folded flock_def]) (rule that; blast)
  have "\<exists>v v'. run_state (Validate (pf_Host p) (pf_Net p) (Cfg d)) v = (None, v')"
    using cfg by (auto simp: loadConfig_def split: prod.splits sum.splits intro!: Load_validated)
  moreover have "Lock d = Some (if shared then fl_TryRLock flock else fl_TryLock flock, fl_Unlock flock)"
    using arg_cong [OF d, of Lock] by (simp add: stateLock_def sharedLock_def)
  moreover have "RepoPath (Git d0) = cfg_RepoPath (Cfg d)" "Branch (Git d0) = cfg_Branch (Cfg d)" "Run (Git d0) = osRunner p"
      "StoreLoad d0 = onDisk p (FileStore_Load (cfg_StateFile (Cfg d)))" "StoreSave d0 = (\<lambda>st. onDisk p (FileStore_Save (cfg_StateFile (Cfg d)) st))"
    using d0 by (auto simp: buildDeps_def Let_def split: sum.splits)
  moreover have "\<exists>s. Up d0 = Service_Up s \<and> Pull d0 = Service_Pull s \<and> Down d0 = Service_Down s
      \<and> cc_upTimeout s = seconds (cfg_DockerUpTimeoutSeconds (Cfg d)) \<and> cc_timeout s = seconds (cfg_DockerTimeoutSeconds (Cfg d))"
    using d0 by (auto simp: buildDeps_def NewService_def Let_def split: sum.splits option.splits)
  moreover have "EvUp \<notin> set es \<and> EvPull \<notin> set es \<and> EvDown n \<notin> set es"
    if shared and "dispatch (pf_Marshal p \<circ> encodeState) listen path command f CallerCtx (traced d) ([], v) = Some (r, (es, v'))" for listen v r es v' n
    using readOnly_sparing [OF _ that(2)] that(1) shared by (auto simp: list_all_iff)
  moreover have "Git d = Git d0" "Up d = Up d0" "Pull d = Pull d0" "Down d = Down d0" "StoreLoad d = StoreLoad d0" "StoreSave d = StoreSave d0"
    using d by (cases d0; simp)+
  ultimately show ?thesis using main load writable by simp blast
qed

section \<open>The file of the init command\<close>

lemma Apply_notify: "cfg_NotifyWebhook (fst (Apply c ov)) = cfg_NotifyWebhook c"
  by (simp add: Apply_def Let_def split: prod.split)

text \<open>C18: the file that the init command writes means what the command says: it is the text of a document, and reading
  this document over the defaults of a load gives the very configuration that was reported, with every
  setting given on the command line.\<close>

theorem init_file_round_trip:
  assumes "run_state (Init p path force ov) w = (Inr cfg, w')"
  shows "decodeConfig loadDefaults (encodeConfig cfg) = Some cfg \<and> Apply Default ov = (cfg, None)
    \<and> (\<exists>data w1. pf_Marshal p (encodeConfig cfg) = Inr data \<and> run_state (pf_WriteFile p path (data @ [CHR 0x0A])) w1 = (None, w'))"
proof -
  from assms have ap: "Apply Default ov = (cfg, None)"
      and "\<exists>data w1. pf_Marshal p (encodeConfig cfg) = Inr data \<and> run_state (pf_WriteFile p path (data @ [CHR 0x0A])) w1 = (None, w')"
    unfolding Init_def Let_def by (auto split: prod.splits option.splits sum.splits if_splits; blast)+
  moreover have "nw_Headers (cfg_NotifyWebhook cfg) = []" using Apply_notify [of Default ov] ap by (simp add: Default_def)
  then have "decodeConfig loadDefaults (encodeConfig cfg) = Some cfg"
    by (intro decodeConfig_encodeConfig) (simp_all add: orderedHeaders_def loadDefaults_def Default_def)
  ultimately show ?thesis by blast
qed

section \<open>The poll loop\<close>

lemma pollLoop_keeps:
  assumes "pollLoop d c interval w = Some w'" and "I w"
    and "keeps I (pollTick d c)" and "keeps I (ended d c)" and "keeps I (SleepCtx d c interval)"
  shows "I w'"
proof -
  have "d' = d \<and> c' = c \<and> i' = interval \<longrightarrow> I w \<longrightarrow> I w'" if "pollLoop d' c' i' w = Some w'" for d' c' i' w w'
    using that
  proof (rule pollLoop.raw_induct [rotated], intro impI, elim conjE)
    fix f d' c' i' w w'
    assume IH: "\<And>d' c' i' w w'. f d' c' i' w = Some w' \<Longrightarrow> d' = d \<and> c' = c \<and> i' = interval \<longrightarrow> I w \<longrightarrow> I w'"
      and body: "(case run_state (pollTick d' c' \<bind> (\<lambda>_. ended d' c')) w of (over, w1) \<Rightarrow>
          if over then Some w1 else case run_state (SleepCtx d' c' i') w1 of (elapsed, w2) \<Rightarrow>
            if elapsed then f d' c' i' w2 else Some w2) = Some w'"
      and [simp]: "d' = d" "c' = c" "i' = interval" and "I w"
    obtain over w1 where one: "run_state (pollTick d c \<bind> (\<lambda>_. ended d c)) w = (over, w1)" by fastforce
    have "I w1" using keepsD [OF keeps_bind [OF assms(3,4)] \<open>I w\<close> one] .
    obtain el w2 where two: "run_state (SleepCtx d c interval) w1 = (el, w2)" by fastforce
    have "I w2" using keepsD [OF assms(5) \<open>I w1\<close> two] .
    then show "I w'" using body one two \<open>I w1\<close> IH [of d c interval w2 w'] by (auto split: if_splits)
  qed
  with assms(1,2) show ?thesis by blast
qed

text \<open>The polling daemon never corrupts its state: however many ticks it runs, every state it saves is
  well-formed, provided the states it loads are.\<close>

theorem poll_saves_wf_states:
  assumes "cmdPoll (traced d) c ([], w) = Some (r, (es, w'))"
    and "\<forall>w st w'. run_state (StoreLoad d) w = (Inr st, w') \<longrightarrow> wfState st"
    and "EvSave s ok \<in> set es"
  shows "wfState s"
proof -
  let ?I = "extends [] (permits wfState (\<lambda>_. True) True True True True)"
  have "keeps ?I (Reconcile (traced d) c opts)" for opts
  proof (rule wf_run.keeps_Reconcile)
    show "storeGives (traced d) ?I wfState"
      using assms(2) by (auto simp: storeGives_def traced_def quiet_def split: prod.splits)
  qed (simp_all add: historyGrows_def wfState_Record unrestricted_def keeps_traced_run)
  then have tick: "keeps ?I (pollTick (traced d) c)"
    unfolding pollTick_def asyncSend_def by (intro keeps_intros keeps_sendNotification) simp_all
  from assms(1,3) obtain interval where "pollLoop (traced d) c interval ([], w) = Some (es, w')"
    by (auto simp: cmdPoll_def Let_def split: if_splits)
  from pollLoop_keeps [OF this _ tick wf_run.keeps_ended wf_run.sleep_ctx] have "?I (es, w')" by simp
  then show ?thesis using assms(3) by (auto simp: list_all_iff)
qed

section \<open>Witnesses\<close>

definition emptyDisk :: disk where
  "emptyDisk = \<lparr>files = Map.empty, faults = [], unreadable = Map.empty, past = []\<rparr>"

definition demoPlatform :: "disk Platform" where
  "demoPlatform = \<lparr>pf_Parsers = demoParsers, pf_Getenv = [], pf_Host = demoConfigHost, pf_Net = demoNet,
     pf_ParseJSON = (\<lambda>_. Inr (JObject [(''repo_path'', JString ''/r''), (''project_name'', JString ''web''),
       (''compose_file'', JString ''docker-compose.yml''), (''state_file'', JString ''/s.json'')])),
     pf_EvalSymlinks = (\<lambda>p. ret (Inr p)), pf_Stat = (\<lambda>_. ret None), pf_WriteFile = (\<lambda>_ _. ret None),
     pf_Marshal = (\<lambda>_. Inr ''{}''), pf_Disk = id, pf_SetDisk = (\<lambda>d w. d), pf_Sent = (\<lambda>_. []), pf_SetSent = (\<lambda>_ w. w), 
     pf_Flock = (\<lambda>path. \<lparr>fl_TryLock = ret (Inr (path = ''/s.json.lock'')), fl_TryRLock = ret (Inr False), fl_Unlock = ret None\<rparr>),
     pf_CliErr = None, pf_InitErr = None, pf_SDK = Inr slowSDK, pf_Exec = (\<lambda>_ _ _ _ _. ret ([], [], None)),
     pf_Runtime = calmDeps demoState None demoSnapshot,
     pf_RoundTrip = (\<lambda>_ _. ret (Inr (204, []))), pf_ParseSeconds = (\<lambda>_. None), pf_Get = (\<lambda>_ _. ret (Inr (200, ''200 OK''))), pf_Listen = (\<lambda>_. ret (None, 0))\<rparr>"

theorem daemons_refuse_one_off_flags_witness:
  "\<exists>out. runMain demoPlatform [''poll'', ''-force''] emptyDisk = Some ((2, out), emptyDisk)"
proof -
  have ps: "pf_Parsers demoPlatform = demoParsers" by (simp add: demoPlatform_def)
  have "case parseArgs demoParsers Map.empty [] [''poll'', ''-force''] of Inl _ \<Rightarrow> False
      | Inr (c, f) \<Rightarrow> c = ''poll'' \<and> fBool f ''force'' \<and> \<not> fBool f ''version''" by code_simp
  then obtain c f where f: "parseArgs demoParsers Map.empty [] [''poll'', ''-force''] = Inr (c, f)"
      "c = ''poll''" "fBool f ''force''" "\<not> fBool f ''version''"
    by (cases "parseArgs demoParsers Map.empty [] [''poll'', ''-force'']") (simp_all split: prod.splits)
  from daemons_refuse_one_off_flags [of demoPlatform, unfolded ps, OF f(1) disjI1 [OF f(2)] disjI2 [OF f(3)] f(4)]
  show ?thesis .
qed

text \<open>The command \<^verbatim>\<open>resume\<close>, which writes.\<close>

theorem setup_validates_and_locks_witness:
  "\<exists>f d w warning. run_state (setupDeps demoPlatform f True) emptyDisk = (Inr d, w)
     \<and> runMain demoPlatform [''resume''] emptyDisk
         = map_option (apfst (apsnd ((@) warning))) (dispatch (pf_Marshal demoPlatform \<circ> encodeState) (pf_Listen demoPlatform)
             (ResolvePath (pf_Getenv demoPlatform) (fString f ''config'')) ''resume'' f CallerCtx d w)
     \<and> Lock d = Some (ret (Inr True), ret None)"
proof -
  let ?parsed = "parseArgs (pf_Parsers demoPlatform) Map.empty [] [''resume'']"
  let ?built = "\<lambda>f. run_state (setupDeps demoPlatform f True) emptyDisk"
  have demo: "case ?parsed of Inl _ \<Rightarrow> False
      | Inr (c, f) \<Rightarrow> \<not> fBool f ''version'' \<and> checkFlagsFor ''resume'' f = None \<and> defaultCommand c f = ''resume'' \<and>
          \<not> readOnly ''resume'' f \<and> (case fst (?built f) of Inl _ \<Rightarrow> False | Inr d \<Rightarrow> cfg_StateFile (Cfg d) = ''/s.json'')" by code_simp
  then obtain c f where f: "?parsed = Inr (c, f)" "\<not> fBool f ''version''" "defaultCommand c f = ''resume''"
      "checkFlagsFor ''resume'' f = None" and writes: "\<not> readOnly ''resume'' f"
      and ready: "case fst (?built f) of Inl _ \<Rightarrow> False | Inr d \<Rightarrow> cfg_StateFile (Cfg d) = ''/s.json''"
    by (cases ?parsed) (simp_all split: prod.splits)
  then obtain d w where d: "?built f = (Inr d, w)" and s: "cfg_StateFile (Cfg d) = ''/s.json''"
    by (cases "?built f"; cases "fst (?built f)") auto
  have "run_state (setupDeps demoPlatform f (\<not> readOnly ''resume'' f)) emptyDisk = (Inr d, w)" using d writes by simp
  from setup_validates_and_locks [OF f(1,2) f(3) [symmetric] _ f(4) this] d show ?thesis
    by (simp add: s) (auto simp: demoPlatform_def)
qed

definition pollOnce :: "unit Deps" where
  "pollOnce = (demoDeps demoState None demoSnapshot)\<lparr>SleepCtx := (\<lambda>c t. ret False),
     Cfg := Default\<lparr>cfg_RepoPath := ''/r'', cfg_HealthWatchSeconds := 0, cfg_PollIntervalSeconds := 300\<rparr>\<rparr>"

theorem poll_saves_wf_states_witness:
  "\<exists>r es. cmdPoll (traced pollOnce) CallerCtx ([], ()) = Some (r, (es, ())) \<and> es \<noteq> []
     \<and> list_all (\<lambda>e. case e of EvSave st ok \<Rightarrow> wfState st | _ \<Rightarrow> True) es"
proof -
  have "map_option (\<lambda>(r, es, w). es = []) (cmdPoll (traced pollOnce) CallerCtx ([], ())) = Some False" by code_simp
  then obtain r es where run: "cmdPoll (traced pollOnce) CallerCtx ([], ()) = Some (r, (es, ()))" and "es \<noteq> []" by auto
  have "\<forall>w st w'. run_state (StoreLoad pollOnce) w = (Inr st, w') \<longrightarrow> wfState st"
    by (simp add: pollOnce_def demoDeps_def demoState_def wfState_def New_def zeroState_def)
  from poll_saves_wf_states [OF run this] have "list_all (\<lambda>e. case e of EvSave st ok \<Rightarrow> wfState st | _ \<Rightarrow> True) es"
    by (auto simp: list_all_iff split: event.split)
  with run \<open>es \<noteq> []\<close> show ?thesis by blast
qed

theorem init_file_round_trip_witness:
  "\<exists>cfg w. run_state (Init demoPlatform ''c.json'' True (noOverrides\<lparr>o_Branch := Some ''prod''\<rparr>)) emptyDisk = (Inr cfg, w)
     \<and> cfg_Branch cfg = ''prod'' \<and> decodeConfig loadDefaults (encodeConfig cfg) = Some cfg"
proof -
  let ?run = "run_state (Init demoPlatform ''c.json'' True (noOverrides\<lparr>o_Branch := Some ''prod''\<rparr>)) emptyDisk"
  have "case fst ?run of Inl _ \<Rightarrow> False | Inr cfg \<Rightarrow> cfg_Branch cfg = ''prod''" by code_simp
  then obtain cfg w where run: "?run = (Inr cfg, w)" "cfg_Branch cfg = ''prod''" by (cases ?run) (auto split: sum.splits)
  then show ?thesis using init_file_round_trip [OF run(1)] by blast
qed

end
