(* ===== verification/StoreSpec.thy ===== *)
theory StoreSpec
  imports StateFile
begin

text \<open>
  The abstract store: a variable that holds a state. A load answers with it; a save that succeeds
  replaces it, and a save that fails either replaces it or leaves it, never anything in between. Every
  store that keeps the contract \<open>state_store\<close> refines it, the file store with its failing system calls
  and the memory store among them.
\<close>

datatype storeOp = OpLoad | OpSave State

datatype storeAnswer = Loaded "err + State" | Saved "err option"

inductive storeSpec :: "State \<Rightarrow> storeOp \<Rightarrow> storeAnswer \<Rightarrow> State \<Rightarrow> bool" where
  load: "storeSpec st OpLoad (Loaded (Inr st)) st"
| saved: "storeSpec st (OpSave st') (Saved None) st'"
| failed_old: "storeSpec st (OpSave st') (Saved (Some e)) st"
| failed_new: "storeSpec st (OpSave st') (Saved (Some e)) st'"

inductive specRun :: "State \<Rightarrow> (storeOp \<times> storeAnswer) list \<Rightarrow> State \<Rightarrow> bool" where
  none: "specRun st [] st"
| step: "storeSpec st op a st' \<Longrightarrow> specRun st' trace st'' \<Longrightarrow> specRun st ((op, a) # trace) st''"

inductive_cases specRun_NilE: "specRun st [] st'"
inductive_cases specRun_ConsE: "specRun st (x # trace) st'"
inductive_cases storeSpec_loadE: "storeSpec st OpLoad a st'"
inductive_cases storeSpec_savedE: "storeSpec st (OpSave s) (Saved None) st'"

text \<open>One operation on a store, and a sequence of them with their answers.\<close>

fun perform :: "('w, err + State) state \<Rightarrow> (State \<Rightarrow> ('w, err option) state) \<Rightarrow> storeOp \<Rightarrow> ('w, storeAnswer) state" where
  "perform load save OpLoad = do { r \<leftarrow> load; ret (Loaded r) }"
| "perform load save (OpSave st) = do { r \<leftarrow> save st; ret (Saved r) }"

fun performAll :: "('w, err + State) state \<Rightarrow> (State \<Rightarrow> ('w, err option) state) \<Rightarrow> storeOp list \<Rightarrow>
    ('w, (storeOp \<times> storeAnswer) list) state" where
  "performAll load save [] = ret []"
| "performAll load save (op # ops) = do {
     a \<leftarrow> perform load save op;
     rest \<leftarrow> performAll load save ops;
     ret ((op, a) # rest)
   }"

text \<open>States the program saves: of this schema version, with results it knows.\<close>

fun ownOp :: "storeOp \<Rightarrow> bool" where
  "ownOp OpLoad \<longleftrightarrow> True"
| "ownOp (OpSave st) \<longleftrightarrow> ownResults st \<and> SchemaVersion st = schemaVersion"

context state_store
begin

text \<open>The simulation: the abstract state is what a load would give.\<close>

definition holds :: "'w \<Rightarrow> State \<Rightarrow> bool" where
  "holds w st \<longleftrightarrow> ready w \<and> fst (run_state load w) = Inr st"

lemma perform_simulates:
  assumes "holds w st" and "ownOp op" and "run_state (perform load save op) w = (a, w')"
  shows "\<exists>st'. storeSpec st op a st' \<and> holds w' st'"
proof (cases op)
  case OpLoad
  have "run_state load w = (Inr st, w)"
    using assms(1) load_stable [of w] unfolding holds_def by (metis prod.collapse)
  then show ?thesis using assms OpLoad by (auto intro: storeSpec.load)
next
  case (OpSave s)
  then obtain r where r: "run_state (save s) w = (r, w')" "a = Saved r"
    using assms(3) by (auto split: prod.splits)
  have own: "ownResults s" "SchemaVersion s = schemaVersion" and ready: "ready w" "ready w'"
    using assms(1,2) OpSave save_ready [of w s] r(1) by (auto simp: holds_def)
  show ?thesis
  proof (cases r)
    case None
    then have "holds w' s" using load_after_save [OF ready(1) own] r(1) ready(2) by (simp add: holds_def)
    then show ?thesis using OpSave None r(2) by (auto intro: storeSpec.saved)
  next
    case (Some e)
    then have "fst (run_state load w') = Inr st \<or> fst (run_state load w') = Inr s"
      using load_after_failed_save [OF ready(1) own, of e w'] r(1) assms(1) by (auto simp: holds_def)
    then have "holds w' st \<or> holds w' s" using ready(2) by (simp add: holds_def)
    then show ?thesis using OpSave Some r(2) by (auto intro: storeSpec.failed_old storeSpec.failed_new)
  qed
qed

lemma performAll_simulates:
  assumes "holds w st" and "list_all ownOp ops" and "run_state (performAll load save ops) w = (trace, w')"
  shows "\<exists>st'. specRun st trace st' \<and> holds w' st'"
  using assms
proof (induction ops arbitrary: st w trace)
  case (Cons op ops)
  obtain a w1 where one: "run_state (perform load save op) w = (a, w1)" by fastforce
  obtain rest where rest: "run_state (performAll load save ops) w1 = (rest, w')" "trace = (op, a) # rest"
    using Cons.prems(3) one by (auto split: prod.splits)
  from perform_simulates [OF Cons.prems(1) _ one] Cons.prems(2)
  obtain st1 where st1: "storeSpec st op a st1" "holds w1 st1" by auto
  from Cons.IH [OF st1(2) _ rest(1)] Cons.prems(2) st1(1) rest(2) show ?case
    by (auto intro: specRun.step)
qed (auto intro: specRun.none)

end

text \<open>C19: the file store refines the abstract store: on a readable state file, whatever saves fail at whichever
  system call, the answers of any sequence of loads and saves are answers of one variable that every
  successful save replaces and every failed save replaces or leaves; and at the end the file holds the
  value of that variable.\<close>

theorem file_store_refines_spec:
  assumes "run_state (performAll (FileStore_Load path) (FileStore_Save path) ops) d = (trace, d')"
    and "unreadable d path = None" and "Load path d = Inr st" and "list_all ownOp ops"
  shows "\<exists>st'. specRun st trace st' \<and> Load path d' = Inr st'"
proof -
  have "file_store.holds path d st" using assms(2,3) unfolding file_store.holds_def by (simp add: FileStore_Load_def)
  from file_store.performAll_simulates [OF this assms(4,1)] show ?thesis
    unfolding file_store.holds_def by (auto simp: FileStore_Load_def)
qed

text \<open>The memory store is the abstract store itself.\<close>

lemma mem_store_refines_spec:
  assumes "run_state (performAll MemStore_Load MemStore_Save ops) (Some st) = (trace, m)" and "list_all ownOp ops"
  shows "\<exists>st'. specRun st trace st' \<and> fst (run_state MemStore_Load m) = Inr st'"
proof -
  have "mem_store.holds (Some st) st" unfolding mem_store.holds_def by (simp add: MemStore_Load_def)
  from mem_store.performAll_simulates [OF this assms(2,1)] show ?thesis unfolding mem_store.holds_def by blast
qed

text \<open>A save whose rename fails, then one that succeeds.\<close>

definition faultyDisk :: disk where
  "faultyDisk = \<lparr>files = Map.empty, faults = [FailRename (errorf ''io'')], unreadable = Map.empty, past = []\<rparr>"

theorem file_store_refines_spec_witness:
  "\<exists>trace d' st'. run_state (performAll (FileStore_Load ''p'') (FileStore_Save ''p'')
        [OpSave (MarkFailed New ''aaaa'' 1), OpLoad, OpSave (MarkFailed New ''bbbb'' 2)]) faultyDisk = (trace, d')
     \<and> specRun New trace st' \<and> Load ''p'' d' = Inr st' \<and> IsKnownBad st' ''bbbb''"
proof -
  let ?ops = "[OpSave (MarkFailed New ''aaaa'' 1), OpLoad, OpSave (MarkFailed New ''bbbb'' 2)]"
  let ?run = "run_state (performAll (FileStore_Load ''p'') (FileStore_Save ''p'') ?ops) faultyDisk"
  have last: "case Load ''p'' (snd ?run) of Inl _ \<Rightarrow> False | Inr st \<Rightarrow> IsKnownBad st ''bbbb''" by code_simp
  have "unreadable faultyDisk ''p'' = None" "Load ''p'' faultyDisk = Inr New" by (simp_all add: faultyDisk_def Load_def)
  moreover have "list_all ownOp ?ops"
    by (simp add: ownResults_def MarkFailed_def New_def zeroState_def)
  moreover obtain trace d' where run: "?run = (trace, d')" by fastforce
  ultimately obtain st' where "specRun New trace st'" "Load ''p'' d' = Inr st'"
    using file_store_refines_spec [OF run] by blast
  with last run show ?thesis by auto
qed

end
