(* ===== verification/DiscoverCached.thy ===== *)
theory DiscoverCached
  imports Discover
begin

text \<open>
  The cache of stack discovery is sound: \<open>Discover\<close>, which skips reading and parsing when the
  fingerprint of the directory has not changed, gives what \<open>discover\<close> gives. The proof goes through a
  reference: \<open>readFiles\<close> and \<open>readSubs\<close> are what both of them read, the fingerprint is a hash of an
  unambiguous encoding of it, and \<open>discover\<close> is a function of it.
\<close>

section \<open>What is read\<close>

text \<open>Reading leaves the world as it is.\<close>

definition static :: "'w Host \<Rightarrow> 'w \<Rightarrow> bool" where
  "static host w \<longleftrightarrow> (\<forall>p. snd (run_state (ReadFile host p) w) = w \<and> snd (run_state (ReadDir host p) w) = w
     \<and> snd (run_state (StatIsDir host p) w) = w)"

definition fileAt :: "'w Host \<Rightarrow> 'w \<Rightarrow> string \<Rightarrow> err + string" where
  "fileAt host w p = fst (run_state (ReadFile host p) w)"

definition dirAt :: "'w Host \<Rightarrow> 'w \<Rightarrow> string \<Rightarrow> err + DirEntry list" where
  "dirAt host w p = fst (run_state (ReadDir host p) w)"

definition candidateAt :: "'w Host \<Rightarrow> 'w \<Rightarrow> string \<Rightarrow> DirEntry \<Rightarrow> bool" where
  "candidateAt host w dir e = fst (run_state (isComposeCandidate host dir e) w)"

definition subDirAt :: "'w Host \<Rightarrow> 'w \<Rightarrow> string \<Rightarrow> DirEntry \<Rightarrow> string option" where
  "subDirAt host w dir e = fst (run_state (subDirOf host dir e) w)"

lemma static_reads:
  assumes "static host w"
  shows "run_state (ReadFile host p) w = (fileAt host w p, w)" "run_state (ReadDir host p) w = (dirAt host w p, w)"
    "run_state (isComposeCandidate host dir e) w = (candidateAt host w dir e, w)"
    "run_state (subDirOf host dir e) w = (subDirAt host w dir e, w)"
  using assms
  by (simp_all add: static_def fileAt_def dirAt_def candidateAt_def subDirAt_def isComposeCandidate_def subDirOf_def
      entryIsDir_def prod_eq_iff split: prod.splits)

text \<open>The candidates of a directory with their contents, and the subdirectories with theirs.\<close>

type_synonym fileList = "(string \<times> string) list"

fun readFiles :: "'w Host \<Rightarrow> 'w \<Rightarrow> string \<Rightarrow> DirEntry list \<Rightarrow> err + fileList" where
  "readFiles host w dir [] = Inr []"
| "readFiles host w dir (e # es) =
     (if \<not> candidateAt host w dir e then readFiles host w dir es
      else case fileAt host w (JoinPath dir (e_Name e)) of
        Inl x \<Rightarrow> Inl x
      | Inr data \<Rightarrow> (case readFiles host w dir es of Inl x \<Rightarrow> Inl x | Inr fs \<Rightarrow> Inr ((e_Name e, data) # fs)))"

fun readSubs :: "'w Host \<Rightarrow> 'w \<Rightarrow> string \<Rightarrow> DirEntry list \<Rightarrow> err + (string \<times> fileList) list" where
  "readSubs host w dir [] = Inr []"
| "readSubs host w dir (e # es) =
     (case subDirAt host w dir e of
        None \<Rightarrow> readSubs host w dir es
      | Some sub \<Rightarrow>
          (case dirAt host w sub of
             Inl x \<Rightarrow> Inl x
           | Inr entries \<Rightarrow>
               (case readFiles host w sub entries of
                  Inl x \<Rightarrow> Inl x
                | Inr fs \<Rightarrow> (case readSubs host w dir es of Inl x \<Rightarrow> Inl x | Inr ss \<Rightarrow> Inr ((e_Name e, fs) # ss)))))"

section \<open>The fingerprint\<close>

definition encFile :: "string \<times> string \<Rightarrow> string" where
  "encFile = (\<lambda>(name, data). ''f'' @ [CHR 0x00] @ name @ [CHR 0x00] @ itoa (int (length data)) @ [CHR 0x00] @ data)"

definition encFiles :: "fileList \<Rightarrow> string" where
  "encFiles fs = concat (map encFile fs)"

definition encSub :: "string \<Rightarrow> string \<times> fileList \<Rightarrow> string" where
  "encSub dir = (\<lambda>(name, fs). ''d'' @ [CHR 0x00] @ JoinPath dir name @ [CHR 0x00] @ encFiles fs)"

definition encSubs :: "string \<Rightarrow> (string \<times> fileList) list \<Rightarrow> string" where
  "encSubs dir ss = concat (map (encSub dir) ss)"

lemma enc_simps [simp]:
  "encFiles [] = []" "encFiles (f # fs) = encFile f @ encFiles fs"
  "encSubs dir [] = []" "encSubs dir (s # ss) = encSub dir s @ encSubs dir ss"
  by (simp_all add: encFiles_def encSubs_def)

lemma hashComposeFiles_static:
  assumes "static host w"
  shows "run_state (hashComposeFiles host dir es) w = (map_sum id encFiles (readFiles host w dir es), w)"
  by (induction es) (simp_all add: static_reads [OF assms] encFile_def split: sum.split)

lemma subDirAt_Some: "subDirAt host w dir e = Some sub \<Longrightarrow> sub = JoinPath dir (e_Name e) \<and> \<not> isHidden (e_Name e)"
  by (auto simp: subDirAt_def subDirOf_def split: if_splits prod.splits)

lemma hashSubDirs_static:
  assumes "static host w"
  shows "run_state (hashSubDirs host dir es) w = (map_sum id (encSubs dir) (readSubs host w dir es), w)"
proof (induction es)
  case (Cons e es)
  then show ?case
    by (auto simp: static_reads [OF assms] hashComposeFiles_static [OF assms] encSub_def
        dest!: subDirAt_Some split: sum.split option.split)
qed simp

text \<open>Everything under the directory: what the fingerprint is a hash of.\<close>

definition readTree :: "'w Host \<Rightarrow> 'w \<Rightarrow> string \<Rightarrow> err + fileList \<times> (string \<times> fileList) list" where
  "readTree host w dir =
     (case dirAt host w dir of
        Inl x \<Rightarrow> Inl x
      | Inr entries \<Rightarrow>
          (case readFiles host w dir entries of
             Inl x \<Rightarrow> Inl x
           | Inr fs \<Rightarrow> (case readSubs host w dir entries of Inl x \<Rightarrow> Inl x | Inr ss \<Rightarrow> Inr (fs, ss))))"

lemma fingerprint_static:
  assumes "static host w"
  shows "run_state (fingerprint host dir) w
     = (map_sum id (\<lambda>(fs, ss). sha256 host (encFiles fs @ encSubs dir ss)) (readTree host w dir), w)"
  by (simp add: fingerprint_def readTree_def static_reads [OF assms] hashComposeFiles_static [OF assms]
      hashSubDirs_static [OF assms] split: sum.split)

section \<open>Discovery is a function of what is read\<close>

definition checkData :: "'w Host \<Rightarrow> string \<Rightarrow> string \<Rightarrow> err + bool \<times> bool" where
  "checkData host path data =
     (case yamlMappings host data of
        Inl e \<Rightarrow> Inl (wrapf (''parsing '' @ path @ '': '') e)
      | Inr [] \<Rightarrow> Inr (False, False)
      | Inr (doc # others) \<Rightarrow>
          if \<not> looksLikeCompose doc then Inr (False, False)
          else if others \<noteq> []
            then Inl (errorf (''multi-document compose file '' @ path @ '': only the first document would be applied''))
          else case schemaValidate host doc of
            Some e \<Rightarrow> Inl (wrapf (''invalid compose file '' @ path @ '': '') e)
          | None \<Rightarrow> Inr (True, definesWorkloads doc))"

fun filesOf :: "'w Host \<Rightarrow> string \<Rightarrow> fileList \<Rightarrow> err + string list \<times> bool" where
  "filesOf host dir [] = Inr ([], False)"
| "filesOf host dir ((name, data) # fs) =
     (case checkData host (JoinPath dir name) data of
        Inl x \<Rightarrow> Inl x
      | Inr (isCompose, workloads) \<Rightarrow>
          (case filesOf host dir fs of
             Inl x \<Rightarrow> Inl x
           | Inr (files, has) \<Rightarrow>
               if isCompose then Inr (JoinPath dir name # files, workloads \<or> has) else Inr (files, has)))"

definition sortedFilesOf :: "'w Host \<Rightarrow> string \<Rightarrow> fileList \<Rightarrow> err + string list \<times> bool" where
  "sortedFilesOf host dir fs = (case filesOf host dir fs of Inl e \<Rightarrow> Inl e | Inr (files, has) \<Rightarrow> Inr (sortByMergeOrder files, has))"

fun subsOf :: "'w Host \<Rightarrow> string \<Rightarrow> string \<Rightarrow> (string \<times> fileList) list \<Rightarrow> err + Stack list" where
  "subsOf host dir base [] = Inr []"
| "subsOf host dir base ((name, fs) # ss) =
     (case sortedFilesOf host (JoinPath dir name) fs of
        Inl x \<Rightarrow> Inl x
      | Inr (files, has) \<Rightarrow>
          if files = [] \<or> \<not> has then subsOf host dir base ss
          else case subsOf host dir base ss of
            Inl x \<Rightarrow> Inl x
          | Inr stacks \<Rightarrow> Inr (\<lparr>k_ProjectName = base @ ''-'' @ sanitizeProjectSuffix name, k_Dir = JoinPath dir name,
              k_Files = files\<rparr> # stacks))"

definition discoverTree :: "'w Host \<Rightarrow> string \<Rightarrow> string \<Rightarrow> fileList \<times> (string \<times> fileList) list \<Rightarrow> err + Stack list" where
  "discoverTree host dir base tree =
     (case sortedFilesOf host dir (fst tree) of
        Inl e \<Rightarrow> Inl e
      | Inr (rootFiles, rootWorkloads) \<Rightarrow>
          (case subsOf host dir base (snd tree) of
             Inl e \<Rightarrow> Inl e
           | Inr subs \<Rightarrow> finishStacks dir ((if rootFiles \<noteq> [] \<and> rootWorkloads
               then [\<lparr>k_ProjectName = base, k_Dir = dir, k_Files = rootFiles\<rparr>] else []) @ subs)))"

lemma checkComposeFile_static:
  assumes "static host w" and "fileAt host w p = Inr data"
  shows "run_state (checkComposeFile host p) w = (checkData host p data, w)"
  by (simp add: checkComposeFile_def checkData_def static_reads [OF assms(1)] assms(2)
      split: sum.split list.split option.split)

lemma collectFiles_static:
  assumes "static host w" and "readFiles host w dir es = Inr fs"
  shows "run_state (collectFiles host dir es) w = (filesOf host dir fs, w)"
  using assms(2)
proof (induction es arbitrary: fs)
  case (Cons e es)
  show ?case
  proof (cases "candidateAt host w dir e")
    case True
    with Cons.prems obtain data fs' where d: "fileAt host w (JoinPath dir (e_Name e)) = Inr data"
        and rest: "readFiles host w dir es = Inr fs'" and fs: "fs = (e_Name e, data) # fs'"
      by (auto split: sum.splits)
    show ?thesis
      by (simp add: True fs Let_def static_reads [OF assms(1)] checkComposeFile_static [OF assms(1) d] Cons.IH [OF rest]
          split: sum.split prod.split)
  next
    case False
    with Cons show ?thesis by (simp add: static_reads [OF assms(1)])
  qed
qed simp

lemma composeFilesIn_static:
  assumes "static host w" and "readFiles host w dir es = Inr fs"
  shows "run_state (composeFilesIn host dir es) w = (sortedFilesOf host dir fs, w)"
  by (simp add: composeFilesIn_def sortedFilesOf_def collectFiles_static [OF assms] split: sum.split prod.split)

lemma discoverSubs_static:
  assumes "static host w" and "readSubs host w dir es = Inr ss"
  shows "run_state (discoverSubs host dir base es) w = (subsOf host dir base ss, w)"
  using assms(2)
proof (induction es arbitrary: ss)
  case (Cons e es)
  show ?case
  proof (cases "subDirAt host w dir e")
    case None
    with Cons show ?thesis by (simp add: static_reads [OF assms(1)])
  next
    case (Some sub)
    with Cons.prems obtain entries fs ss' where d: "dirAt host w sub = Inr entries" "readFiles host w sub entries = Inr fs"
        and rest: "readSubs host w dir es = Inr ss'" and ss: "ss = (e_Name e, fs) # ss'"
      by (auto split: sum.splits)
    have sub: "JoinPath dir (e_Name e) = sub" using subDirAt_Some [OF Some] by simp
    show ?thesis
      by (simp add: Some ss sub d(1) static_reads [OF assms(1)] composeFilesIn_static [OF assms(1) d(2)] Cons.IH [OF rest]
          split: sum.split prod.split)
  qed
qed simp

lemma discover_static:
  assumes "static host w" and "readTree host w dir = Inr tree"
  shows "run_state (discover host dir base) w = (discoverTree host dir base tree, w)"
proof -
  from assms(2) obtain entries where d: "dirAt host w dir = Inr entries"
      "readFiles host w dir entries = Inr (fst tree)" "readSubs host w dir entries = Inr (snd tree)"
    by (auto simp: readTree_def split: sum.splits)
  show ?thesis
    by (simp add: discover_def discoverTree_def Let_def d(1) static_reads [OF assms(1)] composeFilesIn_static [OF assms(1) d(2)]
        discoverSubs_static [OF assms(1) d(3)] split: sum.split prod.split)
qed

section \<open>The encoding is unambiguous\<close>

lemma split_at_first:
  "c \<notin> set xs \<Longrightarrow> c \<notin> set ys \<Longrightarrow> xs @ c # as = ys @ c # bs \<longleftrightarrow> xs = ys \<and> as = bs"
proof (induction xs arbitrary: ys)
  case (Cons x xs)
  then show ?case by (cases ys) auto
qed (auto simp: Cons_eq_append_conv)

lemma natDigits_value: "digitsValue (natDigits n) = int n"
proof (induction n rule: natDigits.induct)
  case (1 n)
  have "10 * int (n div 10) + int (n mod 10) = int n" by presburger
  with 1 show ?case
    by (subst natDigits.simps) (simp add: digitsValue_def byte_def)
qed

lemma natDigits_no_nul: "CHR 0x00 \<notin> set (natDigits n)"
proof (induction n rule: natDigits.induct)
  case (1 n)
  have "CHR 0x00 \<noteq> (char_of (48 + k) :: char)" if "k < 10" for k :: nat
  proof
    assume "CHR 0x00 = (char_of (48 + k) :: char)"
    then have "of_char (char_of (48 + k) :: char) = (of_char (CHR 0x00) :: nat)" by simp
    with that show False by simp
  qed
  from this [of n] this [of "n mod 10"] 1 show ?case by (subst natDigits.simps) (auto simp del: of_char_eq_iff)
qed

lemma itoa_length: "itoa (int n) = natDigits n"
  by (simp add: itoa_def)

lemma natDigits_inj [simp]: "natDigits m = natDigits n \<longleftrightarrow> m = n"
  by (metis natDigits_value of_nat_eq_iff)

definition nulFree :: "string \<Rightarrow> bool" where
  "nulFree s \<longleftrightarrow> CHR 0x00 \<notin> set s"

definition plainFiles :: "fileList \<Rightarrow> bool" where
  "plainFiles fs \<longleftrightarrow> (\<forall>(name, data) \<in> set fs. nulFree name)"

lemma encFile_inj:
  assumes "nulFree n" and "nulFree n'"
  shows "encFile (n, d) @ r = encFile (n', d') @ r' \<longleftrightarrow> n = n' \<and> d = d' \<and> r = r'"
proof -
  have "n @ CHR 0x00 # a = n' @ CHR 0x00 # a' \<longleftrightarrow> n = n' \<and> a = a'" for a a'
    using assms by (intro split_at_first) (auto simp: nulFree_def)
  moreover have "natDigits (length d) @ CHR 0x00 # d @ r = natDigits (length d') @ CHR 0x00 # d' @ r' \<longleftrightarrow> d = d' \<and> r = r'"
    by (auto simp: split_at_first natDigits_no_nul)
  ultimately show ?thesis by (simp add: encFile_def itoa_length)
qed

lemma encFiles_inj:
  assumes "plainFiles fs" and "plainFiles fs'" and "r = [] \<or> hd r \<noteq> CHR ''f''" and "r' = [] \<or> hd r' \<noteq> CHR ''f''"
    and "encFiles fs @ r = encFiles fs' @ r'"
  shows "fs = fs' \<and> r = r'"
  using assms
proof (induction fs arbitrary: fs')
  case Nil
  then show ?case by (cases fs') (auto simp: encFile_def split: prod.splits)
next
  case (Cons f fs)
  show ?case
  proof (cases fs')
    case Nil
    with Cons.prems show ?thesis by (auto simp: encFile_def split: prod.splits)
  next
    case (Cons g gs)
    obtain n d n' d' where f: "f = (n, d)" and g: "g = (n', d')" by (cases f; cases g)
    have "nulFree n" "nulFree n'" "plainFiles fs" "plainFiles gs"
      using Cons.prems(1,2) Cons f g by (auto simp: plainFiles_def)
    moreover from this have "n = n' \<and> d = d' \<and> encFiles fs @ r = encFiles gs @ r'"
      using Cons.prems(5) Cons f g encFile_inj [of n n' d _ d'] by simp
    ultimately show ?thesis using Cons.IH [of gs] Cons.prems(3,4) Cons f g by blast
  qed
qed

text \<open>Subdirectories: their full names are free of NUL and determine their names.\<close>

definition plainName :: "string \<Rightarrow> bool" where
  "plainName name \<longleftrightarrow> properElem name \<and> nulFree name"

lemma SplitChar_append: "SplitChar sep (a @ sep # b) = SplitChar sep a @ SplitChar sep b"
  by (induction a) (auto split: list.splits)

lemma set_SplitChar: "c \<in> set (SplitChar sep s) \<Longrightarrow> set c \<subseteq> set s"
  by (induction s arbitrary: c) (fastforce split: if_splits list.splits)+

lemma normal_append: "n \<noteq> ''..'' \<Longrightarrow> normal r acc (cs @ [n]) = normal r acc cs @ [n]"
  by (induction r acc cs rule: normal.induct) (auto split: list.splits)

lemma JoinPath_elems:
  assumes "IsAbs dir" and "plainName name" and "name \<noteq> ''..''"
  shows "JoinPath dir name = slash # Join (cleanElems dir @ [name]) [slash]"
proof -
  have "elems (dir @ slash # name) = elems dir @ [name]"
    using assms(2) by (simp add: elems_def SplitChar_append plainName_def properElem_def SplitChar_plain)
  moreover have abs: "IsAbs (dir @ slash # name)" "dir \<noteq> []" using assms(1) by (cases dir; auto simp: IsAbs_def HasPrefix_def)+
  ultimately show ?thesis
    using assms(1,3) by (simp add: JoinPath_def Clean_def render_def cleanElems_def normal_append)
qed

lemma set_Join: "set (Join cs [s]) \<subseteq> \<Union> (set ` set cs) \<union> {s}"
  by (induction cs "[s]" rule: Join.induct) auto

lemma JoinPath_nulFree:
  assumes "IsAbs dir" and "nulFree dir" and "plainName name" and "name \<noteq> ''..''"
  shows "nulFree (JoinPath dir name)"
proof -
  have "nulFree c" if "c \<in> set (cleanElems dir)" for c
  proof -
    have "c = ''..'' \<or> c \<in> set (elems dir)"
      using that normal_subset [of "IsAbs dir" "[]" "elems dir"] by (auto simp: cleanElems_def)
    then show ?thesis using assms(2) set_SplitChar [of c slash dir] by (auto simp: nulFree_def elems_def)
  qed
  then have "CHR 0x00 \<notin> set (Join (cleanElems dir @ [name]) [slash])"
    using assms(3) set_Join [of "cleanElems dir @ [name]" slash] by (auto simp: nulFree_def plainName_def slash_def)
  then show ?thesis unfolding JoinPath_elems [OF assms(1,3,4)] by (simp add: nulFree_def slash_def)
qed

lemma JoinPath_inj:
  assumes "IsAbs dir" and "plainName n" and "n \<noteq> ''..''" and "plainName n'" and "n' \<noteq> ''..''" and "JoinPath dir n = JoinPath dir n'"
  shows "n = n'"
proof -
  have proper: "\<forall>c \<in> set (cleanElems dir @ [m]). slash \<notin> set c" if "plainName m" for m
    using that cleanElems_proper [of _ dir] by (auto simp: plainName_def properElem_def)
  have "Join (cleanElems dir @ [n]) [slash] = Join (cleanElems dir @ [n']) [slash]"
    using assms(6) unfolding JoinPath_elems [OF assms(1,2,3)] JoinPath_elems [OF assms(1,4,5)] by simp
  then have "cleanElems dir @ [n] = cleanElems dir @ [n']"
    using SplitChar_Join [of "cleanElems dir @ [n]" slash] SplitChar_Join [of "cleanElems dir @ [n']" slash]
      proper [OF assms(2)] proper [OF assms(4)] by (metis Nil_is_append_conv not_Cons_self2)
  then show ?thesis by simp
qed

definition plainSubs :: "(string \<times> fileList) list \<Rightarrow> bool" where
  "plainSubs ss \<longleftrightarrow> (\<forall>(name, fs) \<in> set ss. plainName name \<and> name \<noteq> ''..'' \<and> plainFiles fs)"

lemma encSubs_head: "encSubs dir ss = [] \<or> hd (encSubs dir ss) \<noteq> CHR ''f''"
  by (cases ss) (auto simp: encSub_def split: prod.splits)

lemma encSubs_inj:
  assumes "IsAbs dir" and "nulFree dir" and "plainSubs ss" and "plainSubs ss'" and "encSubs dir ss = encSubs dir ss'"
  shows "ss = ss'"
  using assms(3-)
proof (induction ss arbitrary: ss')
  case Nil
  then show ?case by (cases ss') (auto simp: encSub_def split: prod.splits)
next
  case (Cons s ss)
  show ?case
  proof (cases ss')
    case Nil
    with Cons.prems show ?thesis by (auto simp: encSub_def split: prod.splits)
  next
    case (Cons s' tt)
    obtain n fs n' fs' where s: "s = (n, fs)" and s': "s' = (n', fs')" by (cases s; cases s')
    have plain: "plainName n" "n \<noteq> ''..''" "plainName n'" "n' \<noteq> ''..''" "plainFiles fs" "plainFiles fs'" "plainSubs ss" "plainSubs tt"
      using Cons.prems(1,2) Cons s s' by (auto simp: plainSubs_def)
    have "JoinPath dir n @ CHR 0x00 # encFiles fs @ encSubs dir ss = JoinPath dir n' @ CHR 0x00 # encFiles fs' @ encSubs dir tt"
      using Cons.prems(3) Cons s s' by (simp add: encSub_def)
    then have "JoinPath dir n = JoinPath dir n'" "encFiles fs @ encSubs dir ss = encFiles fs' @ encSubs dir tt"
      using split_at_first [OF JoinPath_nulFree [OF assms(1,2) plain(1,2), unfolded nulFree_def]
          JoinPath_nulFree [OF assms(1,2) plain(3,4), unfolded nulFree_def]] by simp_all
    then have "n = n'" "fs = fs'" "encSubs dir ss = encSubs dir tt"
      using JoinPath_inj [OF assms(1) plain(1-4)] encFiles_inj [OF plain(5,6) encSubs_head encSubs_head] by blast+
    then show ?thesis using Cons.IH [OF plain(7,8)] Cons s s' by simp
  qed
qed

definition encTree :: "string \<Rightarrow> fileList \<times> (string \<times> fileList) list \<Rightarrow> string" where
  "encTree dir tree = encFiles (fst tree) @ encSubs dir (snd tree)"

definition plainTree :: "fileList \<times> (string \<times> fileList) list \<Rightarrow> bool" where
  "plainTree tree \<longleftrightarrow> plainFiles (fst tree) \<and> plainSubs (snd tree)"

lemma encTree_inj:
  assumes "IsAbs dir" and "nulFree dir" and "plainTree tree" and "plainTree tree'" and "encTree dir tree = encTree dir tree'"
  shows "tree = tree'"
proof -
  have "fst tree = fst tree'" "encSubs dir (snd tree) = encSubs dir (snd tree')"
    using assms(3-) encFiles_inj [OF _ _ encSubs_head encSubs_head, of "fst tree" "fst tree'" dir "snd tree" dir "snd tree'"]
    by (simp_all add: plainTree_def encTree_def)
  moreover from this(2) have "snd tree = snd tree'"
    using encSubs_inj [OF assms(1,2)] assms(3,4) by (simp add: plainTree_def)
  ultimately show ?thesis by (simp add: prod_eq_iff)
qed

text \<open>Names in a directory listing are single path elements without NUL.\<close>

definition namesPlain :: "'w Host \<Rightarrow> 'w \<Rightarrow> bool" where
  "namesPlain host w \<longleftrightarrow> (\<forall>p entries e. dirAt host w p = Inr entries \<longrightarrow> e \<in> set entries \<longrightarrow> plainName (e_Name e))"

lemma readFiles_plain:
  "\<forall>e \<in> set es. plainName (e_Name e) \<Longrightarrow> readFiles host w dir es = Inr fs \<Longrightarrow> plainFiles fs"
proof (induction es arbitrary: fs)
  case (Cons e es)
  then show ?case by (fastforce simp: plainFiles_def plainName_def split: if_splits sum.splits)
qed (simp add: plainFiles_def)

lemma readSubs_plain:
  assumes "namesPlain host w"
  shows "\<forall>e \<in> set es. plainName (e_Name e) \<Longrightarrow> readSubs host w dir es = Inr ss \<Longrightarrow> plainSubs ss"
proof (induction es arbitrary: ss)
  case (Cons e es)
  show ?case
  proof (cases "subDirAt host w dir e")
    case None
    with Cons show ?thesis by simp
  next
    case (Some sub)
    with Cons.prems(2) obtain entries fs ss' where d: "dirAt host w sub = Inr entries" "readFiles host w sub entries = Inr fs"
        and rest: "readSubs host w dir es = Inr ss'" and ss: "ss = (e_Name e, fs) # ss'"
      by (auto split: sum.splits)
    have "plainFiles fs" using readFiles_plain [OF _ d(2)] assms d(1) by (auto simp: namesPlain_def)
    moreover have "e_Name e \<noteq> ''..''" using subDirAt_Some [OF Some] by (auto simp: isHidden_def HasPrefix_def)
    moreover have "plainSubs ss'" using Cons.IH [OF _ rest] Cons.prems(1) by simp
    ultimately show ?thesis using Cons.prems(1) ss by (simp add: plainSubs_def)
  qed
qed (simp add: plainSubs_def)

lemma readTree_plain:
  assumes "namesPlain host w" and "readTree host w dir = Inr tree"
  shows "plainTree tree"
proof -
  from assms(2) obtain entries where d: "dirAt host w dir = Inr entries"
      "readFiles host w dir entries = Inr (fst tree)" "readSubs host w dir entries = Inr (snd tree)"
    by (auto simp: readTree_def split: sum.splits)
  have "\<forall>e \<in> set entries. plainName (e_Name e)" using assms(1) d(1) unfolding namesPlain_def by blast
  then show ?thesis
    using readFiles_plain [OF _ d(2)] readSubs_plain [OF assms(1) _ d(3)] by (simp add: plainTree_def)
qed

lemma discover_keeps_world:
  assumes "static host w"
  shows "snd (run_state (discover host dir base) w) = w"
proof -
  have "keeps (\<lambda>v. v = w) (discover host dir base)"
    using assms by (intro keeps_discover) (auto simp: keeps_def static_def split: prod.splits)
  then show ?thesis by (auto simp: keeps_def split: prod.splits)
qed

section \<open>The cache\<close>

text \<open>
  \<open>B\<close> is the set of byte strings the process has hashed. The cache is sound if it is empty or holds a
  discovery that succeeded on some tree, under the fingerprint of that tree.
\<close>

definition cached :: "'w Host \<Rightarrow> 'w \<Rightarrow> DiscoverCache" where
  "cached host w = fst (run_state (cacheGet host) w)"

definition cacheSound :: "string set \<Rightarrow> 'w Host \<Rightarrow> DiscoverCache \<Rightarrow> bool" where
  "cacheSound B host c \<longleftrightarrow> dc_key c = [] \<or> (\<exists>dir base tree. nulFree dir \<and> plainTree tree \<and> encTree dir tree \<in> B
     \<and> dc_key c = dir @ [CHR 0x00] @ base \<and> dc_fingerprint c = sha256 host (encTree dir tree)
     \<and> discoverTree host dir base tree = Inr (dc_stacks c))"

lemma Discover_static:
  assumes "static host w" and "snd (run_state (cacheGet host) w) = w"
  shows "run_state (Discover host dir base) w =
     (case readTree host w dir of
        Inl _ \<Rightarrow> run_state (discover host dir base) w
      | Inr tree \<Rightarrow>
          let key = dir @ [CHR 0x00] @ base; f = sha256 host (encTree dir tree)
          in if dc_key (cached host w) = key \<and> dc_fingerprint (cached host w) = f then (Inr (dc_stacks (cached host w)), w)
             else case discoverTree host dir base tree of
               Inl e \<Rightarrow> (Inl e, w)
             | Inr stacks \<Rightarrow> (Inr stacks, snd (run_state (cachePut host \<lparr>dc_key = key, dc_fingerprint = f, dc_stacks = stacks\<rparr>) w)))"
proof (cases "readTree host w dir")
  case (Inl x)
  then have fp: "run_state (fingerprint host dir) w = (Inl x, w)" by (simp add: fingerprint_static [OF assms(1)])
  show ?thesis by (simp add: Discover_def Let_def fp Inl split: prod.split)
next
  case (Inr tree)
  then have fp: "run_state (fingerprint host dir) w = (Inr (sha256 host (encTree dir tree)), w)"
    by (simp add: fingerprint_static [OF assms(1)] encTree_def split: prod.split)
  have get: "run_state (cacheGet host) w = (cached host w, w)" using assms(2) by (simp add: cached_def prod_eq_iff)
  show ?thesis
    by (simp add: Discover_def Let_def fp get Inr discover_static [OF assms(1) Inr] split: sum.split prod.split)
qed

text \<open>C20: the cached discovery is equivalent to the uncached one: on a file system that does not change while
  it is read, \<open>Discover\<close> gives what \<open>discover\<close> gives, hit or miss, errors included, and leaves a cache for
  which this holds again. The hypotheses are that SHA-256 has no collision among what was hashed,
  that directory listings have proper names, and that the cache is a variable: reading it changes
  nothing, and it holds what was put last.\<close>

theorem cached_discovery_equivalent:
  assumes "static host w" and "snd (run_state (cacheGet host) w) = w"
    and "\<And>c. cached host (snd (run_state (cachePut host c) w)) = c"
    and "namesPlain host w" and "IsAbs dir" and "nulFree dir"
    and "cacheSound B host (cached host w)" and "inj_on (sha256 host) B"
    and "\<And>tree. readTree host w dir = Inr tree \<Longrightarrow> encTree dir tree \<in> B"
  shows "fst (run_state (Discover host dir base) w) = fst (run_state (discover host dir base) w)
    \<and> cacheSound B host (cached host (snd (run_state (Discover host dir base) w)))"
proof (cases "readTree host w dir")
  case (Inl x)
  then show ?thesis
    using assms(7) discover_keeps_world [OF assms(1)] by (simp add: Discover_static [OF assms(1,2)])
next
  case (Inr tree)
  let ?key = "dir @ [CHR 0x00] @ base" and ?f = "sha256 host (encTree dir tree)"
  note tree = readTree_plain [OF assms(4) Inr] and inB = assms(9) [OF Inr]
  note run = Discover_static [OF assms(1,2), of dir base, unfolded Inr, simplified, unfolded Let_def]
  show ?thesis
  proof (cases "dc_key (cached host w) = ?key \<and> dc_fingerprint (cached host w) = ?f")
    case True
    with assms(7) obtain dir' base' tree' where old: "nulFree dir'" "plainTree tree'" "encTree dir' tree' \<in> B"
        "?key = dir' @ [CHR 0x00] @ base'" "?f = sha256 host (encTree dir' tree')"
        "discoverTree host dir' base' tree' = Inr (dc_stacks (cached host w))"
      by (auto simp: cacheSound_def)
    have "dir' = dir" "base' = base"
      using old(4) split_at_first [of "CHR 0x00" dir dir' base base'] old(1) assms(6) by (auto simp: nulFree_def)
    moreover have "encTree dir tree = encTree dir' tree'" using assms(8) old(3,5) inB by (auto dest: inj_onD)
    ultimately have "tree' = tree" using encTree_inj [OF assms(5,6) tree old(2)] by simp
    then show ?thesis
      using True assms(7) old(6) \<open>dir' = dir\<close> \<open>base' = base\<close> by (simp add: run discover_static [OF assms(1) Inr])
  next
    case False
    have "cacheSound B host \<lparr>dc_key = ?key, dc_fingerprint = ?f, dc_stacks = stacks\<rparr>"
      if "discoverTree host dir base tree = Inr stacks" for stacks
      unfolding cacheSound_def
      by (intro disjI2 exI [of _ dir] exI [of _ base] exI [of _ tree]) (use that assms(6) tree inB in simp)
    with False assms(3,7) show ?thesis
      by (auto simp: run discover_static [OF assms(1) Inr] split: sum.split)
  qed
qed

text \<open>A directory with one stack, on a host whose world is the cache.\<close>

definition cacheHost :: "DiscoverCache Host" where
  "cacheHost = \<lparr>
     ReadFile = (\<lambda>p. ret (Inr ''services'')),
     ReadDir = (\<lambda>p. ret (Inr [\<lparr>e_Name = ''compose.yml'', e_Symlink = False, e_Dir = False\<rparr>])),
     StatIsDir = (\<lambda>p. ret (Inr False)),
     cacheGet = State_Monad.get,
     cachePut = State_Monad.set,
     yamlDecode = (\<lambda>data. ([YMap [(data, YMap [(''app'', YNull)])]], None)),
     schemaValidate = (\<lambda>doc. None),
     sha256 = (\<lambda>data. data),
     Getwd = Some ''/''\<rparr>"

definition emptyCache :: DiscoverCache where
  "emptyCache = \<lparr>dc_key = [], dc_fingerprint = [], dc_stacks = []\<rparr>"

text \<open>After a first discovery the second one is a hit.\<close>

theorem cached_discovery_equivalent_witness:
  "(let w = snd (run_state (Discover cacheHost ''/d'' ''p'') emptyCache) in
      dc_key w \<noteq> [] \<and> fst (run_state (Discover cacheHost ''/d'' ''p'') w) = fst (run_state (discover cacheHost ''/d'' ''p'') w))"
proof -
  have h: "static cacheHost w" "snd (run_state (cacheGet cacheHost) w) = w"
      "cached cacheHost (snd (run_state (cachePut cacheHost c) w)) = c" "inj_on (sha256 cacheHost) UNIV" for w c
    by (simp_all add: static_def cacheHost_def cached_def State_Monad.get_def State_Monad.set_def)
  have plain: "namesPlain cacheHost w" for w
    by (simp add: namesPlain_def dirAt_def cacheHost_def plainName_def properElem_def nulFree_def slash_def)
  have dir: "IsAbs ''/d''" "nulFree ''/d''" by code_simp+
  let ?w = "snd (run_state (Discover cacheHost ''/d'' ''p'') emptyCache)"
  have "cacheSound UNIV cacheHost (cached cacheHost emptyCache)" by (simp add: cacheSound_def cached_def cacheHost_def emptyCache_def)
  then have "cacheSound UNIV cacheHost (cached cacheHost ?w)"
    using cached_discovery_equivalent [OF h(1) h(2) h(3) plain dir _ h(4)] by blast
  then have "fst (run_state (Discover cacheHost ''/d'' ''p'') ?w) = fst (run_state (discover cacheHost ''/d'' ''p'') ?w)"
    using cached_discovery_equivalent [OF h(1) h(2) h(3) plain dir _ h(4)] by blast
  moreover have "dc_key ?w \<noteq> []" by code_simp
  ultimately show ?thesis unfolding Let_def by blast
qed

end
