(* ===== verification/Processes.thy ===== *)
theory Processes
  imports RunLocks Cli
begin

text \<open>
  Several processes over one state file. The log of a process is what its runs and commands have logged, one
  after the other; nothing is assumed about the world between two operations, so that the logs are those of
  processes that disturb each other in any way. What happens on a machine is an interleaving of such logs in
  which the locks work. Locale \<open>exclusive\<close> is what an exclusive lock gives in an interleaving; it is
  interpreted for the file lock on the state and for the mutex of a process.
\<close>

section \<open>Locks in interleaved logs\<close>

text \<open>Whether a lock is held after a log, if it was held before it: \<open>acq\<close> takes it, \<open>rel\<close> releases it.\<close>

fun holding :: "event \<Rightarrow> event \<Rightarrow> bool \<Rightarrow> event list \<Rightarrow> bool" where
  "holding acq rel h [] = h"
| "holding acq rel h (e # es) = holding acq rel (if e = acq then True else if e = rel then False else h) es"

lemma holding_append: "holding acq rel h (xs @ ys) = holding acq rel (holding acq rel h xs) ys"
  by (induction acq rel h xs rule: holding.induct) auto

lemma holding_mono: "holding acq rel False es \<Longrightarrow> holding acq rel h es"
  by (induction es arbitrary: h) (auto split: if_splits)

lemma holding_plain: "acq \<notin> set es \<Longrightarrow> rel \<notin> set es \<Longrightarrow> holding acq rel h es = h"
  by (induction es) auto

text \<open>
  What happens: events of processes or goroutines, and the ends of processes (\<^const>\<open>None\<close>), at which the
  operating system releases their locks.
\<close>

type_synonym history = "(nat \<times> event option) list"

fun eventsOf :: "nat \<Rightarrow> history \<Rightarrow> event list" where
  "eventsOf p [] = []"
| "eventsOf p ((q, x) # tr) = (case x of Some e \<Rightarrow> if q = p then [e] else [] | None \<Rightarrow> []) @ eventsOf p tr"

definition holds :: "event \<Rightarrow> event \<Rightarrow> nat \<Rightarrow> history \<Rightarrow> bool" where
  "holds acq rel p tr \<longleftrightarrow> (p, None) \<notin> set tr \<and> holding acq rel False (eventsOf p tr)"

text \<open>A lock works if it is granted only while nobody else holds it.\<close>

definition lockLaw :: "event \<Rightarrow> event \<Rightarrow> history \<Rightarrow> bool" where
  "lockLaw acq rel tr \<longleftrightarrow> (\<forall>xs p ys. tr = xs @ (p, Some acq) # ys \<longrightarrow> (\<forall>q. holds acq rel q xs \<longrightarrow> q = p))"

lemma eventsOf_append [simp]: "eventsOf p (xs @ ys) = eventsOf p xs @ eventsOf p ys"
  by (induction p xs rule: eventsOf.induct) auto

locale exclusive =
  fixes acq rel :: event
  assumes distinct_events: "acq \<noteq> rel"
begin

lemma holds_Nil [simp]: "\<not> holds acq rel p []"
  by (simp add: holds_def)

lemma holds_snoc:
  "holds acq rel p (tr @ [(q, x)]) \<longleftrightarrow> (if q \<noteq> p then holds acq rel p tr
     else x = Some acq \<and> (p, None) \<notin> set tr \<or> x \<notin> {None, Some rel} \<and> holds acq rel p tr)"
  using distinct_events by (cases x) (auto simp: holds_def holding_append)

lemma lockLaw_prefix:
  assumes "lockLaw acq rel (tr @ tr')"
  shows "lockLaw acq rel tr"
  unfolding lockLaw_def
proof (intro allI impI)
  fix xs p ys q
  assume tr: "tr = xs @ (p, Some acq) # ys" and q: "holds acq rel q xs"
  have "tr @ tr' = xs @ (p, Some acq) # ys @ tr'" using tr by simp
  with assms q show "q = p" unfolding lockLaw_def by blast
qed

lemma lockLaw_last: "lockLaw acq rel (tr @ [(p, Some acq)]) \<Longrightarrow> holds acq rel q tr \<Longrightarrow> q = p"
  unfolding lockLaw_def by blast

lemma lockLaw_snocI:
  assumes "lockLaw acq rel tr" and "\<And>q. x = Some acq \<Longrightarrow> holds acq rel q tr \<Longrightarrow> q = p"
  shows "lockLaw acq rel (tr @ [(p, x)])"
  unfolding lockLaw_def
proof (intro allI impI)
  fix xs r ys q
  assume eq: "tr @ [(p, x)] = xs @ (r, Some acq) # ys" and q: "holds acq rel q xs"
  show "q = r"
  proof (cases ys rule: rev_cases)
    case Nil
    with eq q assms(2) show ?thesis by auto
  next
    case (snoc ys' y)
    with eq have "tr = xs @ (r, Some acq) # ys'" by simp
    with assms(1) q show ?thesis unfolding lockLaw_def by blast
  qed
qed

text \<open>At most one holds the lock.\<close>

lemma one_holder: "lockLaw acq rel tr \<Longrightarrow> holds acq rel p tr \<Longrightarrow> holds acq rel q tr \<Longrightarrow> p = q"
proof (induction tr rule: rev_induct)
  case (snoc x tr)
  obtain r y where x: "x = (r, y)" by (cases x)
  have "p = q" if "holds acq rel p tr" "holds acq rel q tr" using snoc.IH [OF lockLaw_prefix [OF snoc.prems(1)]] that by blast
  moreover have "s = r" if "y = Some acq" "holds acq rel s tr" for s
    using lockLaw_last snoc.prems(1) that unfolding x by blast
  ultimately show ?case using snoc.prems(2,3) unfolding x holds_snoc by (auto split: if_splits)
qed simp

lemma acquires:
  "holds acq rel p (xs @ ys) \<Longrightarrow> \<not> holds acq rel p xs \<Longrightarrow> \<exists>us vs. ys = us @ (p, Some acq) # vs"
proof (induction ys rule: rev_induct)
  case (snoc x ys)
  obtain q y where x: "x = (q, y)" by (cases x)
  from snoc.prems(1) have "holds acq rel p ((xs @ ys) @ [(q, y)])" by (simp add: x)
  then have "holds acq rel p (xs @ ys) \<or> x = (p, Some acq)" unfolding holds_snoc by (auto simp: x split: if_splits)
  then show ?case
  proof
    assume "holds acq rel p (xs @ ys)"
    from snoc.IH [OF this snoc.prems(2)] show ?thesis by (elim exE) auto
  qed blast
qed simp

lemma loses:
  "\<not> holds acq rel p (xs @ ys) \<Longrightarrow> holds acq rel p xs \<Longrightarrow> \<exists>us x vs. ys = us @ (p, x) # vs \<and> x \<in> {None, Some rel}"
proof (induction ys rule: rev_induct)
  case (snoc x ys)
  obtain q y where x: "x = (q, y)" by (cases x)
  from snoc.prems(1) have "\<not> holds acq rel p ((xs @ ys) @ [(q, y)])" by (simp add: x)
  then have "\<not> holds acq rel p (xs @ ys) \<or> x \<in> {(p, None), (p, Some rel)}" unfolding holds_snoc by (auto simp: x split: if_splits)
  then show ?case
  proof
    assume "\<not> holds acq rel p (xs @ ys)"
    from snoc.IH [OF this snoc.prems(2)] show ?thesis by (elim exE conjE) auto
  qed blast
qed simp

text \<open>Between two moments at which different ones hold the lock, the first releases it and the second takes it.\<close>

lemma handover:
  assumes "lockLaw acq rel (as @ ys)" and "holds acq rel p as" and "holds acq rel q (as @ ys)" and "p \<noteq> q"
  shows "\<exists>us x vs ws. ys = us @ (p, x) # vs @ (q, Some acq) # ws \<and> x \<in> {None, Some rel}"
proof -
  have "\<not> holds acq rel q as" using one_holder [OF lockLaw_prefix [OF assms(1)] assms(2)] assms(4) by blast
  from acquires [OF assms(3) this] obtain bs ws where ys: "ys = bs @ (q, Some acq) # ws" by blast
  have "lockLaw acq rel (((as @ bs) @ [(q, Some acq)]) @ ws)" using assms(1) unfolding ys by simp
  from lockLaw_last [OF lockLaw_prefix [OF this]] have "\<not> holds acq rel p (as @ bs)" using assms(4) by blast
  from loses [OF this assms(2)] obtain us x vs where "bs = us @ (p, x) # vs" "x \<in> {None, Some rel}" by blast
  with ys show ?thesis by (intro exI conjI) simp_all
qed

end

text \<open>The file lock on the state, and the mutex that a process keeps per state file.\<close>

interpretation state_lock: exclusive "EvLock True" EvUnlock
  by unfold_locales simp

interpretation single_flight: exclusive "EvFlight True" EvFlightUnlock
  by unfold_locales simp

section \<open>Processes and the state lock\<close>

definition lockDisciplined :: "event list \<Rightarrow> bool" where
  "lockDisciplined es \<longleftrightarrow> (\<forall>xs e ys. es = xs @ e # ys \<longrightarrow> acting e \<longrightarrow> holding (EvLock True) EvUnlock False xs)"

lemma lockDisciplined_append:
  assumes "lockDisciplined es" and "lockDisciplined es'"
  shows "lockDisciplined (es @ es')"
  unfolding lockDisciplined_def
proof (intro allI impI)
  fix xs e ys
  assume split: "es @ es' = xs @ e # ys" and "acting e"
  then consider us where "es = xs @ us" "us @ es' = e # ys" | us where "xs = es @ us" "es' = us @ e # ys"
    by (auto simp: append_eq_append_conv2)
  then consider zs where "es = xs @ e # zs" | zs where "xs = es @ zs" "es' = zs @ e # ys"
    by cases (auto simp: append_eq_Cons_conv)
  then show "holding (EvLock True) EvUnlock False xs"
  proof cases
    case 1
    then show ?thesis using assms(1) \<open>acting e\<close> by (auto simp: lockDisciplined_def)
  next
    case 2
    then have "holding (EvLock True) EvUnlock False zs" using assms(2) \<open>acting e\<close> by (auto simp: lockDisciplined_def)
    then show ?thesis by (simp add: 2(1) holding_append holding_mono)
  qed
qed

lemma lockDisciplined_idle: "list_all (\<lambda>e. \<not> acting e) es \<Longrightarrow> lockDisciplined es"
  by (auto simp: lockDisciplined_def)

lemma lockDisciplined_section:
  assumes "\<And>e. e \<in> set mid \<Longrightarrow> \<not> locking e"
  shows "lockDisciplined ([EvLock True] @ mid @ [EvUnlock])"
  unfolding lockDisciplined_def
proof (intro allI impI)
  fix xs e ys
  assume split: "[EvLock True] @ mid @ [EvUnlock] = xs @ e # ys" and "acting e"
  then obtain xs' where xs: "xs = EvLock True # xs'" and "mid @ [EvUnlock] = xs' @ e # ys"
    by (cases xs) auto
  then have "set xs' \<subseteq> set mid" using \<open>acting e\<close> by (cases ys rule: rev_cases) (auto simp: append_eq_append_conv2)
  then show "holding (EvLock True) EvUnlock False xs" using assms [of "EvLock True"] assms [of EvUnlock]
    by (auto simp: xs intro!: holding_plain [THEN iffD2])
qed

lemma guarded_lockDisciplined:
  assumes "guarded es"
  shows "lockDisciplined es"
proof -
  have ins: "lockDisciplined ins" if "inside ins" for ins
    using that unfolding inside_def
  proof (elim disjE exE conjE)
    fix mid assume "ins = [EvFlight True, EvActivity, EvLock True] @ mid @ [EvUnlock]" "\<forall>e \<in> set mid. \<not> locking e"
    then show ?thesis
      using lockDisciplined_append [OF lockDisciplined_idle [of "[EvFlight True, EvActivity]"] lockDisciplined_section [of mid]] by auto
  qed (simp add: lockDisciplined_idle)
  from assms show ?thesis unfolding guarded_def released_def
  proof (elim disjE exE conjE)
    fix i rest assume "es = i @ [EvActivity, EvFlightUnlock] @ rest" "inside i" "\<forall>e \<in> set rest. \<not> acting e \<and> \<not> locking e"
    then show ?thesis
      using lockDisciplined_append [OF ins lockDisciplined_idle [of "[EvActivity, EvFlightUnlock] @ rest"]]
      by (auto simp: list_all_iff)
  qed (simp add: lockDisciplined_idle)
qed

lemma lockedChange_lockDisciplined: "lockedChange d ok s es \<Longrightarrow> lockDisciplined es"
  unfolding lockedChange_def
proof (elim disjE exE conjE)
  fix k mid assume es: "es = replicate k (EvLock False) @ [EvLock True] @ mid @ [EvUnlock]"
    and mid: "if s then \<exists>st st' w1 w2. run_state (StoreLoad d) w1 = (Inr st, w2) \<and> ok st st' \<and> mid = [EvSave st' True]
      else mid = [] \<or> (\<exists>st. mid = [EvSave st False])"
  from mid have "\<not> locking e" if "e \<in> set mid" for e using that by (auto split: if_splits)
  then show ?thesis
    using lockDisciplined_append [OF lockDisciplined_idle [of "replicate k (EvLock False)"] lockDisciplined_section [of mid]]
    by (auto simp: es list_all_iff)
qed (auto intro: lockDisciplined_idle simp: list_all_iff)

text \<open>What a process logs that takes the exclusive lock: runs, by hand or of a daemon, with what they send,
  and the commands that pause and resume.\<close>

inductive processLog :: "'w Deps \<Rightarrow> event list \<Rightarrow> bool" for d where
  fresh: "processLog d []"
| reconcile: "processLog d es \<Longrightarrow> run_state (Reconcile (traced d) c opts) ([], w) = (r, (es', w')) \<Longrightarrow> processLog d (es @ es')"
| notify: "processLog d es \<Longrightarrow> processLog d (es @ [EvSend k])"
| pause: "processLog d es \<Longrightarrow> cmdPause (traced d) c pauseFor reason ([], w) = Some (r, (es', w')) \<Longrightarrow> processLog d (es @ es')"
| resume: "processLog d es \<Longrightarrow> cmdResume (traced d) c ([], w) = Some (r, (es', w')) \<Longrightarrow> processLog d (es @ es')"

lemma processLog_disciplined: "processLog d es \<Longrightarrow> Lock d = Some (tryLock, unlock) \<Longrightarrow> lockDisciplined es"
proof (induction rule: processLog.induct)
  case (reconcile es c opts w r es' w')
  from guarded_lockDisciplined [OF Reconcile_guarded [OF reconcile.hyps(2) reconcile.prems]] reconcile show ?case
    by (intro lockDisciplined_append)
next
  case (pause es c pauseFor reason w r es' w')
  then show ?case by (cases r) (blast intro: lockDisciplined_append lockedChange_lockDisciplined dest: cmdPause_log)
next
  case (resume es c w r es' w')
  then show ?case by (cases r) (blast intro: lockDisciplined_append lockedChange_lockDisciplined dest: cmdResume_log)
next
  case (notify es k)
  then show ?case by (simp add: lockDisciplined_append lockDisciplined_idle)
qed (simp add: lockDisciplined_idle)

text \<open>What happens on a machine: a process may end at any moment, so that its events are the beginning of a log,
  and does nothing after that.\<close>

definition machineHistory :: "(nat \<Rightarrow> 'w Deps) \<Rightarrow> history \<Rightarrow> bool" where
  "machineHistory deps tr \<longleftrightarrow> (\<forall>xs p e ys. tr = xs @ (p, Some e) # ys \<longrightarrow> (p, None) \<notin> set xs)
     \<and> (\<forall>p. \<exists>es. processLog (deps p) es \<and> prefix (eventsOf p tr) es)"

lemma acting_holds:
  assumes "machineHistory deps tr" and "Lock (deps p) = Some l" and "tr = xs @ (p, Some e) # ys" and "acting e"
  shows "holds (EvLock True) EvUnlock p xs"
proof -
  obtain es where log: "processLog (deps p) es" and "prefix (eventsOf p tr) es" and alive: "(p, None) \<notin> set xs"
    using assms(1,3) unfolding machineHistory_def by blast
  then obtain zs where "es = eventsOf p xs @ e # zs" by (auto simp: assms(3) prefix_def)
  moreover obtain tryLock unlock where "Lock (deps p) = Some (tryLock, unlock)" using assms(2) by (cases l) auto
  from processLog_disciplined [OF log this] have "lockDisciplined es" .
  ultimately show ?thesis using assms(4) alive unfolding lockDisciplined_def holds_def by blast
qed

text \<open>C6: deployments of different processes never overlap: on a machine where any number of processes deploy,
  pause and resume over the same state file, each may be killed at any moment, and the file lock works,
  between a change one of them makes and a later change another one makes the first has released the lock
  or ended, and after that the second has taken it.\<close>

theorem processes_exclude_each_other:
  assumes "machineHistory deps tr" and "lockLaw (EvLock True) EvUnlock tr" and "\<And>i. Lock (deps i) \<noteq> None"
    and "tr = xs @ (p, Some e) # ys @ (q, Some e') # zs" and "acting e" and "acting e'" and "p \<noteq> q"
  shows "\<exists>us x vs ws. ys = us @ (p, x) # vs @ (q, Some (EvLock True)) # ws \<and> x \<in> {None, Some EvUnlock}"
proof -
  have split: "tr = ((xs @ [(p, Some e)]) @ ys) @ (q, Some e') # zs" using assms(4) by simp
  obtain l l' where l: "Lock (deps p) = Some l" "Lock (deps q) = Some l'" using assms(3) by blast
  have "e \<noteq> EvUnlock" using assms(5) by auto
  with acting_holds [OF assms(1) l(1) assms(4,5)] have "holds (EvLock True) EvUnlock p (xs @ [(p, Some e)])"
    by (simp add: state_lock.holds_snoc)
  moreover have "holds (EvLock True) EvUnlock q ((xs @ [(p, Some e)]) @ ys)" by (rule acting_holds [OF assms(1) l(2) split assms(6)])
  moreover have "lockLaw (EvLock True) EvUnlock ((xs @ [(p, Some e)]) @ ys)" using assms(2) unfolding split by (rule state_lock.lockLaw_prefix)
  ultimately show ?thesis using state_lock.handover assms(7) by blast
qed

section \<open>Witnesses\<close>

text \<open>One log after the other.\<close>

definition tagged :: "nat \<Rightarrow> event list \<Rightarrow> history" where
  "tagged p es = map (\<lambda>e. (p, Some e)) es"

lemma eventsOf_tagged [simp]: "eventsOf q (tagged p es) = (if q = p then es else [])"
  by (induction es) (auto simp: tagged_def)

lemma tagged_no_end [simp]: "(q, None) \<notin> set (tagged p es)"
  by (auto simp: tagged_def)

lemma tagged_splitE:
  assumes "tagged p es = xs @ a # ys"
  obtains es1 e es2 where "es = es1 @ e # es2" "xs = tagged p es1" "a = (p, Some e)" "ys = tagged p es2"
  using assms unfolding tagged_def by (auto simp: map_eq_append_conv map_eq_Cons_conv)

lemma lockLaw_sequel:
  assumes "\<not> holding acq rel False es"
  shows "lockLaw acq rel (tagged 0 es @ tagged 1 es')"
  unfolding lockLaw_def
proof (intro allI impI)
  fix xs p ys q
  assume eq: "tagged 0 es @ tagged 1 es' = xs @ (p, Some acq) # ys" and q: "holds acq rel q xs"
  then consider us where "tagged 0 es = xs @ us" "us @ tagged 1 es' = (p, Some acq) # ys"
    | us where "xs = tagged 0 es @ us" "tagged 1 es' = us @ (p, Some acq) # ys" by (auto simp: append_eq_append_conv2)
  then consider us where "tagged 0 es = xs @ (p, Some acq) # us" | "xs = tagged 0 es" "p = 1"
    | us where "xs = tagged 0 es @ us" "tagged 1 es' = us @ (p, Some acq) # ys"
    by cases (auto simp: append_eq_Cons_conv tagged_def)
  then show "q = p"
  proof cases
    case 1
    then show ?thesis using q by (elim tagged_splitE) (auto simp: holds_def split: if_splits)
  next
    case 2
    then show ?thesis using q assms by (auto simp: holds_def split: if_splits)
  next
    case 3
    then show ?thesis using q assms by (elim tagged_splitE) (auto simp: holds_def split: if_splits)
  qed
qed

lemma guarded_free:
  assumes "guarded es"
  shows "\<not> holding (EvLock True) EvUnlock False es"
proof -
  have "\<not> holding (EvLock True) EvUnlock False i" if "inside i" for i
    using that by (auto simp: inside_def holding_append)
  moreover have "\<not> holding (EvLock True) EvUnlock False rest" if "\<forall>e \<in> set rest. \<not> acting e \<and> \<not> locking e" for rest
    using that by (subst holding_plain) auto
  ultimately show ?thesis using assms by (auto simp: guarded_def released_def holding_append)
qed

text \<open>Two processes deploy one after the other; the first one's containers do not come up.\<close>

theorem processes_exclude_each_other_witness:
  "\<exists>tr xs ys zs us vs ws x. machineHistory (\<lambda>_. repoDeps ''docker-compose.yml'' (upFailsAt ''bbbb'')) tr \<and> lockLaw (EvLock True) EvUnlock tr
     \<and> tr = xs @ (0, Some EvUp) # ys @ (1, Some EvUp) # zs
     \<and> ys = us @ (0, x) # vs @ (1, Some (EvLock True)) # ws \<and> x \<in> {None, Some EvUnlock}"
proof -
  let ?d = "repoDeps ''docker-compose.yml'' (upFailsAt ''bbbb'')"
  obtain r es w where run: "repoRun ''docker-compose.yml'' ''bbbb'' demoOpts demoState = (r, (es, w))"
    "run_state (Reconcile (traced ?d) CallerCtx demoOpts) ([], repoAt demoState) = (r, (es, w))"
    by (rule repoRun_traced)
  have lock: "Lock ?d = Some (ret (Inr True), ret None)" by (simp add: repoDeps_def)
  have "EvUp \<in> set (fst (snd (repoRun ''docker-compose.yml'' ''bbbb'' demoOpts demoState)))" by code_simp
  then obtain es1 es2 where es: "es = es1 @ EvUp # es2" using run(1) by (auto dest: split_list)
  define tr where "tr = tagged 0 es @ tagged 1 es"
  have "processLog ?d es" using processLog.reconcile [OF processLog.fresh run(2)] by simp
  then have "\<exists>es'. processLog ?d es' \<and> prefix (eventsOf p tr) es'" for p
    using processLog.fresh by (auto simp: tr_def)
  moreover have no_end: "(p, None) \<notin> set tr" for p by (simp add: tr_def)
  ultimately have hist: "machineHistory (\<lambda>_. ?d) tr"
    using no_end unfolding machineHistory_def by auto
  have law: "lockLaw (EvLock True) EvUnlock tr"
    unfolding tr_def by (intro lockLaw_sequel guarded_free Reconcile_guarded [OF run(2) lock])
  have tr: "tr = tagged 0 es1 @ (0, Some EvUp) # (tagged 0 es2 @ tagged 1 es1) @ (1, Some EvUp) # tagged 1 es2"
    by (simp add: tr_def es tagged_def)
  have acts: "acting EvUp" "(0 :: nat) \<noteq> 1" and some: "Lock ?d \<noteq> None" by (simp_all add: lock)
  from processes_exclude_each_other [OF hist law some tr acts(1,1,2)] hist law tr show ?thesis by blast
qed

end
