(* ===== verification/Goroutines.thy ===== *)
theory Goroutines
  imports Processes Monitor "HOL-Library.Word"
begin

text \<open>
  The goroutines of one process: deployments, notifications and the monitor, over the mutex and the activity
  counter that \<^verbatim>\<open>internal/reconcile/reconcile.go\<close> keeps per state file. The counter is odd exactly while a run
  is under way, and a check of the monitor that finds the same even value before and after its looks has
  not been disturbed by one.
\<close>

section \<open>The goroutines of a process\<close>

text \<open>The phases of a run in its log: it holds the mutex, has counted its beginning, holds the state lock, has
  counted its end. \<^const>\<open>None\<close> is an event out of order.\<close>

datatype phase = Idle | Held | Active | Locked | Leaving

definition phaseStep :: "phase \<Rightarrow> event \<Rightarrow> phase option" where
  "phaseStep p e = (if \<not> locking e then if acting e \<and> p \<noteq> Locked then None else Some p
     else case (p, e) of
        (Idle, EvFlight b) \<Rightarrow> Some (if b then Held else Idle)
      | (Held, EvActivity) \<Rightarrow> Some Active
      | (Active, EvLock b) \<Rightarrow> Some (if b then Locked else Active)
      | (Locked, EvUnlock) \<Rightarrow> Some Active
      | (Active, EvActivity) \<Rightarrow> Some Leaving
      | (Leaving, EvFlightUnlock) \<Rightarrow> Some Idle
      | _ \<Rightarrow> None)"

fun phases :: "phase \<Rightarrow> event list \<Rightarrow> phase option" where
  "phases p [] = Some p"
| "phases p (e # es) = Option.bind (phaseStep p e) (\<lambda>q. phases q es)"

lemma phases_append: "phases p (es @ es') = Option.bind (phases p es) (\<lambda>q. phases q es')"
  by (induction p es rule: phases.induct) (auto split: bind_splits)

lemma phases_plain: "list_all (\<lambda>e. \<not> acting e \<and> \<not> locking e) es \<Longrightarrow> phases p es = Some p"
  by (induction es) (auto simp: phaseStep_def)

lemma phases_locked: "list_all (\<lambda>e. \<not> locking e) es \<Longrightarrow> phases Locked es = Some Locked"
  by (induction es) (auto simp: phaseStep_def)

lemma guarded_phases:
  assumes "guarded es"
  shows "phases Idle es = Some Idle"
proof -
  have ins: "phases Idle i = Some Active" if "inside i" for i
    using that by (auto simp: inside_def phaseStep_def phases_append phases_locked list_all_iff)
  then show ?thesis
    using assms by (auto simp: guarded_def released_def phases_append ins phases_plain list_all_iff phaseStep_def)
qed

text \<open>The goroutines of a daemon: the one that deploys, those that send notifications, and the monitor.\<close>

inductive threadLog :: "'w Deps \<Rightarrow> event list \<Rightarrow> bool" for d where
  fresh: "threadLog d []"
| reconcile: "threadLog d es \<Longrightarrow> run_state (Reconcile (traced d) c opts) ([], w) = (r, (es', w')) \<Longrightarrow> threadLog d (es @ es')"
| notify: "threadLog d es \<Longrightarrow> threadLog d (es @ [EvSend k])"
| monitor: "threadLog d es \<Longrightarrow> run_state (Check (traced d) c m) ([], w) = (m', (es', w')) \<Longrightarrow> threadLog d (es @ es')"

lemma looking_plain: "looking e \<Longrightarrow> \<not> acting e \<and> \<not> locking e"
  by (cases e) auto

lemma threadLog_phases: "threadLog d es \<Longrightarrow> Lock d = Some (tryLock, unlock) \<Longrightarrow> phases Idle es = Some Idle"
proof (induction rule: threadLog.induct)
  case (reconcile es c opts w r es' w')
  from guarded_phases [OF Reconcile_guarded [OF reconcile.hyps(2) reconcile.prems]] reconcile.IH [OF reconcile.prems]
  show ?case by (simp add: phases_append)
next
  case (monitor es c m w m' es' w')
  have "list_all looking es'" using keepsD [OF keeps_Check [where ?es0.0 = "[]"] _ monitor.hyps(2)] by simp
  then have "phases Idle es' = Some Idle" using looking_plain by (intro phases_plain) (auto simp: list_all_iff)
  with monitor.IH [OF monitor.prems] show ?case by (simp add: phases_append)
next
  case (notify es k)
  then show ?case by (simp add: phases_append phaseStep_def)
qed simp

text \<open>What happens in a process, and the phase of a goroutine.\<close>

definition processHistory :: "'w Deps \<Rightarrow> history \<Rightarrow> bool" where
  "processHistory d tr \<longleftrightarrow> (\<forall>p. (p, None) \<notin> set tr) \<and> (\<forall>p. \<exists>es. threadLog d es \<and> prefix (eventsOf p tr) es)"

definition phaseOf :: "nat \<Rightarrow> history \<Rightarrow> phase" where
  "phaseOf p tr = (case phases Idle (eventsOf p tr) of None \<Rightarrow> Idle | Some q \<Rightarrow> q)"

lemma threads_in_phase:
  assumes "processHistory d (tr @ tr')" and "Lock d = Some (tryLock, unlock)"
  shows "\<exists>q. phases Idle (eventsOf p tr) = Some q"
proof -
  obtain es zs where log: "threadLog d es" and "es = eventsOf p tr @ eventsOf p tr' @ zs"
    using assms(1) unfolding processHistory_def prefix_def by fastforce
  with threadLog_phases [OF log assms(2)] show ?thesis by (auto simp: phases_append split: bind_splits)
qed

lemma phaseOf_snoc:
  assumes "processHistory d ((tr @ [(r, x)]) @ tr')" and "Lock d = Some (tryLock, unlock)"
  shows "phaseOf p (tr @ [(r, x)]) = (case x of Some e \<Rightarrow> if r = p then the (phaseStep (phaseOf p tr) e) else phaseOf p tr | None \<Rightarrow> phaseOf p tr)"
    and "x = Some e \<Longrightarrow> phaseStep (phaseOf r tr) e \<noteq> None"
proof -
  obtain q where q: "phases Idle (eventsOf p tr) = Some q" using threads_in_phase [OF _ assms(2)] assms(1) by fastforce
  obtain q' where "phases Idle (eventsOf p (tr @ [(r, x)])) = Some q'" using threads_in_phase [OF assms] by blast
  then show "phaseOf p (tr @ [(r, x)]) = (case x of Some e \<Rightarrow> if r = p then the (phaseStep (phaseOf p tr) e) else phaseOf p tr | None \<Rightarrow> phaseOf p tr)"
    using q by (auto simp: phaseOf_def phases_append split: option.splits bind_splits)
next
  assume x: "x = Some e"
  obtain q where q: "phases Idle (eventsOf r tr) = Some q" using threads_in_phase [OF _ assms(2)] assms(1) by fastforce
  obtain q' where "phases Idle (eventsOf r (tr @ [(r, x)])) = Some q'" using threads_in_phase [OF assms] by blast
  then show "phaseStep (phaseOf r tr) e \<noteq> None"
    using q x by (auto simp: phaseOf_def phases_append split: bind_splits)
qed

text \<open>The activity counter: how often it has been counted up. A load gives its 64 bits.\<close>

definition activity :: "history \<Rightarrow> nat" where
  "activity tr = length (filter (\<lambda>(p, x). x = Some EvActivity) tr)"

definition counterLaw :: "history \<Rightarrow> bool" where
  "counterLaw tr \<longleftrightarrow> (\<forall>xs p v ys. tr = xs @ (p, Some (EvActivityLoad v)) # ys \<longrightarrow> v = activity xs mod 2 ^ 64)"

lemma activity_append [simp]: "activity (xs @ ys) = activity xs + activity ys"
  by (simp add: activity_def)

lemma activity_Cons [simp]: "activity ((p, x) # tr) = of_bool (x = Some EvActivity) + activity tr" "activity [] = 0"
  by (simp_all add: activity_def)

definition deploying :: "nat \<Rightarrow> history \<Rightarrow> bool" where
  "deploying p tr \<longleftrightarrow> phaseOf p tr = Active \<or> phaseOf p tr = Locked"

text \<open>How a step changes the phase: who holds the mutex, and who is counted.\<close>

lemma phaseStep_flight:
  "phaseStep ph e = Some ph' \<Longrightarrow> ph' \<noteq> Idle \<longleftrightarrow> e = EvFlight True \<or> e \<noteq> EvFlightUnlock \<and> ph \<noteq> Idle"
  by (cases ph; cases e) (auto simp: phaseStep_def split: if_splits)

lemma phaseStep_counted:
  "phaseStep ph e = Some ph' \<Longrightarrow> e \<noteq> EvActivity \<Longrightarrow> ph' = Active \<or> ph' = Locked \<longleftrightarrow> ph = Active \<or> ph = Locked"
  "phaseStep ph EvActivity = Some ph' \<Longrightarrow> ph = Held \<and> ph' = Active \<or> ph = Active \<and> ph' = Leaving"
  by (cases ph; cases e; auto simp: phaseStep_def split: if_splits) (cases ph; auto simp: phaseStep_def)

lemma phaseStep_acting: "phaseStep ph e = Some ph' \<Longrightarrow> acting e \<Longrightarrow> ph = Locked"
  by (cases e) (auto simp: phaseStep_def split: if_splits)

text \<open>The mutex is held from the first phase to the last, and the counter is odd exactly while somebody deploys.\<close>

lemma flight_phase:
  assumes "processHistory d (tr @ tr')" and "Lock d = Some (tryLock, unlock)"
  shows "holds (EvFlight True) EvFlightUnlock p tr \<longleftrightarrow> phaseOf p tr \<noteq> Idle"
  using assms(1)
proof (induction tr arbitrary: tr' rule: rev_induct)
  case Nil
  then show ?case by (simp add: phaseOf_def)
next
  case (snoc a tr)
  obtain r x where a: "a = (r, x)" by (cases a)
  have x: "x \<noteq> None" "(p, None) \<notin> set tr"
    using snoc.prems unfolding a by (cases x; auto simp: processHistory_def)+
  then obtain e where e: "x = Some e" by blast
  note step = phaseOf_snoc [OF snoc.prems [unfolded a e] assms(2)]
  have "holds (EvFlight True) EvFlightUnlock p tr \<longleftrightarrow> phaseOf p tr \<noteq> Idle" using snoc.IH [of "a # tr'"] snoc.prems by simp
  then show ?case
    using step(2) [OF refl] phaseStep_flight [of "phaseOf p tr" e] x
    unfolding a e step(1) single_flight.holds_snoc by auto
qed

lemma counter_parity:
  assumes "processHistory d (tr @ tr')" and "Lock d = Some (tryLock, unlock)" and "lockLaw (EvFlight True) EvFlightUnlock tr"
  shows "odd (activity tr) \<longleftrightarrow> (\<exists>p. deploying p tr)"
  using assms(1,3)
proof (induction tr arbitrary: tr' rule: rev_induct)
  case Nil
  then show ?case by (simp add: phaseOf_def deploying_def)
next
  case (snoc a tr)
  obtain r x where a: "a = (r, x)" by (cases a)
  have "x \<noteq> None" using snoc.prems(1) unfolding a by (cases x; auto simp: processHistory_def)+
  then obtain e where e: "x = Some e" by blast
  have law: "lockLaw (EvFlight True) EvFlightUnlock tr" using snoc.prems(2) by (rule single_flight.lockLaw_prefix)
  have before: "processHistory d (tr @ a # tr')" using snoc.prems(1) by simp
  note step = phaseOf_snoc [OF snoc.prems(1) [unfolded a e] assms(2)] and IH = snoc.IH [OF before law]
  have alone: "phaseOf q tr = Idle" if "phaseOf r tr \<noteq> Idle" "q \<noteq> r" for q
    using single_flight.one_holder [OF law] flight_phase [OF before assms(2)] that by blast
  obtain ph' where ph': "phaseStep (phaseOf r tr) e = Some ph'" using step(2) [OF refl] by blast
  have others: "phaseOf q (tr @ [a]) = phaseOf q tr" if "q \<noteq> r" for q using step(1) that by (simp add: a e)
  have self: "phaseOf r (tr @ [a]) = ph'" using step(1) ph' by (simp add: a e)
  show ?case
  proof (cases "e = EvActivity")
    case False
    have "deploying q (tr @ [a]) \<longleftrightarrow> deploying q tr" for q
      using others phaseStep_counted(1) [OF ph' False] self unfolding deploying_def by (cases "q = r") auto
    then show ?thesis using IH False by (simp add: a e)
  next
    case True
    from phaseStep_counted(2) [OF ph' [unfolded True]] have r: "phaseOf r tr \<noteq> Idle" "deploying r (tr @ [a]) \<longleftrightarrow> \<not> deploying r tr"
      by (auto simp: deploying_def self)
    have "\<not> deploying q tr \<and> \<not> deploying q (tr @ [a])" if "q \<noteq> r" for q
      using alone [OF r(1) that] others [OF that] by (simp add: deploying_def)
    then have "(\<exists>q. deploying q tr) \<longleftrightarrow> deploying r tr" "(\<exists>q. deploying q (tr @ [a])) \<longleftrightarrow> deploying r (tr @ [a])" by metis+
    then show ?thesis using IH True r(2) by (simp add: a e)
  qed
qed

text \<open>While the counter stays at an even value, nobody changes anything.\<close>

lemma quiet_while_even:
  assumes "processHistory d ((tr @ ys) @ tr')" and "Lock d = Some (tryLock, unlock)" and "lockLaw (EvFlight True) EvFlightUnlock (tr @ ys)"
    and "even (activity tr)" and "activity ys = 0" and "(p, Some e) \<in> set ys"
  shows "\<not> acting e"
proof
  assume "acting e"
  obtain us vs where ys: "ys = us @ (p, Some e) # vs" using assms(6) by (meson split_list)
  have hist: "processHistory d ((tr @ us) @ (p, Some e) # vs @ tr')" using assms(1) by (simp add: ys)
  then have "phaseStep (phaseOf p (tr @ us)) e \<noteq> None"
    by (intro phaseOf_snoc(2) [where tr' = "vs @ tr'", OF _ assms(2) refl]) simp
  then have "deploying p (tr @ us)" using phaseStep_acting \<open>acting e\<close> by (auto simp: deploying_def)
  moreover have "lockLaw (EvFlight True) EvFlightUnlock (tr @ us)"
    using assms(3) single_flight.lockLaw_prefix [of "tr @ us" "(p, Some e) # vs"] by (simp add: ys)
  ultimately have "odd (activity (tr @ us))" using counter_parity [OF hist assms(2)] by blast
  then show False using assms(4,5) by (simp add: ys)
qed

text \<open>The log of a check of the monitor: it looks at containers, and if it then sends an alert, the counter
  has the same even value before the first look and after the last one.\<close>

definition undisturbed :: "event list \<Rightarrow> bool" where
  "undisturbed es \<longleftrightarrow> sends es = [] \<or> (\<exists>v mid rest. es = EvActivityLoad v # mid @ EvActivityLoad v # rest \<and> even v
     \<and> (\<forall>n. EvSnapshot n \<notin> set rest))"

abbreviation peeking :: "event \<Rightarrow> bool" where
  "peeking e \<equiv> looking e \<and> (\<forall>k. e \<noteq> EvSend k)"

abbreviation reporting :: "event \<Rightarrow> bool" where
  "reporting e \<equiv> looking e \<and> (\<forall>n. e \<noteq> EvSnapshot n)"

interpretation peeks: reading_deps "traced d" "extends es0 peeking" for d :: "'w Deps" and es0
  by (rule traced_reading) simp_all

interpretation reports: querying_deps "traced d" "extends es0 reporting" for d :: "'w Deps" and es0
  by (rule traced_querying) simp

lemma keeps_reporting:
  "keeps (extends es0 reporting) (HeartbeatPing (traced d) c)"
  "keeps (extends es0 reporting) (observe (traced d) c st now ns m)"
proof -
  show "keeps (extends es0 reporting) (HeartbeatPing (traced d) c)" by (simp add: traced_def keeps_logged_extends)
  have "keeps (extends es0 reporting) (NotifierSendThrottled (traced d) c k e)" for c k e
    by (simp add: traced_def keeps_logged_extends)
  then show "keeps (extends es0 reporting) (observe (traced d) c st now ns m)"
    unfolding observe_def alert_def by (intro keeps_intros reports.keeps_addCommitContext)
qed

lemma keeps_peeking:
  "keeps (extends es0 peeking) (HeartbeatPing (traced d) c)"
  "keeps (extends es0 peeking) (snapshots (traced d) c names)"
  "keeps (extends es0 peeking) (watched (traced d) st)"
proof -
  show "keeps (extends es0 peeking) (HeartbeatPing (traced d) c)" by (simp add: traced_def keeps_logged_extends)
  show "keeps (extends es0 peeking) (snapshots (traced d) c names)"
    by (induction names) (auto intro!: keeps_intros peeks.keeps_ended peeks.snapshot split: sum.split)
  show "keeps (extends es0 peeking) (watched (traced d) st)"
    unfolding watched_def StacksFor_def by (intro keeps_intros peeks.queries)
qed

lemma sends_none: "sends es = [] \<longleftrightarrow> (\<forall>k. EvSend k \<notin> set es)"
  by (auto simp: sends_def filter_empty_conv split: event.splits)

lemma undisturbed_peeking: "extends [EvActivityLoad v] peeking u \<Longrightarrow> undisturbed (fst u)"
  by (cases u) (auto simp: extends_def undisturbed_def sends_none list_all_iff)

lemma undisturbed_reporting:
  assumes "extends ([EvActivityLoad v] @ mid @ [EvActivityLoad v]) reporting u" and "even v"
  shows "undisturbed (fst u)"
  using assms unfolding undisturbed_def extends_def by (intro disjI2) (force simp: list_all_iff)

lemma undisturbed_ping: "undisturbed es \<Longrightarrow> undisturbed (es @ [EvPing])"
  unfolding undisturbed_def
proof (elim disjE exE conjE)
  fix v mid rest assume "es = EvActivityLoad v # mid @ EvActivityLoad v # rest" "even v" "\<forall>n. EvSnapshot n \<notin> set rest"
  then show "sends (es @ [EvPing]) = [] \<or> (\<exists>v mid rest. es @ [EvPing] = EvActivityLoad v # mid @ EvActivityLoad v # rest \<and> even v
      \<and> (\<forall>n. EvSnapshot n \<notin> set rest))"
    by (intro disjI2 exI [of _ v] exI [of _ mid] exI [of _ "rest @ [EvPing]"]) auto
qed (simp add: sends_def)

lemma wp_ActivityLoad: "(\<And>v w'. Q v (fst u @ [EvActivityLoad v], w')) \<Longrightarrow> wp (ActivityLoad (traced d)) Q u"
  by (cases u) (simp add: traced_def wp_logged)

lemma wp_judge:
  assumes "extends [EvActivityLoad v] peeking u" and "even v"
  shows "wp (ClockNow (traced d)) (\<lambda>now. wp (foldM (observe (traced d) c st now) ss m \<bind> (\<lambda>m'. ret (True, m'))) (\<lambda>_ u. undisturbed (fst u)))
    (fst u @ [EvActivityLoad v], w')"
proof -
  obtain mid where mid: "fst u = [EvActivityLoad v] @ mid" using assms(1) by (cases u) (auto simp: extends_def)
  let ?I = "extends ([EvActivityLoad v] @ mid @ [EvActivityLoad v]) reporting"
  have "keeps ?I (ClockNow (traced d) \<bind> (\<lambda>now. foldM (observe (traced d) c st now) ss m \<bind> (\<lambda>m'. ret (True, m'))))"
    by (intro keeps_intros reports.keeps_ClockNow keeps_reporting)
  then have "wp (ClockNow (traced d) \<bind> (\<lambda>now. foldM (observe (traced d) c st now) ss m \<bind> (\<lambda>m'. ret (True, m')))) (\<lambda>_ u. undisturbed (fst u))
      (fst u @ [EvActivityLoad v], w')"
    by (rule wp_keepsI) (auto simp: mid intro: undisturbed_reporting [OF _ assms(2)])
  then show ?thesis by (simp only: wp_bind)
qed

lemma wp_checkStacks:
  assumes "extends [EvActivityLoad v] peeking u" and "even v"
  shows "wp (checkStacks (traced d) c st v names m) (\<lambda>_ u. undisturbed (fst u)) u"
  unfolding checkStacks_def Let_def
proof (intro wp_bindI wp_keepsI [OF keeps_peeking(2) assms(1)] wp_optionI wp_returnI wp_ActivityLoad wp_ifI)
  fix snaps and u' :: "event list \<times> 'a" and ss v' and w' :: 'a
  assume u': "extends [EvActivityLoad v] peeking u'"
  show "undisturbed (fst u')" using undisturbed_peeking [OF u'] .
  have "extends [EvActivityLoad v] peeking (fst u' @ [EvActivityLoad v'], w')" using u' by (cases u') (auto simp: extends_def)
  from undisturbed_peeking [OF this] show "undisturbed (fst (fst u' @ [EvActivityLoad v'], w'))" .
  assume "\<not> v' \<noteq> v"
  then show "wp (ClockNow (traced d)) (\<lambda>now. wp (foldM (observe (traced d) c st now) ss (rekey (monitorKey st names) m)
      \<bind> (\<lambda>m'. ret (True, m'))) (\<lambda>_ u. undisturbed (fst u))) (fst u' @ [EvActivityLoad v'], w')"
    using wp_judge [OF u' assms(2)] by simp
qed

lemma wp_check: "wp (check (traced d) c m) (\<lambda>_ u. undisturbed (fst u)) ([], w)"
  unfolding check_def
proof (intro wp_bindI wp_ActivityLoad wp_ifI wp_returnI)
  fix v and w' :: 'a
  have u: "extends [EvActivityLoad v] peeking (fst ([] :: event list, w) @ [EvActivityLoad v], w')" by simp
  from undisturbed_peeking [OF this] show "undisturbed (fst (fst ([] :: event list, w) @ [EvActivityLoad v], w'))" .
  assume "v mod 2 \<noteq> 1"
  then have v: "even v" by (simp add: even_iff_mod_2_eq_zero)
  show "wp (StoreLoad (traced d)) (\<lambda>r. wp (case_sum (\<lambda>e. ret (True, m))
      (\<lambda>st. if PendingCommit st \<noteq> [] \<or> PendingRevert st \<or> LastHealthyCommit st = [] then ret (True, m)
         else ClockNow (traced d) \<bind> (\<lambda>now. if Paused st now then ret (True, m)
           else watched (traced d) st \<bind> case_sum (\<lambda>e. ret (True, m)) (\<lambda>names. checkStacks (traced d) c st v names m))) r) (\<lambda>_ u. undisturbed (fst u)))
      (fst ([] :: event list, w) @ [EvActivityLoad v], w')"
    by (intro wp_keepsI [OF peeks.store_load u] wp_sumI wp_ifI wp_bindI wp_keepsI [OF peeks.keeps_ClockNow [where ?es0.0 = "[EvActivityLoad v]"]]
        wp_keepsI [OF keeps_peeking(3) [where ?es0.0 = "[EvActivityLoad v]"]] wp_checkStacks [OF _ v] wp_returnI undisturbed_peeking)
qed

lemma Check_undisturbed:
  assumes "run_state (Check (traced d) c m) ([], w) = (m', (es, w'))"
  shows "undisturbed es"
proof -
  have "wp (Check (traced d) c m) (\<lambda>_ u. undisturbed (fst u)) ([], w)"
    unfolding Check_def
    by (intro wp_bindI wp_mono [OF wp_check] wp_ifI wp_returnI)
      (auto simp: traced_def wp_def logged_def undisturbed_ping split: prod.splits)
  from wpD [OF this assms] show ?thesis by simp
qed

lemma eventsOf_split:
  "eventsOf p tr = as @ e # bs \<Longrightarrow> \<exists>xs ys. tr = xs @ (p, Some e) # ys \<and> eventsOf p xs = as \<and> eventsOf p ys = bs"
proof (induction tr arbitrary: as)
  case (Cons a tr)
  obtain q x where a: "a = (q, x)" by (cases a)
  show ?case
  proof (cases "q = p \<and> x \<noteq> None")
    case True
    then obtain e0 where x: "x = Some e0" "q = p" by blast
    show ?thesis
    proof (cases as)
      case Nil
      then show ?thesis using Cons.prems x a by (intro exI [of _ "[]"] exI [of _ tr]) auto
    next
      case (Cons a0 as0)
      then obtain xs ys where "tr = xs @ (p, Some e) # ys" "eventsOf p xs = as0" "eventsOf p ys = bs"
        using Cons.prems Cons.IH [of as0] x a by auto
      then show ?thesis using Cons Cons.prems x a by (intro exI [of _ "a # xs"] exI [of _ ys]) auto
    qed
  next
    case False
    then obtain xs ys where "tr = xs @ (p, Some e) # ys" "eventsOf p xs = as" "eventsOf p ys = bs"
      using Cons.prems Cons.IH [of as] a by (auto split: option.splits if_splits)
    then show ?thesis using False a by (intro exI [of _ "a # xs"] exI [of _ ys]) (auto split: option.splits)
  qed
qed simp

text \<open>
  The variables of the process behind the mutex and the counter: \<^verbatim>\<open>processSingleFlight\<close>, \<^verbatim>\<open>singleFlights\<close> and
  \<^verbatim>\<open>activities\<close>. Dependencies with the same state file share both; without one there is a mutex of its own.
  A mutex is whether it is locked, a missing entry of a map is the zero value that \<^verbatim>\<open>LoadOrStore\<close> puts there.
\<close>

record Globals =
  gl_processSingleFlight :: bool
  gl_singleFlights :: "string \<Rightarrow> bool"
  gl_activities :: "string \<Rightarrow> 64 word"

definition freshGlobals :: Globals where
  "freshGlobals = \<lparr>gl_processSingleFlight = False, gl_singleFlights = (\<lambda>_. False), gl_activities = (\<lambda>_. 0)\<rparr>"

definition singleFlight :: "Config \<Rightarrow> Globals \<Rightarrow> bool" where
  "singleFlight cfg g = (if cfg_StateFile cfg = [] then gl_processSingleFlight g else gl_singleFlights g (cfg_StateFile cfg))"

definition setSingleFlight :: "Config \<Rightarrow> bool \<Rightarrow> Globals \<Rightarrow> Globals" where
  "setSingleFlight cfg locked g = (if cfg_StateFile cfg = [] then g\<lparr>gl_processSingleFlight := locked\<rparr>
     else g\<lparr>gl_singleFlights := (gl_singleFlights g)(cfg_StateFile cfg := locked)\<rparr>)"

definition activityOf :: "Config \<Rightarrow> Globals \<Rightarrow> 64 word" where
  "activityOf cfg g = gl_activities g (cfg_StateFile cfg)"

definition addActivity :: "Config \<Rightarrow> Globals \<Rightarrow> Globals" where
  "addActivity cfg g = g\<lparr>gl_activities := (gl_activities g)(cfg_StateFile cfg := activityOf cfg g + 1)\<rparr>"

text \<open>One event on these variables, \<^const>\<open>None\<close> if they do not give the answer that was logged.\<close>

definition globalsStep :: "Config \<Rightarrow> event \<Rightarrow> Globals \<Rightarrow> Globals option" where
  "globalsStep cfg e g = (case e of
     EvFlight held \<Rightarrow> if held \<noteq> singleFlight cfg g then Some (setSingleFlight cfg True g) else None
   | EvFlightUnlock \<Rightarrow> Some (setSingleFlight cfg False g)
   | EvActivity \<Rightarrow> Some (addActivity cfg g)
   | EvActivityLoad v \<Rightarrow> if v = unat (activityOf cfg g) then Some g else None
   | _ \<Rightarrow> Some g)"

fun globalsAfter :: "Config \<Rightarrow> history \<Rightarrow> Globals \<Rightarrow> Globals option" where
  "globalsAfter cfg [] g = Some g"
| "globalsAfter cfg ((p, None) # tr) g = globalsAfter cfg tr g"
| "globalsAfter cfg ((p, Some e) # tr) g = Option.bind (globalsStep cfg e g) (globalsAfter cfg tr)"

lemma globalsAfter_append: "globalsAfter cfg (xs @ ys) g = Option.bind (globalsAfter cfg xs g) (globalsAfter cfg ys)"
  by (induction cfg xs g rule: globalsAfter.induct) (auto split: bind_splits)

lemma globals_simps [simp]:
  "singleFlight cfg (setSingleFlight cfg b g) = b" "activityOf cfg (setSingleFlight cfg b g) = activityOf cfg g"
  "singleFlight cfg (addActivity cfg g) = singleFlight cfg g" "activityOf cfg (addActivity cfg g) = activityOf cfg g + 1"
  by (simp_all add: singleFlight_def setSingleFlight_def activityOf_def addActivity_def)

lemma counter_globals:
  assumes "globalsAfter cfg tr freshGlobals = Some g"
  shows "activityOf cfg g = of_nat (activity tr)"
  using assms
proof (induction tr arbitrary: g rule: rev_induct)
  case Nil
  then show ?case by (auto simp: freshGlobals_def activityOf_def)
next
  case (snoc a tr)
  obtain p x where a: "a = (p, x)" by (cases a)
  from snoc.prems obtain g0 where g0: "globalsAfter cfg tr freshGlobals = Some g0" "globalsAfter cfg [a] g0 = Some g"
    by (auto simp: globalsAfter_append split: bind_splits)
  have "activityOf cfg g = activityOf cfg g0 + of_bool (x = Some EvActivity)"
    using g0(2) by (cases x) (auto simp: a globalsStep_def split: event.splits if_splits bind_splits)
  with snoc.IH [OF g0(1)] show ?case by (simp add: a)
qed

lemma counterLaw_globals:
  assumes "globalsAfter cfg tr freshGlobals = Some g"
  shows "counterLaw tr"
  unfolding counterLaw_def
proof (intro allI impI)
  fix xs p v ys
  assume "tr = xs @ (p, Some (EvActivityLoad v)) # ys"
  with assms obtain g0 where "globalsAfter cfg xs freshGlobals = Some g0" "v = unat (activityOf cfg g0)"
    by (auto simp: globalsAfter_append globalsStep_def split: bind_splits if_splits)
  then show "v = activity xs mod 2 ^ 64" using counter_globals by (simp add: unat_of_nat)
qed

text \<open>The mutex is locked exactly while a goroutine is in a run.\<close>

lemma mutex_globals:
  assumes "processHistory d (tr @ tr')" and "Lock d = Some (tryLock, unlock)" and "globalsAfter cfg tr freshGlobals = Some g"
  shows "lockLaw (EvFlight True) EvFlightUnlock tr \<and> (singleFlight cfg g \<longleftrightarrow> (\<exists>p. phaseOf p tr \<noteq> Idle))"
  using assms(1,3)
proof (induction tr arbitrary: g tr' rule: rev_induct)
  case Nil
  then show ?case by (auto simp: freshGlobals_def singleFlight_def phaseOf_def lockLaw_def)
next
  case (snoc a tr)
  obtain r x where a: "a = (r, x)" by (cases a)
  have "x \<noteq> None" using snoc.prems(1) unfolding a by (cases x; auto simp: processHistory_def)+
  then obtain e where e: "x = Some e" by blast
  from snoc.prems(2) obtain g0 where g0: "globalsAfter cfg tr freshGlobals = Some g0" and step: "globalsStep cfg e g0 = Some g"
    by (auto simp: globalsAfter_append a e split: bind_splits)
  have before: "processHistory d (tr @ a # tr')" using snoc.prems(1) by simp
  from snoc.IH [OF before g0] have law: "lockLaw (EvFlight True) EvFlightUnlock tr"
    and IH: "singleFlight cfg g0 \<longleftrightarrow> (\<exists>p. phaseOf p tr \<noteq> Idle)" by blast+
  note ph = phaseOf_snoc [OF snoc.prems(1) [unfolded a e] assms(2)]
  obtain ph' where ph': "phaseStep (phaseOf r tr) e = Some ph'" using ph(2) [OF refl] by blast
  have others: "phaseOf q (tr @ [a]) = (if q = r then ph' else phaseOf q tr)" for q using ph(1) ph' by (simp add: a e)
  note flight = phaseStep_flight [OF ph']
  have "lockLaw (EvFlight True) EvFlightUnlock (tr @ [a])"
    unfolding a e
  proof (rule single_flight.lockLaw_snocI [OF law])
    fix q
    assume "Some e = Some (EvFlight True)" and "holds (EvFlight True) EvFlightUnlock q tr"
    then show "q = r" using step IH flight_phase [OF before assms(2)] by (auto simp: globalsStep_def split: if_splits)
  qed
  moreover have "singleFlight cfg g \<longleftrightarrow> (\<exists>p. phaseOf p (tr @ [a]) \<noteq> Idle)"
  proof (cases "e = EvFlightUnlock")
    case True
    then have "phaseOf r tr \<noteq> Idle" "ph' = Idle" using ph' by (auto simp: phaseStep_def split: phase.splits)
    then have "phaseOf q (tr @ [a]) = Idle" for q
      using single_flight.one_holder [OF law] flight_phase [OF before assms(2)] unfolding others by auto
    then show ?thesis using step True by (auto simp: globalsStep_def)
  next
    case False
    have "singleFlight cfg g \<longleftrightarrow> singleFlight cfg g0 \<or> e = EvFlight True"
      using step False by (auto simp: globalsStep_def split: event.splits if_splits)
    then show ?thesis using IH flight False unfolding others by (cases "e = EvFlight True") auto
  qed
  ultimately show ?case by blast
qed

text \<open>C15: the monitor never takes a deployment for an incident: in a process whose goroutines deploy, notify and
  monitor at the same time over its mutex and its activity counter, every alert rests on looks at the
  containers during which nothing was changed, not a checkout, not a container and not the state file:
  all of them lie between two loads of the counter between which no run acts.\<close>

theorem alerts_never_blame_a_deployment:
  assumes "processHistory d tr" and "Lock d = Some (tryLock, unlock)" and "globalsAfter (Cfg d) tr freshGlobals = Some g"
    and "activity tr < 2 ^ 64"
    and "eventsOf p tr = es @ es'" and "run_state (Check (traced d) c m) ([], w) = (m', (es', w'))" and "EvSend k \<in> set es'"
  shows "\<exists>xs ys zs v. tr = xs @ (p, Some (EvActivityLoad v)) # ys @ (p, Some (EvActivityLoad v)) # zs \<and> eventsOf p xs = es
    \<and> (\<forall>q e. (q, Some e) \<in> set ys \<longrightarrow> \<not> acting e) \<and> (\<forall>n. EvSnapshot n \<notin> set (eventsOf p zs))"
proof -
  have law: "lockLaw (EvFlight True) EvFlightUnlock tr" using mutex_globals [of d tr "[]", OF _ assms(2,3)] assms(1) by simp
  have "sends es' \<noteq> []" using assms(7) by (auto simp: sends_none)
  then obtain v mid rest where es': "es' = EvActivityLoad v # mid @ EvActivityLoad v # rest" and "even v" and rest: "\<forall>n. EvSnapshot n \<notin> set rest"
    using Check_undisturbed [OF assms(6)] unfolding undisturbed_def by blast
  from eventsOf_split [OF assms(5) [unfolded es']] obtain xs tr1 where
    xs: "tr = xs @ (p, Some (EvActivityLoad v)) # tr1" "eventsOf p xs = es" "eventsOf p tr1 = mid @ EvActivityLoad v # rest" by blast
  from eventsOf_split [OF xs(3)] obtain ys zs where ys: "tr1 = ys @ (p, Some (EvActivityLoad v)) # zs" "eventsOf p zs = rest" by blast
  have tr: "tr = (xs @ (p, Some (EvActivityLoad v)) # ys) @ (p, Some (EvActivityLoad v)) # zs" using xs ys by simp
  have "v = activity xs mod 2 ^ 64" "v = activity (xs @ (p, Some (EvActivityLoad v)) # ys) mod 2 ^ 64"
    using counterLaw_globals [OF assms(3)] xs(1) tr unfolding counterLaw_def by blast+
  then have v: "v = activity xs" "activity ys = 0" using assms(4) tr by simp_all
  have "\<not> acting e" if "(q, Some e) \<in> set ys" for q e
  proof (rule quiet_while_even [OF _ assms(2) _ _ v(2) that])
    show "processHistory d (((xs @ [(p, Some (EvActivityLoad v))]) @ ys) @ (p, Some (EvActivityLoad v)) # zs)"
      using assms(1) tr by simp
    show "lockLaw (EvFlight True) EvFlightUnlock ((xs @ [(p, Some (EvActivityLoad v))]) @ ys)"
      using law single_flight.lockLaw_prefix unfolding tr by fastforce
    show "even (activity (xs @ [(p, Some (EvActivityLoad v))]))" using \<open>even v\<close> v(1) by simp
  qed
  then show ?thesis using tr xs(2) ys(2) rest by auto
qed

section \<open>Witnesses\<close>

text \<open>The monitor finds no containers for the third time and alerts; then a run follows.\<close>

definition alarmDeps :: "unit Deps" where
  "alarmDeps = demoDeps demoState None emptySnapshot\<lparr>NotifierEnabled := True\<rparr>"

definition checked :: "nat \<Rightarrow> MonitorState" where
  "checked n = fst (run_state (Run_Monitor (traced alarmDeps) CallerCtx n NewMonitor) ([], ()))"

definition alarmLog :: "event list" where
  "alarmLog = fst (snd (run_state (Check (traced alarmDeps) CallerCtx (checked 2)) ([], ())))"

definition deployLog :: "event list" where
  "deployLog = fst (snd (run_state (Reconcile (traced alarmDeps) CallerCtx demoOpts) ([], ())))"

theorem alerts_never_blame_a_deployment_witness:
  "\<exists>xs ys zs v. processHistory alarmDeps (tagged 0 alarmLog @ tagged 1 deployLog) \<and> sends alarmLog \<noteq> []
     \<and> tagged 0 alarmLog @ tagged 1 deployLog = xs @ (0, Some (EvActivityLoad v)) # ys @ (0, Some (EvActivityLoad v)) # zs
     \<and> eventsOf 0 xs = []"
proof -
  let ?tr = "tagged 0 alarmLog @ tagged 1 deployLog"
  obtain m' where check: "run_state (Check (traced alarmDeps) CallerCtx (checked 2)) ([], ()) = (m', (alarmLog, ()))"
    by (cases "run_state (Check (traced alarmDeps) CallerCtx (checked 2)) ([], ())") (auto simp: alarmLog_def)
  obtain r where deploy: "run_state (Reconcile (traced alarmDeps) CallerCtx demoOpts) ([], ()) = (r, (deployLog, ()))"
    by (cases "run_state (Reconcile (traced alarmDeps) CallerCtx demoOpts) ([], ())") (auto simp: deployLog_def)
  have logs: "threadLog alarmDeps alarmLog" "threadLog alarmDeps deployLog"
    using threadLog.monitor [OF threadLog.fresh check] threadLog.reconcile [OF threadLog.fresh deploy] by simp_all
  then have "\<exists>es. threadLog alarmDeps es \<and> prefix (eventsOf p ?tr) es" for p
    using threadLog.fresh by auto
  then have hist: "processHistory alarmDeps ?tr" unfolding processHistory_def by simp
  have lock: "Lock alarmDeps = Some (ret (Inr True), ret None)" by (simp add: alarmDeps_def demoDeps_def)
  have "globalsAfter (Cfg alarmDeps) ?tr freshGlobals \<noteq> None" by code_simp
  then obtain g where globals: "globalsAfter (Cfg alarmDeps) ?tr freshGlobals = Some g" by blast
  have "activity ?tr = 2" by code_simp
  then have small: "activity ?tr < 2 ^ 64" by simp
  have alert: "sends alarmLog \<noteq> []" by code_simp
  then obtain k where k: "EvSend k \<in> set alarmLog" by (auto simp: sends_none)
  have "eventsOf 0 ?tr = [] @ alarmLog" by simp
  from alerts_never_blame_a_deployment [OF hist lock globals small this check k] hist alert show ?thesis by blast
qed

end
