(* ===== verification/ConfigWarnings.thy ===== *)
theory ConfigWarnings
  imports Config
begin

text \<open>
  What loading a configuration tells its user besides the result: the warnings of \<^verbatim>\<open>Load\<close> about fields it does
  not know and about settings that have no effect (\<^verbatim>\<open>internal/config/config.go\<close>), and the level of the log.
\<close>

text \<open>The fields of a struct type by their JSON names; a field of a struct type has fields itself.\<close>

datatype structType = Struct (knownFields: "(string \<times> structType option) list")

definition notifyWebhookType :: structType where
  "notifyWebhookType = Struct [(''url'', None), (''headers'', None)]"

definition webhookType :: structType where
  "webhookType = Struct [(''listen'', None), (''path'', None), (''secret'', None)]"

definition configType :: structType where
  "configType = Struct ([(''schema_version'', None), (''repo_path'', None), (''remote'', None), (''branch'', None),
     (''compose_file'', None), (''compose_dir'', None), (''project_name'', None), (''ssh_key'', None), (''state_file'', None),
     (''retry_attempts'', None), (''retry_delay_seconds'', None), (''docker_timeout_seconds'', None),
     (''docker_up_timeout_seconds'', None), (''poll_interval_seconds'', None), (''monitor_interval_seconds'', None),
     (''deploy_window'', None), (''health_watch_seconds'', None), (''health_poll_interval_seconds'', None),
     (''health_unhealthy_streak'', None), (''health_restart_tolerance'', None), (''discord_webhook'', None),
     (''repo_url'', None), (''heartbeat_url'', None), (''log_format'', None), (''log_level'', None), (''pprof_listen'', None),
     (''webhook'', Some webhookType), (''notify_webhook'', Some notifyWebhookType)])"

text \<open>A document as a Go map: of a repeated key the last value.\<close>

fun rawMap :: "(string \<times> json) list \<Rightarrow> (string \<times> json) list" where
  "rawMap [] = []"
| "rawMap ((k, v) # kvs) = (if k \<in> fst ` set kvs then rawMap kvs else (k, v) # rawMap kvs)"

lemma nested_smaller:
  assumes "map_of (knownFields t) key = Some (Some field)"
  shows "size field < size t"
proof -
  have "map_of fs key = Some (Some field) \<Longrightarrow> size field < size (Struct fs)" for fs
    by (induction fs) (auto split: if_splits)
  with assms show ?thesis by (cases t) simp
qed

text \<open>The names of the fields that are warned about. A nested value that is no object is skipped.\<close>

function warnUnknownFields :: "structType \<Rightarrow> (string \<times> json) list \<Rightarrow> string \<Rightarrow> string list" where
  "warnUnknownFields t raw pre = concat (map (\<lambda>(key, value).
     (case map_of (knownFields t) key of
        None \<Rightarrow> [pre @ key]
      | Some None \<Rightarrow> []
      | Some (Some field) \<Rightarrow>
          (case value of JObject nested \<Rightarrow> warnUnknownFields field (rawMap nested) (pre @ key @ ''.'') | _ \<Rightarrow> []))) raw)"
  by pat_completeness auto
termination
  by (relation "measure (\<lambda>(t, _, _). size t)") (auto dest: nested_smaller)

declare warnUnknownFields.simps [simp del]

definition rawFieldString :: "(string \<times> json) list \<Rightarrow> string \<Rightarrow> string" where
  "rawFieldString raw field =
     (case map_of raw field of None \<Rightarrow> [] | Some (JString s) \<Rightarrow> s | Some _ \<Rightarrow> [])"

text \<open>The warnings on the way to a configuration \<open>cfg\<close>, in the order of the code.\<close>

datatype warning = UnknownField string | IgnoringComposeFile | WatchDisabled

definition loadWarnings :: "(string \<times> json) list \<Rightarrow> Overrides \<Rightarrow> Config \<Rightarrow> warning list" where
  "loadWarnings raw overrides cfg =
     (let composeFileExplicit = rawFieldString raw ''compose_file'' \<noteq> [] \<or> o_ComposeFile overrides \<noteq> None
      in map UnknownField (warnUnknownFields configType raw [])
         @ (if cfg_ComposeDir cfg \<noteq> [] \<and> composeFileExplicit then [IgnoringComposeFile] else [])
         @ (if cfg_HealthWatchSeconds cfg = 0 then [WatchDisabled] else []))"

text \<open>The levels of \<^verbatim>\<open>log/slog\<close>.\<close>

definition Level :: "Config \<Rightarrow> int" where
  "Level c = (case map_of [(''debug'', -4), (''info'', 0), (''warn'', 4), (''error'', 8)] (cfg_LogLevel c) of
     Some level \<Rightarrow> level | None \<Rightarrow> 0)"

section \<open>A field that is warned about has no effect\<close>

lemma jlookup_other: "k \<noteq> k' \<Longrightarrow> jlookup k (xs @ (k', v) # ys) = jlookup k (xs @ ys)"
  by (induction xs) (auto split: option.split)

lemma ov_other:
  "key \<noteq> k \<Longrightarrow> ovString (xs @ (k, v) # ys) key old = ovString (xs @ ys) key old"
  "key \<noteq> k \<Longrightarrow> ovInt (xs @ (k, v) # ys) key n = ovInt (xs @ ys) key n"
  "key \<noteq> k \<Longrightarrow> ovObject (xs @ (k, v) # ys) key x dec = ovObject (xs @ ys) key x dec"
  by (simp_all add: ovString_def ovInt_def ovObject_def jlookup_other)

lemma decode_unknown:
  assumes "ToLower k \<notin> fst ` set (knownFields configType)"
  shows "decodeConfig c (JObject (xs @ (k, v) # ys)) = decodeConfig c (JObject (xs @ ys))"
proof (cases "v = JNull")
  case False
  have "name \<noteq> ToLower k" if "name \<in> fst ` set (knownFields configType)" for name using that assms by blast
  then show ?thesis
    unfolding decodeConfig.simps Let_def using False
    by (simp add: ov_other configType_def)
qed simp

lemma rawMap_keys: "fst ` set (rawMap kvs) = fst ` set kvs"
  by (induction kvs rule: rawMap.induct) auto

lemma unknown_warned:
  assumes "k \<in> fst ` set raw" and "k \<notin> fst ` set (knownFields t)"
  shows "pre @ k \<in> set (warnUnknownFields t raw pre)"
proof -
  obtain v where "(k, v) \<in> set raw" using assms(1) by auto
  moreover have "map_of (knownFields t) k = None" using assms(2) by (simp add: map_of_eq_None_iff)
  ultimately show ?thesis by (subst warnUnknownFields.simps) (auto intro!: bexI [of _ "(k, v)"])
qed

text \<open>A misspelt field does not pass in silence: a field that the configuration does not have, whatever the case
  of its letters, changes nothing and is warned about.\<close>

theorem misspelt_field_warned:
  assumes "ToLower k \<notin> fst ` set (knownFields configType)" and "k \<notin> fst ` set (knownFields configType)"
  shows "decodeConfig c (JObject (xs @ (k, v) # ys)) = decodeConfig c (JObject (xs @ ys))
    \<and> UnknownField k \<in> set (loadWarnings (rawMap (xs @ (k, v) # ys)) ov cfg)"
proof -
  have "[] @ k \<in> set (warnUnknownFields configType (rawMap (xs @ (k, v) # ys)) [])"
    by (rule unknown_warned) (use assms(2) in \<open>simp_all add: rawMap_keys\<close>)
  then show ?thesis using decode_unknown [OF assms(1)] by (simp add: loadWarnings_def Let_def)
qed

theorem misspelt_field_warned_witness:
  "decodeConfig Default (JObject ([] @ (''brunch'', JString ''main'') # [])) = decodeConfig Default (JObject ([] @ []))
    \<and> UnknownField ''brunch'' \<in> set (loadWarnings (rawMap ([] @ (''brunch'', JString ''main'') # [])) noOverrides Default)"
proof -
  have "ToLower ''brunch'' \<notin> fst ` set (knownFields configType)" "''brunch'' \<notin> fst ` set (knownFields configType)" by code_simp+
  from misspelt_field_warned [OF this] show ?thesis .
qed

text \<open>A field whose letters differ from a known one in their case only is warned about as unknown, and takes effect.\<close>

theorem cased_field_warned_but_effective:
  "warnUnknownFields configType (rawMap [(''Branch'', JString ''prod'')]) [] = [''Branch'']
   \<and> map_option cfg_Branch (decodeConfig Default (JObject [(''Branch'', JString ''prod'')])) = Some ''prod''"
  by code_simp

end
