(* ===== verification/StateOnDisk.thy ===== *)
theory StateOnDisk
  imports CliMain
begin

text \<open>
  The whole process on its disk: the store of \<^verbatim>\<open>internal/state\<close>, the runs of \<^verbatim>\<open>internal/reconcile\<close> and the commands
  of \<^verbatim>\<open>cmd/composelock\<close> put together. Where the files of the state are a part of the world that only the store writes,
  no command, whatever fails and whenever the process is killed, leaves a state
  file behind that the next process cannot load.
\<close>

section \<open>Contents of the disk\<close>

text \<open>A content of the disk under which the state file loads as a well-formed state.\<close>

definition goodFile :: "string \<Rightarrow> (string \<Rightarrow> fileData option) \<Rightarrow> bool" where
  "goodFile path f \<longleftrightarrow> (case f path of
     None \<Rightarrow> True
   | Some Torn \<Rightarrow> False
   | Some (Document j) \<Rightarrow> (case decodeState j of None \<Rightarrow> False | Some st \<Rightarrow> SchemaVersion st \<le> schemaVersion \<and> wfState st))"

lemma wfState_version [simp]: "wfState (st\<lparr>SchemaVersion := v\<rparr>) = wfState st"
  by (simp add: wfState_def)

lemma wfState_normal [simp]: "wfState (normalState st) = wfState st"
  by (simp add: wfState_def normalState_def)

lemma goodFile_iff:
  assumes "unreadable d path = None"
  shows "goodFile path f \<longleftrightarrow> (\<exists>st. Load path (d\<lparr>files := f\<rparr>) = Inr st \<and> wfState st)"
  using assms wfState_New by (auto simp: goodFile_def Load_def split: option.splits fileData.splits if_splits)

text \<open>The states that may be saved, and what a save makes of the disk on its way.\<close>

definition storable :: "State \<Rightarrow> bool" where
  "storable st \<longleftrightarrow> wfState st \<and> SchemaVersion st = schemaVersion"

lemma goodFile_saved: "storable st \<Longrightarrow> f path = Some (Document (encodeState st)) \<Longrightarrow> goodFile path f"
  by (simp add: goodFile_def decodeState_encode storable_def) (simp add: normalState_def)

lemma Save_contents:
  assumes "Save tmp path' st d = (r, fss)" and "tmp \<noteq> path" and "f \<in> set fss"
  shows "f path = files d path \<or> path' = path \<and> f path = Some (Document (encodeState st))"
  using assms by (cases "faults d") (auto simp: Save_def Let_def split: saveFault.splits if_splits)

lemma goodFile_Save:
  assumes "Save tmp path' st d = (r, fss)" and "tmp \<noteq> path" and "path' = path \<longrightarrow> storable st" and "goodFile path (files d)"
  shows "list_all (goodFile path) fss"
proof (unfold list_all_iff, rule ballI)
  fix f assume "f \<in> set fss"
  from Save_contents [OF assms(1,2) this] show "goodFile path f"
    using assms(3,4) goodFile_saved by (auto simp: goodFile_def)
qed

section \<open>A world with a disk\<close>

text \<open>The state file loads, now and after a crash at any moment so far.\<close>

definition intact :: "'w Platform \<Rightarrow> string \<Rightarrow> 'w \<Rightarrow> bool" where
  "intact p path w \<longleftrightarrow> (let d = pf_Disk p w
     in unreadable d path = None \<and> (\<forall>f \<in> set (files d # past d). \<exists>st. Load path (d\<lparr>files := f\<rparr>) = Inr st \<and> wfState st))"

lemma intact_iff:
  "intact p path w \<longleftrightarrow> unreadable (pf_Disk p w) path = None \<and> list_all (goodFile path) (files (pf_Disk p w) # past (pf_Disk p w))"
  by (cases "unreadable (pf_Disk p w) path = None") (auto simp add: intact_def Let_def list_all_iff goodFile_iff)

definition spares :: "'w Platform \<Rightarrow> ('w, 'a) state \<Rightarrow> bool" where
  "spares p m \<longleftrightarrow> (\<forall>w. pf_Disk p (snd (run_state m w)) = pf_Disk p w)"

lemma keeps_spares: "spares p m \<Longrightarrow> keeps (intact p path) m"
  unfolding keeps_def spares_def intact_def by metis

text \<open>What is outside the program leaves the files of the state alone: only the store writes them.\<close>

definition sparesHost :: "'w Platform \<Rightarrow> 'w Host \<Rightarrow> bool" where
  "sparesHost p h \<longleftrightarrow> (\<forall>q x. spares p (ReadFile h q) \<and> spares p (ReadDir h q) \<and> spares p (StatIsDir h q)
     \<and> spares p (cacheGet h) \<and> spares p (cachePut h x))"

definition sparesSDK :: "'w Platform \<Rightarrow> 'w SDK \<Rightarrow> bool" where
  "sparesSDK p sdk \<longleftrightarrow> (\<forall>c fs n prj up pull down ps. spares p (sdkLoadProject sdk c fs n) \<and> spares p (sdkUp sdk c prj up)
     \<and> spares p (sdkPull sdk c prj pull) \<and> spares p (sdkDown sdk c n down) \<and> spares p (sdkPs sdk c n ps)
     \<and> spares p (sdkImageInspect sdk c n) \<and> spares p (sdkContainerInspect sdk c n))"

definition sparesRuntime :: "'w Platform \<Rightarrow> 'w Deps \<Rightarrow> bool" where
  "sparesRuntime p rt \<longleftrightarrow> (\<forall>c t n. spares p (Now (Clk rt)) \<and> spares p (Sleep (Clk rt) c t) \<and> spares p (CtxErr rt c)
     \<and> spares p (SleepCtx rt c t) \<and> spares p (TimeNow rt) \<and> spares p (Schedule rt n) \<and> spares p (Admit rt c)
     \<and> spares p (FlightTry rt) \<and> spares p (FlightUnlock rt) \<and> spares p (ActivityAdd rt))"

definition onlyStoreWrites :: "'w Platform \<Rightarrow> bool" where
  "onlyStoreWrites p \<longleftrightarrow> (\<forall>d w. pf_Disk p (pf_SetDisk p d w) = d) \<and> (\<forall>s w. pf_Disk p (pf_SetSent p s w) = pf_Disk p w)
     \<and> sparesHost p (pf_Host p) \<and> sparesHost p (HostOS (pf_Runtime p)) \<and> sparesRuntime p (pf_Runtime p)
     \<and> (\<forall>sdk. pf_SDK p = Inr sdk \<longrightarrow> sparesSDK p sdk)
     \<and> (\<forall>q text. spares p (pf_EvalSymlinks p q) \<and> spares p (pf_Stat p q) \<and> spares p (pf_WriteFile p q text))
     \<and> (\<forall>q. spares p (fl_TryLock (pf_Flock p q)) \<and> spares p (fl_TryRLock (pf_Flock p q)) \<and> spares p (fl_Unlock (pf_Flock p q)))
     \<and> (\<forall>c dir env name args. spares p (pf_Exec p c dir env name args))
     \<and> (\<forall>c url rq sc. spares p (pf_Get p c url) \<and> spares p (pf_RoundTrip p c rq) \<and> spares p (pf_Listen p sc))"

lemma keeps_onDisk_load: "onlyStoreWrites p \<Longrightarrow> keeps (intact p path) (onDisk p (FileStore_Load path'))"
  by (rule keeps_spares) (simp add: spares_def onDisk_def FileStore_Load_def onlyStoreWrites_def)

lemma keeps_onDisk_save:
  assumes "onlyStoreWrites p" and "path' = path \<longrightarrow> storable st" and "tmpName path' \<noteq> path"
  shows "keeps (intact p path) (onDisk p (FileStore_Save path' st))"
proof -
  have "intact p path w'" if "intact p path w" and run: "run_state (onDisk p (FileStore_Save path' st)) w = (a, w')" for w w' a
  proof -
    obtain r fss where save: "Save (tmpName path') path' st (pf_Disk p w) = (r, fss)" by fastforce
    then have "fss \<noteq> []" by (auto simp: Save_def Let_def split: saveFault.splits)
    have w': "pf_Disk p w' = pf_Disk p w\<lparr>files := last fss, faults := tl (faults (pf_Disk p w)), past := past (pf_Disk p w) @ fss\<rparr>"
      using run assms(1) save by (auto simp: onDisk_def FileStore_Save_def onlyStoreWrites_def)
    have "list_all (goodFile path) fss" using goodFile_Save [OF save assms(3,2)] that(1) by (simp add: intact_iff)
    then show ?thesis using that(1) \<open>fss \<noteq> []\<close> unfolding intact_iff w' by (auto simp: list_all_iff)
  qed
  then show ?thesis unfolding keeps_def by (metis prod.collapse)
qed

lemma CheckWritable_contents: "CheckWritable tmp path' d = (r, f) \<Longrightarrow> tmp \<noteq> path \<Longrightarrow> f path = files d path"
  unfolding CheckWritable_def by (cases "faults d"; cases "hd (faults d)") auto

lemma keeps_onDisk_check:
  assumes "onlyStoreWrites p" and "tmpName path' \<noteq> path"
  shows "keeps (intact p path) (onDisk p (FileStore_CheckWritable path'))"
proof -
  have "intact p path w'" if "intact p path w" and run: "run_state (onDisk p (FileStore_CheckWritable path')) w = (a, w')" for w w' a
  proof -
    let ?d = "pf_Disk p w"
    obtain r f where check: "CheckWritable (tmpName path') path' ?d = (r, f)" by fastforce
    have same: "goodFile path f' = goodFile path (files ?d)" if "f' path = files ?d path" for f'
      unfolding goodFile_def that ..
    let ?new = "case r of None \<Rightarrow> [(files ?d)(tmpName path' \<mapsto> Torn), f] | Some _ \<Rightarrow> [f]"
    have "pf_Disk p w' = ?d\<lparr>files := f, faults := tl (faults ?d), past := past ?d @ ?new\<rparr>"
      using run assms(1) check by (auto simp: onDisk_def FileStore_CheckWritable_def onlyStoreWrites_def)
    moreover have "goodFile path f = goodFile path (files ?d)" by (rule same) (rule CheckWritable_contents [OF check assms(2)])
    moreover from this have "list_all (goodFile path) ?new \<longleftrightarrow> goodFile path (files ?d)"
      using same [of "(files ?d)(tmpName path' \<mapsto> Torn)"] assms(2) by (cases r) auto
    ultimately show ?thesis using that(1) unfolding intact_iff by simp
  qed
  then show ?thesis unfolding keeps_def by (metis prod.collapse)
qed

section \<open>Dependencies on the disk\<close>

text \<open>Every dependency of a process keeps the state file intact: those outside spare it, and the store only saves
  good states.\<close>

lemma outside_keeps:
  assumes "onlyStoreWrites p"
  shows "keeps (intact p path) (pf_EvalSymlinks p q)" "keeps (intact p path) (pf_Stat p q)" "keeps (intact p path) (pf_WriteFile p q text)"
    "keeps (intact p path) (fst (stateLock (pf_Flock p q) x))" "keeps (intact p path) (snd (stateLock (pf_Flock p q) x))"
    "keeps (intact p path) (pf_Exec p c dir env name args)" "keeps (intact p path) (pf_Get p c url)"
    "keeps (intact p path) (pf_RoundTrip p c rq)" "keeps (intact p path) (pf_Listen p sc)"
  using assms by (auto simp: onlyStoreWrites_def stateLock_def sharedLock_def intro!: keeps_spares)

lemma host_keeps:
  assumes "sparesHost p h"
  shows "keeps (intact p path) (ReadFile h q)" "keeps (intact p path) (ReadDir h q)" "keeps (intact p path) (StatIsDir h q)"
    "keeps (intact p path) (cacheGet h)" "keeps (intact p path) (cachePut h x)"
  using assms by (auto simp: sparesHost_def intro!: keeps_spares)

lemma sdk_keeps:
  assumes "sparesSDK p sdk"
  shows "keeps (intact p path) (sdkLoadProject sdk c fs n)" "keeps (intact p path) (sdkUp sdk c prj up)" "keeps (intact p path) (sdkPull sdk c prj pull)"
    "keeps (intact p path) (sdkDown sdk c n down)" "keeps (intact p path) (sdkPs sdk c n ps)"
    "keeps (intact p path) (sdkImageInspect sdk c n)" "keeps (intact p path) (sdkContainerInspect sdk c n)"
  using assms by (auto simp: sparesSDK_def intro!: keeps_spares)

lemma runtime_keeps:
  assumes "sparesRuntime p rt"
  shows "keeps (intact p path) (Now (Clk rt))" "keeps (intact p path) (Sleep (Clk rt) c t)" "keeps (intact p path) (CtxErr rt c)"
    "keeps (intact p path) (SleepCtx rt c t)" "keeps (intact p path) (TimeNow rt)" "keeps (intact p path) (Schedule rt n)"
    "keeps (intact p path) (Admit rt c)" "keeps (intact p path) (FlightTry rt)" "keeps (intact p path) (FlightUnlock rt)"
    "keeps (intact p path) (ActivityAdd rt)"
  using assms by (auto simp: sparesRuntime_def intro!: keeps_spares)

lemma service_keeps:
  assumes "sparesSDK p (cc_sdk s)" and "\<And>c. keeps (intact p path) (cc_ctxErr s c)"
  shows "keeps (intact p path) (Service_LoadProject s c fs n)" and "keeps (intact p path) (Service_Up s c prj)"
    and "keeps (intact p path) (Service_Pull s c prj)" and "keeps (intact p path) (Service_Down s c n)" and "keeps (intact p path) (Service_Ps s c n)"
proof -
  note sdk = sdk_keeps [OF assms(1)]
  have deadline: "keeps (intact p path) (deadlineError s caller inner e)" for caller inner e
    unfolding deadlineError_def by (intro keeps_intros assms(2))
  have present: "keeps (intact p path) (imagePresent (cc_sdk s) c img)" for c img
    unfolding imagePresent_def by (intro keeps_intros sdk)
  have pull: "keeps (intact p path) (imagesToPull policy (imagePresent (cc_sdk s) c) svcs)" for policy c svcs
    by (induction svcs) (simp_all, auto intro!: keeps_intros present)
  show "keeps (intact p path) (Service_LoadProject s c fs n)" unfolding Service_LoadProject_def by (intro keeps_intros sdk)
  show "keeps (intact p path) (Service_Up s c prj)" unfolding Service_Up_def by (intro keeps_intros sdk deadline)
  show "keeps (intact p path) (Service_Pull s c prj)" unfolding Service_Pull_def by (intro keeps_intros sdk deadline pull)
  show "keeps (intact p path) (Service_Down s c n)" unfolding Service_Down_def by (intro keeps_intros sdk)
  show "keeps (intact p path) (Service_Ps s c n)" unfolding Service_Ps_def by (intro keeps_intros sdk)
qed

lemma snapshotter_keeps:
  assumes "sparesSDK p (cc_sdk s)" and "\<And>c. keeps (intact p path) (cc_ctxErr s c)" and "keeps (intact p path) timeNow"
  shows "keeps (intact p path) (Snapshotter_Snapshot s timeNow limit c n)"
proof -
  have "keeps (intact p path) (inspectEach (restartCount (cc_sdk s) c) ids)" for c ids
    by (induction ids) (auto simp: restartCount_def intro!: keeps_intros sdk_keeps [OF assms(1)])
  then show ?thesis unfolding Snapshotter_Snapshot_def by (intro keeps_intros service_keeps [OF assms(1,2)] assms(3))
qed

lemma notifier_keeps:
  assumes "onlyStoreWrites p"
  shows "keeps (intact p path) (notifyWith p n c key emb)"
proof -
  have rt: "sparesRuntime p (pf_Runtime p)" using assms by (simp add: onlyStoreWrites_def)
  have ops: "keeps (intact p path) (post (transport p) c s data)" "keeps (intact p path) (tNow (transport p))"
      "keeps (intact p path) (tSleep (transport p) c t)" for c s data t
    by (simp_all add: transport_def postSink_def) (intro keeps_intros outside_keeps [OF assms] runtime_keeps [OF rt])+
  have one: "keeps (intact p path) (deliver (transport p) c s emb)" for c s
    unfolding deliver_def by (intro keeps_intros ops)
  have "keeps (intact p path) (sendToSink (transport p) c key emb s acc)" for s acc
    unfolding sendToSink_def by (intro keeps_intros ops one)
  then have "keeps (intact p path) (SendThrottled (transport p) n' c key emb)" for n'
    unfolding SendThrottled_def Send_def by (intro keeps_intros one)
  moreover have "keeps (intact p path) (State (\<lambda>w. (w, w)))" by (simp add: keeps_def)
  moreover have "keeps (intact p path) (State (\<lambda>w. (x, pf_SetSent p s w)))" for x s
    by (rule keeps_spares) (use assms in \<open>simp add: spares_def onlyStoreWrites_def\<close>)
  ultimately show ?thesis unfolding notifyWith_def by (intro keeps_intros)
qed

text \<open>The dependencies that the setup builds keep the contract of a run: a state that is saved to the state file is
  well-formed and of this version.\<close>

abbreviation savable :: "string \<Rightarrow> string \<Rightarrow> State \<Rightarrow> bool" where
  "savable path' path \<equiv> \<lambda>st. path' = path \<longrightarrow> storable st"

lemma storable_rules:
  "storable st \<Longrightarrow> sameRecord st st' \<Longrightarrow> storable st'" "storable st \<Longrightarrow> storable (MarkFailed st commit t)"
  "storable st \<Longrightarrow> storable (promoted st commit names t)" "storable st \<Longrightarrow> storable (Record st e)"
  "storable st \<Longrightarrow> storable (Pause st t until reason)" "storable st \<Longrightarrow> storable (Resume st)" "storable New"
  unfolding storable_def
  by (auto simp: wfState_MarkFailed wfState_promoted wfState_Record wfState_Pause wfState_Resume wfState_New intro: wfState_sameRecord)
    (auto simp: sameRecord_def MarkFailed_def promoted_def ForgetAllFailed_def Record_def Pause_def Resume_def New_def Let_def)

lemma built_contract:
  assumes "onlyStoreWrites p" and "buildDeps p cfg = Inr d" and "tmpName (cfg_StateFile cfg) \<noteq> path"
  shows "run_contract (d\<lparr>Lock := l\<rparr>) (intact p path) (savable (cfg_StateFile cfg) path) (\<lambda>_. True) (\<lambda>_. True) (\<lambda>_. True) True True True"
proof -
  obtain sdk where sdk: "pf_SDK p = Inr sdk"
    using assms(2) by (auto simp: buildDeps_def NewService_def Let_def split: sum.splits option.splits)
  let ?s = "\<lparr>cc_sdk = sdk, cc_timeout = seconds (cfg_DockerTimeoutSeconds cfg), cc_upTimeout = seconds (cfg_DockerUpTimeoutSeconds cfg),
    cc_ctxErr = CtxErr (pf_Runtime p)\<rparr>"
  have parts: "sparesSDK p (cc_sdk ?s)" "sparesRuntime p (pf_Runtime p)" "sparesHost p (HostOS (pf_Runtime p))"
    using assms(1) sdk by (auto simp: onlyStoreWrites_def)
  note outside = outside_keeps [OF assms(1)] runtime_keeps [OF parts(2)] host_keeps [OF parts(3)]
    service_keeps [OF parts(1)] snapshotter_keeps [OF parts(1)]
  have exec: "keeps (intact p path) (osRunner p c dir env name args)" for c dir env name args
    unfolding osRunner_def OSRunner_Run_def by (intro keeps_intros outside)
  show ?thesis
    using assms(2) sdk
    by unfold_locales
      (auto simp: buildDeps_def NewService_def Let_def split: option.splits
        intro!: outside exec keeps_onDisk_load [OF assms(1)] keeps_onDisk_save [OF assms(1) _ assms(3)] intro: storable_rules)
qed

section \<open>Commands\<close>

text \<open>Dependencies as the setup leaves them.\<close>

definition ready :: "'w Platform \<Rightarrow> bool \<Rightarrow> 'w Deps \<Rightarrow> bool" where
  "ready p x d \<longleftrightarrow> (\<exists>cfg d0. buildDeps p cfg = Inr d0 \<and> d = d0\<lparr>Lock := Some (stateLock (pf_Flock p (cfg_StateFile cfg @ ''.lock'')) x)\<rparr>)"

lemma ready_fields:
  assumes "onlyStoreWrites p" and "ready p x d"
  shows "Lock d = Some (tryLock, unlock) \<Longrightarrow> keeps (intact p path) tryLock \<and> keeps (intact p path) unlock"
    and "keeps (intact p path) (FlightTry d)" "keeps (intact p path) (FlightUnlock d)" "keeps (intact p path) (ActivityAdd d)"
    and "keeps (intact p path) (HeartbeatPing d c)" "keeps (intact p path) (NotifierSendThrottled d c key emb)"
    and "StoreLoad d = onDisk p (FileStore_Load (cfg_StateFile (Cfg d)))"
proof -
  obtain cfg d0 where d: "buildDeps p cfg = Inr d0" "d = d0\<lparr>Lock := Some (stateLock (pf_Flock p (cfg_StateFile cfg @ ''.lock'')) x)\<rparr>"
    using assms(2) by (auto simp: ready_def)
  have rt: "sparesRuntime p (pf_Runtime p)" using assms(1) by (simp add: onlyStoreWrites_def)
  note outside = outside_keeps [OF assms(1)]
  show "keeps (intact p path) tryLock \<and> keeps (intact p path) unlock" if "Lock d = Some (tryLock, unlock)"
    using that d(2) outside(4,5) [where q = "cfg_StateFile cfg @ ''.lock''" and x = x] by simp
  have ping: "keeps (intact p path) (Ping p url c)" for url
    unfolding Ping_def pingResult_def by (intro keeps_intros outside)
  show "keeps (intact p path) (FlightTry d)" "keeps (intact p path) (FlightUnlock d)" "keeps (intact p path) (ActivityAdd d)"
      "keeps (intact p path) (HeartbeatPing d c)" "keeps (intact p path) (NotifierSendThrottled d c key emb)"
      "StoreLoad d = onDisk p (FileStore_Load (cfg_StateFile (Cfg d)))"
    using d by (auto simp: buildDeps_def Let_def split: sum.splits intro!: ping runtime_keeps [OF rt] notifier_keeps [OF assms(1)])
qed

lemma ready_contract:
  assumes "onlyStoreWrites p" and "ready p x d" and "\<And>q. tmpName q \<noteq> path"
  shows "run_contract d (intact p path) (savable (cfg_StateFile (Cfg d)) path) (\<lambda>_. True) (\<lambda>_. True) (\<lambda>_. True) True True True"
proof -
  obtain cfg d0 where d: "buildDeps p cfg = Inr d0" "d = d0\<lparr>Lock := Some (stateLock (pf_Flock p (cfg_StateFile cfg @ ''.lock'')) x)\<rparr>"
    using assms(2) by (auto simp: ready_def)
  moreover from this have "Cfg d = cfg" by (auto simp: buildDeps_def Let_def split: sum.splits)
  ultimately show ?thesis using built_contract [OF assms(1) d(1) assms(3)] by simp
qed

text \<open>What the store gives is what it may be given.\<close>

lemma ready_gives:
  assumes "onlyStoreWrites p" and "ready p x d"
  shows "storeGives d (intact p path) (savable (cfg_StateFile (Cfg d)) path)"
proof -
  have "storable st" if "intact p path w" and "Load path (pf_Disk p w) = Inr st" for w st
  proof -
    have "wfState st" using that by (auto simp: intact_def Let_def)
    moreover have "SchemaVersion st = schemaVersion"
      using that(2) by (auto simp: Load_def New_def split: option.splits fileData.splits if_splits)
    ultimately show ?thesis by (simp add: storable_def)
  qed
  then show ?thesis
    unfolding storeGives_def ready_fields(7) [OF assms] by (auto simp: onDisk_def FileStore_Load_def)
qed

lemma Reconcile_intact:
  assumes "onlyStoreWrites p" and "ready p x d" and "\<And>q. tmpName q \<noteq> path"
  shows "keeps (intact p path) (Reconcile d c opts)"
  by (rule run_contract.keeps_Reconcile [OF ready_contract [OF assms]])
    (auto simp: unrestricted_def historyGrows_def intro: ready_gives assms ready_fields(2-) storable_rules
      dest: ready_fields(1) [OF assms(1,2)])

lemma ready_reads:
  assumes "onlyStoreWrites p" and "ready p x d" and "\<And>q. tmpName q \<noteq> path"
  shows "reading_deps d (intact p path)"
  using ready_contract [OF assms] run_contract.axioms(1) acting_deps.axioms(1) by blast

lemma commands_intact:
  assumes "onlyStoreWrites p" and "ready p x d" and "\<And>q. tmpName q \<noteq> path"
  shows "keeps (intact p path) (cmdReconcile d c trigger dry force)" and "keeps (intact p path) (pollTick d c)"
    and "keeps (intact p path) (webhookRun d c timer)" and "keeps (intact p path) (cmdStatus marshal d c configPath)"
proof -
  note run = Reconcile_intact [OF assms] and fields = ready_fields [OF assms(1,2)]
    and reads = reading_deps.reads [OF ready_reads [OF assms]]
  have send: "keeps (intact p path) (sendNotification d c result)" for c result
    unfolding sendNotification_def by (intro keeps_intros fields)
  show "keeps (intact p path) (cmdReconcile d c trigger dry force)"
    unfolding cmdReconcile_def by (intro keeps_intros run send)
  have async: "keeps (intact p path) (asyncSend d c result)" for c result
    unfolding asyncSend_def by (intro keeps_intros send)
  show "keeps (intact p path) (pollTick d c)" unfolding pollTick_def by (intro keeps_intros run async)
  show "keeps (intact p path) (webhookRun d c timer)" unfolding webhookRun_def by (intro keeps_intros run async reads)
  have lock: "keeps (intact p path) (withStateLock d fn)" if "keeps (intact p path) fn" for fn :: "('a, 'b) state"
    unfolding withStateLock_def using that fields(1) by (auto intro!: keeps_intros split: option.split)
  show "keeps (intact p path) (cmdStatus marshal d c configPath)"
    unfolding cmdStatus_def readStatus_def statusOfStack_def printStackContainers_def StacksFor_def
    by (intro keeps_intros lock reads)
qed

lemma waitForLock_keeps:
  assumes "waitForLock d c tryLock waiting w = Some (r, w')" and "I w"
    and "keeps I tryLock" and "keeps I (SleepCtx d c lockRetryInterval)" and "keeps I (CtxErr d c)"
  shows "I w'"
proof -
  have "I w \<longrightarrow> I (snd r)" if "waitForLock d c tryLock waiting w = Some r" for r
    using that by (induction rule: waitForLock_induct) (auto dest: assms(3-5) [THEN keepsD, rotated])
  with assms(1,2) show ?thesis by fastforce
qed

lemma updateState_intact:
  assumes "onlyStoreWrites p" and "ready p x d" and "\<And>q. tmpName q \<noteq> path" and "intact p path w"
    and "updateState d c change w = Some (r, w')"
    and "\<And>st a st' w w'. storable st \<Longrightarrow> run_state (change st) w = ((a, st'), w') \<Longrightarrow> storable st'"
    and "\<And>st. keeps (intact p path) (change st)"
  shows "intact p path w'"
proof -
  let ?I = "intact p path" and ?S = "savable (cfg_StateFile (Cfg d)) path"
  note contract = ready_contract [OF assms(1-3)]
  have acting: "acting_deps d ?I ?S (\<lambda>_. True) True True True" using contract run_contract.axioms(1) by blast
  have step: "wp (change st) (\<lambda>p v. ?I v \<and> ?S (snd p)) v" if "?S st" "?I v" for st v
    using that assms(6) keepsD [OF assms(7)] by (auto intro!: wpI)
  have saved: "wp (StoreSave d st) (\<lambda>_. ?I) v" if "?I v \<and> ?S st" for st v
    using keeps_wp [OF acting_deps.save [OF acting, of st]] that by blast
  have "wp (changeState d change) (\<lambda>_. ?I) v" if "?I v" for v
    unfolding changeState_def wp_bind
  proof (rule run_contract.wp_load [OF contract ready_gives [OF assms(1,2)] that])
    fix r :: "err + State" and v assume v: "?I v" and r: "\<And>st. r = Inr st \<Longrightarrow> ?S st"
    show "wp (case r of Inl e \<Rightarrow> ret (Inl (wrapf ''reading state: '' e))
        | Inr st \<Rightarrow> change st \<bind> (\<lambda>p. StoreSave d (snd p) \<bind> (\<lambda>s. ret (case s of Some e \<Rightarrow> Inl (wrapf ''saving state: '' e) | None \<Rightarrow> Inr (fst p)))))
      (\<lambda>_. ?I) v"
    proof (cases r)
      case (Inr st)
      show ?thesis unfolding Inr sum.case wp_bind wp_return by (rule wp_mono [OF step saved]) (use v r [OF Inr] in auto)
    qed (simp add: wp_return v)
  qed
  then have change: "keeps ?I (changeState d change)" by (rule keeps_wpI)
  obtain tryLock unlock where lock: "Lock d = Some (tryLock, unlock)" using assms(5) by (auto simp: updateState_def split: option.splits)
  note locks = ready_fields(1) [OF assms(1,2) lock, where path = path]
  note reads = reading_deps.reads [OF ready_reads [OF assms(1-3)]]
  obtain e waited w1 where wait: "waitForLock d c tryLock False w = Some ((e, waited), w1)"
    using assms(5) lock by (auto simp: updateState_def split: option.splits)
  have "?I w1" by (rule waitForLock_keeps [where I = "?I", OF wait assms(4)]) (intro locks [THEN conjunct1] reads)+
  show ?thesis
  proof (cases e)
    case (Some e')
    then show ?thesis using \<open>?I w1\<close> assms(5) lock wait by (simp add: updateState_def)
  next
    case None
    let ?out = "if waited then [Out ''waiting for the running reconcile to finish (Ctrl-C to abort)''] else []"
    let ?m = "do { r \<leftarrow> changeState d change; _ \<leftarrow> unlock; ret (r, ?out) }"
    have run: "run_state ?m w1 = (r, w')" using assms(5) lock wait None by (simp add: updateState_def)
    have "keeps ?I (do { r \<leftarrow> changeState d change; _ \<leftarrow> unlock; ret (r, out) })" for out :: "printed list"
      by (intro keeps_intros change locks [THEN conjunct2])
    from keepsD [OF this \<open>?I w1\<close> run] show ?thesis .
  qed
qed

lemma dispatch_intact:
  assumes "onlyStoreWrites p" and "ready p x d" and "\<And>q. tmpName q \<noteq> path" and "intact p path w"
    and "dispatch marshal (pf_Listen p) configPath command f c d w = Some (r, w')"
  shows "intact p path w'"
proof -
  let ?I = "intact p path"
  note cmds = commands_intact [OF assms(1-3)] and reads = reading_deps.reads [OF ready_reads [OF assms(1-3)]]
  note update = updateState_intact [OF assms(1-3)]
  have poll: "?I w'" if "cmdPoll d c w = Some (r, w')" for r w'
    using that assms(4) pollLoop_keeps [OF _ _ cmds(2) querying_deps.keeps_ended [OF reading_deps.axioms(1) [OF ready_reads [OF assms(1-3)]]]] reads
    by (fastforce simp: cmdPoll_def Let_def split: if_splits)
  have "keeps ?I (webhookRuns d c n timer)" for n timer
    by (induction n arbitrary: timer) (auto intro!: keeps_intros cmds)
  then have web: "keeps ?I (cmdWebhook (pf_Listen p) d c)"
    unfolding cmdWebhook_def by (intro keeps_intros outside_keeps [OF assms(1)])
  have now: "keeps ?I (ClockNow d)" unfolding ClockNow_def by (rule reads)
  have pause: "?I w'" if "cmdPause d c t reason w = Some (r, w')" for t reason r w'
  proof -
    obtain now w1 where w1: "run_state (ClockNow d) w = (now, w1)" by fastforce
    then have "?I w1" using keepsD [OF now assms(4)] by blast
    let ?change = "\<lambda>st. ret ((), Pause st now (if t > 0 then now + t else zeroTime) reason)"
    from that w1 obtain q where "updateState d c ?change w1 = Some (q, w')" by (auto simp: cmdPause_def Let_def)
    from update [OF \<open>?I w1\<close> this] show ?thesis by (auto intro: keeps_intros storable_rules)
  qed
  have resume: "?I w'" if "cmdResume d c w = Some (r, w')" for r w'
  proof -
    let ?change = "\<lambda>st. do { now \<leftarrow> ClockNow d; ret (Paused st now, Resume st) }"
    from that obtain q where "updateState d c ?change w = Some (q, w')" by (auto simp: cmdResume_def)
    moreover have "storable st'" if "storable st" and "run_state (?change st) v = ((a, st'), v')" for st a st' v v'
      using that storable_rules(6) by (auto split: prod.splits)
    moreover have "keeps ?I (?change st)" for st by (intro keeps_intros now)
    ultimately show ?thesis using update [OF assms(4)] by blast
  qed
  have runs: "?I w'" if "Some (apfst g (run_state m w)) = Some (r, w')" and "keeps ?I m" for g r w' and m :: "('a, int) state"
    using that keepsD [OF that(2) assms(4)] by (cases "run_state m w") auto
  consider "command = ''sync''" | "command = ''check''" | "command = ''status''" | "command = ''poll''" | "command = ''webhook''"
    | "command = ''pause''" | "command = ''resume''"
    | "command \<notin> {''sync'', ''check'', ''status'', ''poll'', ''webhook'', ''pause'', ''resume''}" unfolding insert_iff empty_iff by argo
  then show ?thesis
  proof cases
    case 3
    with assms(5) have "run_state (cmdStatus marshal d c configPath) w = (r, w')" by (simp add: dispatch_def)
    then show ?thesis using keepsD [OF cmds(4) assms(4)] by blast
  next
    case 8
    with assms(4,5) show ?thesis by (simp add: dispatch_def)
  qed (use assms(5) in \<open>simp_all add: dispatch_def runs [OF _ cmds(1)] runs [OF _ web] poll pause resume\<close>)
qed

section \<open>The process\<close>

lemma loadConfig_intact:
  assumes "onlyStoreWrites p"
  shows "keeps (intact p path) (loadConfig p f)"
proof -
  have "sparesHost p (pf_Host p)" using assms by (simp add: onlyStoreWrites_def)
  note host = host_keeps [OF this]
  have "keeps (intact p path) (Validate (pf_Host p) net cfg)" for net cfg
    unfolding Validate_def validateRequired_def validateComposePath_def by (intro keeps_intros host)
  then show ?thesis
    unfolding loadConfig_def Config_Load_def canonicalPath_def by (intro keeps_intros host outside_keeps [OF assms])
qed

lemma setup_intact:
  assumes "onlyStoreWrites p" and "\<And>q. tmpName q \<noteq> path"
  shows "keeps (intact p path) (setupDeps p f x)"
proof -
  have "keeps (intact p path) (StoreLoad d)" if "buildDeps p cfg = Inr d" for cfg d
    using that keeps_onDisk_load [OF assms(1)] by (auto simp: buildDeps_def Let_def split: sum.splits)
  then show ?thesis
    unfolding setupDeps_def by (intro keeps_intros loadConfig_intact keeps_onDisk_check assms)
qed

lemma setup_ready: "run_state (setupDeps p f x) w = (Inr d, w') \<Longrightarrow> ready p x d"
  unfolding ready_def by (auto simp: setupDeps_def split: prod.splits sum.splits option.splits if_splits)

lemma init_intact:
  assumes "onlyStoreWrites p" and "\<And>q. tmpName q \<noteq> path"
  shows "keeps (intact p path) (cmdInit p f)"
proof -
  have "keeps (intact p path) (onDisk p (FileStore_Save path' New))" for path'
    by (rule keeps_onDisk_save [OF assms(1) _ assms(2)]) (simp add: storable_rules)
  then show ?thesis
    unfolding cmdInit_def Init_def initState_def by (intro keeps_intros outside_keeps [OF assms(1)])
qed

text \<open>C5: no command leaves an unusable state file behind: when only the store writes the files of the state (so that init is not
  given the state file as its configuration file), a
  process that finds a state file that loads as a well-formed state, or none, leaves one, whatever its
  arguments and configuration are and whatever fails on the way; the same holds of every content the
  disk went through meanwhile, so that the process may be killed at any moment. The same holds of each of the runs that
  the daemons make, however many they are.\<close>

theorem state_file_survives:
  assumes "onlyStoreWrites p" and "\<And>q. tmpName q \<noteq> path" and "intact p path w"
  shows "(runMain p args w = Some (r, w') \<longrightarrow> intact p path w')
    \<and> (run_state (setupDeps p f x) v = (Inr d, v') \<and> run_state (Reconcile d c opts) w = (r', w1) \<longrightarrow> intact p path w1)"
proof (intro conjI impI)
  assume run: "runMain p args w = Some (r, w')"
  show "intact p path w'"
  proof (cases "parseArgs (pf_Parsers p) Map.empty [] args")
    case (Inl e)
    then show ?thesis using run assms(3) by (cases e) (simp_all add: runMain_def)
  next
    case (Inr cf)
    obtain command0 f where cf: "cf = (command0, f)" by fastforce
    let ?command = "defaultCommand command0 f"
    have init: "intact p path w'" if "run_state (cmdInit p f) w = (r, w')" for r w'
      by (rule keepsD [OF init_intact [OF assms(1,2)] assms(3) that])
    obtain s w1 where built: "run_state (setupDeps p f (\<not> readOnly ?command f)) w = (s, w1)" by fastforce
    have w1: "intact p path w1" by (rule keepsD [OF setup_intact [OF assms(1,2)] assms(3) built])
    have dispatched: "intact p path w'" if "s = Inr d" and "dispatch m (pf_Listen p) q ?command f c d w1 = Some (r, w')" for d m q c r w'
      by (rule dispatch_intact [OF assms(1) setup_ready [OF built [unfolded that(1)]] assms(2) w1 that(2)])
    show ?thesis
      using run assms(3) w1 dispatched init unfolding runMain_def Inr cf
      by (cases s) (auto simp: built Let_def split: if_splits option.splits)
  qed
next
  assume "run_state (setupDeps p f x) v = (Inr d, v') \<and> run_state (Reconcile d c opts) w = (r', w1)"
  then show "intact p path w1"
    using keepsD [OF Reconcile_intact [OF assms(1) setup_ready assms(2)] assms(3)] by blast
qed

lemma demo_spares: "onlyStoreWrites demoPlatform"
  by (simp add: onlyStoreWrites_def demoPlatform_def sparesHost_def sparesSDK_def sparesRuntime_def spares_def demoConfigHost_def calmDeps_def slowSDK_def)

theorem state_file_survives_witness:
  "\<exists>r d. runMain demoPlatform [''pause''] emptyDisk = Some (r, d) \<and> fst r = 0 \<and> length (past d) = 7 \<and> intact demoPlatform ''/s.json'' d"
proof -
  have "case runMain demoPlatform [''pause''] emptyDisk of None \<Rightarrow> False | Some (r, d) \<Rightarrow> fst r = 0 \<and> length (past d) = 7"
    by code_simp
  then obtain r d where run: "runMain demoPlatform [''pause''] emptyDisk = Some (r, d)" "fst r = 0" "length (past d) = 7"
    by (auto split: option.splits)
  have "tmpName q \<noteq> ''/s.json''" for q using arg_cong [of "tmpName q" "''/s.json''" last] by (auto simp: tmpName_def)
  moreover have "intact demoPlatform ''/s.json'' emptyDisk"
    by (simp add: intact_def Let_def demoPlatform_def emptyDisk_def Load_def wfState_New)
  ultimately have "intact demoPlatform ''/s.json'' d" using state_file_survives [OF demo_spares, THEN conjunct1] run(1) by blast
  with run show ?thesis by blast
qed

end
