(* ===== verification/Pools.thy ===== *)
theory Pools
  imports RunOutcomes Clients
begin

text \<open>
  The three places where the program runs goroutines under a limit: the inspections of a snapshot
  (\<^verbatim>\<open>internal/health/snapshotter.go\<close>), the teardown of stacks (\<^verbatim>\<open>internal/reconcile/reconcile.go\<close>) and the
  watches of the stacks (\<^verbatim>\<open>internal/reconcile/watch.go\<close>). Each is a step relation: the loop starts a goroutine
  when one of the limited slots is free, and the goroutines end in any order. The locale
  \<open>bounded_pool\<close> holds what they share. For snapshots and teardowns every interleaving gives what the
  sequential definitions \<open>buildSnapshot\<close> and \<open>tearDownStacks\<close> give; for watches, which cancel one another, the verdict
  is shown to be sound in every interleaving.
\<close>

section \<open>A loop that starts goroutines\<close>

text \<open>
  \<open>pl_next\<close> is the next index of the loop, \<open>pl_running\<close> are the goroutines that hold a slot of the semaphore, and
  \<open>pl_slots\<close> is the slice of results: \<open>pl_slots p i\<close> is what goroutine \<open>i\<close> wrote when it ended.
\<close>

record 'r pool =
  pl_next :: nat
  pl_running :: "nat list"
  pl_slots :: "nat \<rightharpoonup> 'r"

definition launch :: "('r, 'm) pool_scheme \<Rightarrow> ('r, 'm) pool_scheme" where
  "launch p = p\<lparr>pl_next := Suc (pl_next p), pl_running := pl_running p @ [pl_next p]\<rparr>"

definition passOver :: "'r \<Rightarrow> ('r, 'm) pool_scheme \<Rightarrow> ('r, 'm) pool_scheme" where
  "passOver r p = p\<lparr>pl_next := Suc (pl_next p), pl_slots := (pl_slots p)(pl_next p \<mapsto> r)\<rparr>"

definition settle :: "nat \<Rightarrow> 'r \<Rightarrow> ('r, 'm) pool_scheme \<Rightarrow> ('r, 'm) pool_scheme" where
  "settle i r p = p\<lparr>pl_running := remove1 i (pl_running p), pl_slots := (pl_slots p)(i \<mapsto> r)\<rparr>"

lemma pool_simps [simp]:
  "pl_next (launch p) = Suc (pl_next p)" "pl_running (launch p) = pl_running p @ [pl_next p]" "pl_slots (launch p) = pl_slots p"
  "pl_next (passOver r p) = Suc (pl_next p)" "pl_running (passOver r p) = pl_running p"
  "pl_slots (passOver r p) = (pl_slots p)(pl_next p \<mapsto> r)"
  "pl_next (settle i r p) = pl_next p" "pl_running (settle i r p) = remove1 i (pl_running p)"
  "pl_slots (settle i r p) = (pl_slots p)(i \<mapsto> r)"
  "pool.more (launch p) = pool.more p" "pool.more (passOver r p) = pool.more p" "pool.more (settle i r p) = pool.more p"
  by (simp_all add: launch_def passOver_def settle_def)

text \<open>Before the loop: no goroutine has been started, and the slice of results is empty.\<close>

definition fresh :: "('r, 'm) pool_scheme \<Rightarrow> bool" where
  "fresh p \<longleftrightarrow> pl_next p = 0 \<and> pl_running p = [] \<and> pl_slots p = Map.empty"

text \<open>After \<^verbatim>\<open>wg.Wait()\<close>: the loop is over and so are the goroutines.\<close>

definition waited :: "nat \<Rightarrow> ('r, 'm) pool_scheme \<Rightarrow> bool" where
  "waited n p \<longleftrightarrow> pl_next p = n \<and> pl_running p = []"

text \<open>What is left to do: two steps for a goroutine not started yet, one for one under way.\<close>

definition work :: "nat \<Rightarrow> ('r, 'm) pool_scheme \<Rightarrow> nat" where
  "work n p = 2 * (n - pl_next p) + length (pl_running p)"

text \<open>The order of a pool: the results written so far are those of the goroutines that were started and have
  ended, each of which was started once.\<close>

definition orderly :: "nat \<Rightarrow> ('r, 'm) pool_scheme \<Rightarrow> bool" where
  "orderly n p \<longleftrightarrow> pl_next p \<le> n \<and> distinct (pl_running p) \<and> set (pl_running p) \<subseteq> {..<pl_next p}
     \<and> dom (pl_slots p) = {..<pl_next p} - set (pl_running p)"

text \<open>
  The contract of such a loop: every step starts the next goroutine if a slot of the semaphore is free, passes
  over an index, ends a goroutine with a result of \<open>result\<close>, or leaves the pool alone, which can happen \<open>idle\<close> times;
  and as long as something is left to do, there is a step that does it.
\<close>

definition same :: "('r, 'm) pool_scheme \<Rightarrow> ('r, 'm) pool_scheme \<Rightarrow> bool" where
  "same p q \<longleftrightarrow> pl_next p = pl_next q \<and> pl_running p = pl_running q \<and> pl_slots p = pl_slots q"

locale bounded_pool =
  fixes step :: "('r, 'm) pool_scheme \<Rightarrow> ('r, 'm) pool_scheme \<Rightarrow> bool"
    and limit n :: nat
    and result :: "nat \<Rightarrow> 'r \<Rightarrow> bool"
    and idle :: "('r, 'm) pool_scheme \<Rightarrow> nat"
  assumes step_kind: "step p q \<Longrightarrow>
      pl_next p < n \<and> length (pl_running p) < limit \<and> same q (launch p) \<and> idle q \<le> idle p
    \<or> pl_next p < n \<and> (\<exists>r. result (pl_next p) r \<and> same q (passOver r p)) \<and> idle q \<le> idle p
    \<or> (\<exists>i r. i \<in> set (pl_running p) \<and> result i r \<and> same q (settle i r p)) \<and> idle q \<le> idle p
    \<or> same q p \<and> idle q < idle p"
    and can_start: "pl_next p < n \<Longrightarrow> length (pl_running p) < limit \<Longrightarrow> \<exists>q. step p q \<and> work n q < work n p"
    and can_end: "i \<in> set (pl_running p) \<Longrightarrow> \<exists>q. step p q \<and> work n q < work n p"
    and some_room: "0 < limit"
begin

lemma step_cases [consumes 1, case_names start skip finish aside]:
  assumes "step p q"
  obtains "pl_next p < n" "length (pl_running p) < limit" "pl_next q = Suc (pl_next p)" "pl_running q = pl_running p @ [pl_next p]"
      "pl_slots q = pl_slots p" "idle q \<le> idle p"
  | r where "pl_next p < n" "result (pl_next p) r" "pl_next q = Suc (pl_next p)" "pl_running q = pl_running p"
      "pl_slots q = (pl_slots p)(pl_next p \<mapsto> r)" "idle q \<le> idle p"
  | i r where "i \<in> set (pl_running p)" "result i r" "pl_next q = pl_next p" "pl_running q = remove1 i (pl_running p)"
      "pl_slots q = (pl_slots p)(i \<mapsto> r)" "idle q \<le> idle p"
  | "pl_next q = pl_next p" "pl_running q = pl_running p" "pl_slots q = pl_slots p" "idle q < idle p"
  using step_kind [OF assms] by (auto simp: same_def)

text \<open>Never more than \<open>limit\<close> goroutines at a time.\<close>

lemma within_limit:
  assumes "step\<^sup>*\<^sup>* p q" and "length (pl_running p) \<le> limit"
  shows "length (pl_running q) \<le> limit"
  using assms
proof (induction rule: rtranclp_induct)
  case (step q r)
  from step.hyps(2) show ?case
  proof (cases rule: step_cases)
    case (finish i x)
    then show ?thesis using step.IH [OF step.prems] by (simp add: length_remove1)
  qed (use step.IH [OF step.prems] in auto)
qed simp

lemma orderly_step:
  assumes "step p q" and "orderly n p"
  shows "orderly n q"
  using assms(1)
proof (cases rule: step_cases)
  case (finish i r)
  with assms(2) show ?thesis by (auto simp: orderly_def)
qed (use assms(2) in \<open>auto simp: orderly_def less_Suc_eq\<close>)

lemma orderly_steps: "step\<^sup>*\<^sup>* p q \<Longrightarrow> orderly n p \<Longrightarrow> orderly n q"
  by (induction rule: rtranclp_induct) (auto intro: orderly_step)

text \<open>The results are results of their goroutines.\<close>

definition lawful :: "('r, 'm) pool_scheme \<Rightarrow> bool" where
  "lawful p \<longleftrightarrow> (\<forall>i r. pl_slots p i = Some r \<longrightarrow> result i r)"

lemma lawful_steps: "step\<^sup>*\<^sup>* p q \<Longrightarrow> lawful p \<Longrightarrow> lawful q"
proof (induction rule: rtranclp_induct)
  case (step q r)
  from step.hyps(2) show ?case by (cases rule: step_cases) (use step.IH step.prems in \<open>auto simp: lawful_def\<close>)
qed simp

text \<open>The wait is over exactly when nothing more can be done, and by then every slot has been written once.\<close>

lemma no_deadlock:
  assumes "pl_next p \<le> n" and "\<not> waited n p"
  shows "\<exists>q. step p q \<and> work n q < work n p"
proof (cases "pl_running p")
  case Nil
  with assms some_room show ?thesis by (intro can_start) (auto simp: waited_def)
next
  case (Cons i rest)
  then show ?thesis by (intro can_end [of i]) simp
qed

lemma all_written:
  assumes "orderly n p" and "waited n p"
  shows "dom (pl_slots p) = {..<n}"
  using assms by (simp add: orderly_def waited_def)

lemma every_step_works:
  assumes "step p q" and "orderly n p"
  shows "work n q < work n p \<and> idle q \<le> idle p \<or> work n q = work n p \<and> idle q < idle p"
  using assms(1)
proof (cases rule: step_cases)
  case (finish i r)
  then show ?thesis by (auto simp: work_def length_remove1 dest: length_pos_if_in_set)
qed (auto simp: work_def)

lemma work_bound:
  assumes "step p q" and "orderly n p"
  shows "work n q + idle q < work n p + idle p"
  using every_step_works [OF assms] by linarith

text \<open>Every run ends: no more steps than there was work.\<close>

lemma runs_are_short: "(step ^^ k) p q \<Longrightarrow> orderly n p \<Longrightarrow> k + work n q + idle q \<le> work n p + idle p"
proof (induction k arbitrary: q)
  case (Suc k)
  then obtain r where r: "(step ^^ k) p r" "step r q" by auto
  then have "orderly n r" using orderly_steps Suc.prems(2) by (metis relpowp_imp_rtranclp)
  with r Suc.IH [OF r(1) Suc.prems(2)] work_bound [OF r(2)] show ?case by simp
qed simp

lemma can_be_waited_for:
  assumes "orderly n p"
  shows "\<exists>q. step\<^sup>*\<^sup>* p q \<and> waited n q"
  using assms
proof (induction "work n p" arbitrary: p rule: less_induct)
  case less
  show ?case
  proof (cases "waited n p")
    case False
    then obtain q where q: "step p q" "work n q < work n p" using no_deadlock [of p] less.prems unfolding orderly_def by blast
    with less.hyps [OF q(2)] orderly_step [OF q(1) less.prems] show ?thesis by (meson converse_rtranclp_into_rtranclp)
  qed auto
qed

lemma fresh_run:
  assumes "fresh p" and "(step ^^ k) p q"
  shows "length (pl_running q) \<le> limit" and "orderly n q" and "lawful q" and "k \<le> 2 * n + idle p" and "\<exists>r. step\<^sup>*\<^sup>* q r \<and> waited n r"
proof -
  have steps: "step\<^sup>*\<^sup>* p q" using assms(2) by (rule relpowp_imp_rtranclp)
  have o: "orderly n p" using assms(1) by (simp add: fresh_def orderly_def)
  show "length (pl_running q) \<le> limit" using within_limit [OF steps] assms(1) by (simp add: fresh_def)
  show "orderly n q" by (rule orderly_steps [OF steps o])
  then show "\<exists>r. step\<^sup>*\<^sup>* q r \<and> waited n r" by (rule can_be_waited_for)
  show "lawful q" using lawful_steps [OF steps] assms(1) by (simp add: fresh_def lawful_def)
  show "k \<le> 2 * n + idle p" using runs_are_short [OF assms(2) o] assms(1) by (simp add: work_def fresh_def)
qed

lemma fresh_results:
  assumes "fresh p" and "(step ^^ k) p q" and "waited n q" and "i < n"
  shows "\<exists>r. pl_slots q i = Some r \<and> result i r"
proof -
  have "i \<in> dom (pl_slots q)" using all_written [OF fresh_run(2) [OF assms(1,2)] assms(3)] assms(4) by simp
  then show ?thesis using fresh_run(3) [OF assms(1,2)] unfolding lawful_def by blast
qed

end

lemma fresh_orderly [simp]: "fresh p \<Longrightarrow> orderly n p"
  by (simp add: fresh_def orderly_def)

lemma fresh_within [simp]: "fresh p \<Longrightarrow> length (pl_running p) \<le> k"
  by (simp add: fresh_def)

lemma work_launch [simp]: "pl_next p < n \<Longrightarrow> work n (launch p) < work n p"
  by (simp add: work_def)

lemma work_settle: "i \<in> set (pl_running p) \<Longrightarrow> same q (settle i r p) \<Longrightarrow> work n q < work n p"
  by (auto simp: work_def same_def length_remove1 dest: length_pos_if_in_set)

lemma same_refl [simp]: "same p p"
  by (simp add: same_def)

section \<open>The inspections of a snapshot\<close>

definition maxConcurrentInspects :: nat where
  "maxConcurrentInspects = 16"

text \<open>What one goroutine of \<^verbatim>\<open>buildSnapshot\<close> finds: the error it returns to the group, or the status of the container
  unless it is gone by now.\<close>

definition inspectOne :: "(string \<Rightarrow> err + int) \<Rightarrow> ContainerSummary \<Rightarrow> err + ContainerStatus option" where
  "inspectOne inspect cs =
     (case inspect (s_ID cs) of
        Inl e \<Rightarrow> if isNotFound e then Inr None else Inl (wrapf (''inspecting container '' @ s_ID cs @ '': '') e)
      | Inr restarts \<Rightarrow> Inr (Some \<lparr>c_ID = s_ID cs, c_Service = s_Service cs, c_State = s_State cs,
          c_Health = s_Health cs, c_RestartCount = restarts, c_ExitCode = s_ExitCode cs\<rparr>))"

text \<open>The slices \<^verbatim>\<open>containers\<close> and \<^verbatim>\<open>present\<close>, as one of options, and the first error that the group was given.\<close>

record inspections = "ContainerStatus option pool" +
  in_err :: "err option"

definition inspected :: "nat \<Rightarrow> err + ContainerStatus option \<Rightarrow> inspections \<Rightarrow> inspections" where
  "inspected i r p =
     (case r of
        Inl e \<Rightarrow> (settle i None p)\<lparr>in_err := Some (case in_err p of Some first \<Rightarrow> first | None \<Rightarrow> e)\<rparr>
      | Inr found \<Rightarrow> settle i found p)"

inductive inspectStep :: "(string \<Rightarrow> err + int) \<Rightarrow> ContainerSummary list \<Rightarrow> inspections \<Rightarrow> inspections \<Rightarrow> bool"
  for inspect summaries where
  Go: "pl_next p < length summaries \<Longrightarrow> length (pl_running p) < maxConcurrentInspects \<Longrightarrow> inspectStep inspect summaries p (launch p)"
| Inspected: "i \<in> set (pl_running p) \<Longrightarrow> inspectStep inspect summaries p (inspected i (inspectOne inspect (summaries ! i)) p)"

inductive_cases inspectStepE: "inspectStep inspect summaries p q"

text \<open>The rest of \<^verbatim>\<open>buildSnapshot\<close>, after \<^verbatim>\<open>g.Wait()\<close>.\<close>

definition collected :: "ContainerSummary list \<Rightarrow> time \<Rightarrow> inspections \<Rightarrow> err + Snapshot" where
  "collected summaries now p =
     (case in_err p of
        Some e \<Rightarrow> Inl e
      | None \<Rightarrow> Inr \<lparr>Containers = map the (filter (\<lambda>c. c \<noteq> None)
          (map (\<lambda>i. Option.bind (pl_slots p i) id) [0..<length summaries])), Taken = now\<rparr>)"

lemma same_inspected: "same (inspected i r p) (settle i (case r of Inl _ \<Rightarrow> None | Inr found \<Rightarrow> found) p)"
  by (simp add: inspected_def same_def split: sum.split)

interpretation inspecting: bounded_pool "inspectStep inspect summaries" maxConcurrentInspects "length summaries"
    "\<lambda>i r. r = (case inspectOne inspect (summaries ! i) of Inl _ \<Rightarrow> None | Inr found \<Rightarrow> found)" "\<lambda>_. 0"
  for inspect summaries
proof (unfold_locales, goal_cases)
  case (1 p q)
  then show ?case by (elim inspectStepE) (use same_inspected in \<open>auto 0 3\<close>)
next
  case (2 p)
  then show ?case by (blast intro: Go work_launch)
next
  case (3 i p)
  then show ?case by (blast intro: Inspected work_settle same_inspected)
next
  case 4
  show ?case by (simp add: maxConcurrentInspects_def)
qed

lemma inspectAll_one:
  "inspectAll inspect (s # ss) =
     (case inspectOne inspect s of
        Inl e \<Rightarrow> Inl e
      | Inr None \<Rightarrow> inspectAll inspect ss
      | Inr (Some c) \<Rightarrow> map_sum id ((#) c) (inspectAll inspect ss))"
  by (auto simp: inspectOne_def split: sum.split)

lemma inspectAll_Inr_iff:
  "inspectAll inspect ss = Inr out \<longleftrightarrow> (\<forall>s \<in> set ss. \<exists>found. inspectOne inspect s = Inr found)
     \<and> out = map the (filter (\<lambda>c. c \<noteq> None) (map (\<lambda>s. projr (inspectOne inspect s)) ss))"
proof (induction ss arbitrary: out)
  case (Cons s ss)
  then show ?case
    by (cases "inspectAll inspect ss") (auto simp: inspectAll_one simp del: inspectAll.simps split: sum.splits option.splits)
qed auto

text \<open>The group remembers an error exactly when one of its goroutines has returned one.\<close>

definition groupError :: "(string \<Rightarrow> err + int) \<Rightarrow> ContainerSummary list \<Rightarrow> inspections \<Rightarrow> bool" where
  "groupError inspect summaries p \<longleftrightarrow>
     (case in_err p of
        None \<Rightarrow> \<forall>i \<in> dom (pl_slots p). \<exists>found. inspectOne inspect (summaries ! i) = Inr found
      | Some e \<Rightarrow> \<exists>i \<in> dom (pl_slots p). inspectOne inspect (summaries ! i) = Inl e)"

lemma groupError_step:
  assumes "inspectStep inspect summaries p q" and "groupError inspect summaries p"
  shows "groupError inspect summaries q"
  using assms by (auto simp: groupError_def inspected_def launch_def settle_def split: option.splits sum.splits if_splits elim!: inspectStepE)

lemma groupError_steps: "(inspectStep inspect summaries ^^ k) p q \<Longrightarrow> groupError inspect summaries p \<Longrightarrow> groupError inspect summaries q"
  by (induction k arbitrary: q) (auto intro: groupError_step)

lemma collected_waited:
  assumes start: "fresh p" "in_err p = None" and run: "(inspectStep inspect summaries ^^ k) p q" and over: "waited (length summaries) q"
  shows "case buildSnapshot inspect summaries now of
      Inr s \<Rightarrow> collected summaries now q = Inr s
    | Inl _ \<Rightarrow> \<exists>s \<in> set summaries. \<exists>e. inspectOne inspect s = Inl e \<and> collected summaries now q = Inl e"
proof -
  have group: "groupError inspect summaries q" using groupError_steps [OF run] start by (simp add: groupError_def fresh_def)
  have dom: "dom (pl_slots q) = {..<length summaries}"
    by (rule inspecting.all_written [OF inspecting.fresh_run(2) [OF start(1) run] over])
  note slots = inspecting.fresh_results [OF start(1) run over]
  show ?thesis
  proof (cases "in_err q")
    case (Some e)
    with group dom obtain i where i: "i < length summaries" "inspectOne inspect (summaries ! i) = Inl e"
      by (auto simp: groupError_def)
    then have "inspectAll inspect summaries \<noteq> Inr out" for out using inspectAll_Inr_iff [of inspect summaries] by (auto simp: all_set_conv_all_nth)
    then obtain e' where "buildSnapshot inspect summaries now = Inl e'" by (cases "inspectAll inspect summaries") (auto simp: buildSnapshot_def)
    with i Some show ?thesis by (auto simp: collected_def)
  next
    case None
    with group dom have fine: "\<exists>found. inspectOne inspect (summaries ! i) = Inr found" if "i < length summaries" for i
      using that by (auto simp: groupError_def)
    have "Option.bind (pl_slots q i) id = projr (inspectOne inspect (summaries ! i))" if "i < length summaries" for i
      using slots [OF that] fine [OF that] by auto
    then have "map (\<lambda>i. Option.bind (pl_slots q i) id) [0..<length summaries] = map (\<lambda>s. projr (inspectOne inspect s)) summaries"
      by (intro nth_equalityI) simp_all
    moreover have "\<forall>s \<in> set summaries. \<exists>found. inspectOne inspect s = Inr found" using fine by (auto simp: all_set_conv_all_nth)
    ultimately have "inspectAll inspect summaries
      = Inr (map the (filter (\<lambda>c. c \<noteq> None) (map (\<lambda>i. Option.bind (pl_slots q i) id) [0..<length summaries])))"
      unfolding inspectAll_Inr_iff by simp
    then show ?thesis using None by (simp add: collected_def buildSnapshot_def)
  qed
qed

section \<open>Tearing stacks down\<close>

definition maxConcurrentTeardowns :: nat where
  "maxConcurrentTeardowns = 8"

text \<open>\<open>failures\<close> as results: what each goroutine wrote, \<^const>\<open>None\<close> for nil. \<open>down name r\<close> says that taking the project
  down can end with \<open>r\<close>.\<close>

inductive teardownStep :: "(string \<Rightarrow> err option \<Rightarrow> bool) \<Rightarrow> Stack list \<Rightarrow> err option pool \<Rightarrow> err option pool \<Rightarrow> bool"
  for down stacks where
  Acquire: "pl_next p < length stacks \<Longrightarrow> length (pl_running p) < maxConcurrentTeardowns \<Longrightarrow> teardownStep down stacks p (launch p)"
| Downed: "i \<in> set (pl_running p) \<Longrightarrow> down (k_ProjectName (stacks ! i)) r \<Longrightarrow> teardownStep down stacks p (settle i r p)"

inductive_cases teardownStepE: "teardownStep down stacks p q"

definition failures :: "err option pool \<Rightarrow> nat \<rightharpoonup> err" where
  "failures p i = Option.bind (pl_slots p i) id"

text \<open>What the calls can answer: the results of \<open>downStack\<close> in any world.\<close>

definition downAnswers :: "'w Deps \<Rightarrow> ctx \<Rightarrow> string \<Rightarrow> err option \<Rightarrow> bool" where
  "downAnswers d c name r \<longleftrightarrow> (\<exists>w. fst (run_state (downStack d c name) w) = r)"

lemma downAnswers_ex: "\<exists>r. downAnswers d c name r"
  by (auto simp: downAnswers_def)

interpretation tearing: bounded_pool "teardownStep (downAnswers d c) stacks" maxConcurrentTeardowns "length stacks"
    "\<lambda>i. downAnswers d c (k_ProjectName (stacks ! i))" "\<lambda>_. 0"
  for d :: "'w Deps" and c stacks
proof (unfold_locales, goal_cases)
  case (1 p q)
  then show ?case by (elim teardownStepE) (use same_refl in \<open>simp, blast\<close>)
next
  case (2 p)
  then show ?case by (blast intro: Acquire work_launch)
next
  case (3 i p)
  then show ?case using downAnswers_ex by (blast intro: Downed work_settle same_refl)
next
  case 4
  show ?case by (simp add: maxConcurrentTeardowns_def)
qed

section \<open>Watching the stacks\<close>

definition maxConcurrentWatches :: nat where
  "maxConcurrentWatches = 16"

text \<open>The outcomes, with the errors of the caller's context and of \<^verbatim>\<open>watchCtx\<close>.\<close>

record watches = "stackWatchOutcome pool" +
  wt_parent :: "err option"
  wt_err :: "err option"

definition cancelWatches :: "err \<Rightarrow> watches \<Rightarrow> watches" where
  "cancelWatches e p = p\<lparr>wt_err := Some (case wt_err p of Some first \<Rightarrow> first | None \<Rightarrow> e)\<rparr>"

definition contextCanceled :: err where
  "contextCanceled = Leaf Canceled ''context canceled''"

text \<open>The end of one watch goroutine.\<close>

definition watched :: "Stack list \<Rightarrow> nat \<Rightarrow> err + WatchResult \<Rightarrow> watches \<Rightarrow> watches" where
  "watched stacks i r p =
     (case r of
        Inl e \<Rightarrow> settle i \<lparr>swo_stack = stacks ! i, swo_result = zeroResult, swo_err = Some e\<rparr> p
      | Inr res \<Rightarrow>
          let q = settle i \<lparr>swo_stack = stacks ! i, swo_result = res, swo_err = None\<rparr> p
          in if w_Outcome res \<noteq> Healthy then cancelWatches contextCanceled q else q)"

text \<open>
  \<open>ends i e r\<close> says that the watch of stack \<open>i\<close> can end with \<open>r\<close> when \<open>e\<close> is what \<^verbatim>\<open>watchCtx.Err()\<close> is at that time. A
  stack that has got no slot before the context has ended is passed over; when both have happened,
  \<^verbatim>\<open>select\<close> takes either. The caller's context can end at any time.
\<close>

inductive watchStep :: "(nat \<Rightarrow> err option \<Rightarrow> err + WatchResult \<Rightarrow> bool) \<Rightarrow> Stack list \<Rightarrow> watches \<Rightarrow> watches \<Rightarrow> bool"
  for ends stacks where
  Admitted: "pl_next p < length stacks \<Longrightarrow> length (pl_running p) < maxConcurrentWatches \<Longrightarrow> watchStep ends stacks p (launch p)"
| Refused: "pl_next p < length stacks \<Longrightarrow> wt_err p = Some e \<Longrightarrow>
    watchStep ends stacks p (passOver \<lparr>swo_stack = stacks ! pl_next p, swo_result = zeroResult, swo_err = Some e\<rparr> p)"
| Watched: "i \<in> set (pl_running p) \<Longrightarrow> ends i (wt_err p) r \<Longrightarrow> watchStep ends stacks p (watched stacks i r p)"
| CallerEnds: "wt_parent p = None \<Longrightarrow> watchStep ends stacks p (cancelWatches e (p\<lparr>wt_parent := Some e\<rparr>))"

inductive_cases watchStepE: "watchStep ends stacks p q"

text \<open>How \<open>Watch\<close> can end: in any world, with the context's error read as \<open>e\<close>.\<close>

definition watchEnds :: "'w Deps \<Rightarrow> ctx \<Rightarrow> Stack list \<Rightarrow> Project list \<Rightarrow> nat \<Rightarrow> err option \<Rightarrow> err + WatchResult \<Rightarrow> bool" where
  "watchEnds d c stacks projects i e r \<longleftrightarrow>
     (\<exists>w. fst (run_state (Watch (\<lambda>_. ret e) (TakeSnapshot d) (Clk d) (WithCancel c (e \<noteq> None))
        (healthOptions (Cfg d) (k_ProjectName (stacks ! i)) (expectsContainers projects i))) w) = r)"

text \<open>What a goroutine writes, and the number of times the caller's context can still end.\<close>

definition outcomeOf :: "(nat \<Rightarrow> err option \<Rightarrow> err + WatchResult \<Rightarrow> bool) \<Rightarrow> Stack list \<Rightarrow> nat \<Rightarrow> stackWatchOutcome \<Rightarrow> bool" where
  "outcomeOf ends stacks i o' \<longleftrightarrow> swo_stack o' = stacks ! i
     \<and> (swo_err o' = None \<longrightarrow> (\<exists>e. ends i e (Inr (swo_result o'))))"

definition callerAlive :: "watches \<Rightarrow> nat" where
  "callerAlive p = (if wt_parent p = None then 1 else 0)"

lemma watched_same:
  assumes "ends i e r"
  shows "\<exists>o'. outcomeOf ends stacks i o' \<and> same (watched stacks i r p) (settle i o' p)"
proof (intro exI conjI)
  let ?o = "case r of Inl e \<Rightarrow> \<lparr>swo_stack = stacks ! i, swo_result = zeroResult, swo_err = Some e\<rparr>
    | Inr res \<Rightarrow> \<lparr>swo_stack = stacks ! i, swo_result = res, swo_err = None\<rparr>"
  show "outcomeOf ends stacks i ?o" using assms by (auto simp: outcomeOf_def split: sum.split)
  show "same (watched stacks i r p) (settle i ?o p)"
    by (simp add: watched_def same_def cancelWatches_def Let_def split: sum.split)
qed

lemma callerAlive_simps [simp]:
  "callerAlive (launch p) = callerAlive p" "callerAlive (passOver o' p) = callerAlive p" "callerAlive (watched stacks i r p) = callerAlive p"
  by (simp_all add: callerAlive_def launch_def passOver_def watched_def settle_def cancelWatches_def Let_def split: sum.split)

lemma watchEnds_ex: "\<exists>r. watchEnds d c stacks projects i e r"
  by (auto simp: watchEnds_def)

interpretation watching: bounded_pool "watchStep (watchEnds d c stacks projects) stacks" maxConcurrentWatches "length stacks"
    "outcomeOf (watchEnds d c stacks projects) stacks" callerAlive
  for d :: "'w Deps" and c stacks projects
proof (unfold_locales, goal_cases)
  case (1 p q)
  then show ?case
  proof (cases rule: watchStep.cases)
    case (Refused e)
    moreover from this(1) have "outcomeOf (watchEnds d c stacks projects) stacks (pl_next p) \<lparr>swo_stack = stacks ! pl_next p, swo_result = zeroResult, swo_err = Some e\<rparr>"
      by (simp add: outcomeOf_def)
    ultimately show ?thesis by (metis callerAlive_simps(2) order_refl same_refl)
  next
    case (Watched i r)
    with watched_same [where ends = "watchEnds d c stacks projects", OF this(3), of stacks p] show ?thesis by auto
  next
    case (CallerEnds e)
    then show ?thesis by (auto simp: same_def callerAlive_def cancelWatches_def)
  qed (auto simp: outcomeOf_def)
next
  case (2 p)
  then show ?case by (blast intro: Admitted work_launch)
next
  case (3 i p)
  obtain r where r: "watchEnds d c stacks projects i (wt_err p) r" using watchEnds_ex by blast
  with 3 watched_same [where ends = "watchEnds d c stacks projects", OF r, of stacks p] show ?case by (blast intro: Watched work_settle)
next
  case 4
  show ?case by (simp add: maxConcurrentWatches_def)
qed

text \<open>A watch fails only with the error of a snapshot, unless its context has ended.\<close>

lemma wp_watchLoop_error:
  "wp (watchLoop fuel (\<lambda>_. ret None) snap clk c opts b deadline st first latest)
     (\<lambda>r _. \<forall>e. r = Some (Inl e) \<longrightarrow> (\<exists>v n e'. fst (run_state (snap c n) v) = Inl e' \<and> e = wrapf ''health snapshot: '' e')) w"
proof (induction fuel arbitrary: st first latest w)
  case (Suc fuel)
  have snapped: "wp (snap c n) (\<lambda>r _. \<forall>e. r = Inl e \<longrightarrow> (\<exists>v n. fst (run_state (snap c n) v) = Inl e)) w" for n w
    by (rule wpI) (metis fst_conv)
  have poll: "wp (snap c (ProjectName opts)) (\<lambda>r. wp (case r of
        Inl e \<Rightarrow> ret (Some (Inl (wrapf ''health snapshot: '' e)))
      | Inr cur \<Rightarrow> (case pollStep opts b st cur of
          Inl reason \<Rightarrow> ret (Some (Inr (unhealthyResult b reason)))
        | Inr st' \<Rightarrow> watchLoop fuel (\<lambda>_. ret None) snap clk c opts b deadline st' False cur))
      (\<lambda>r _. \<forall>e. r = Some (Inl e) \<longrightarrow> (\<exists>v n e'. fst (run_state (snap c n) v) = Inl e' \<and> e = wrapf ''health snapshot: '' e'))) w" for w
    by (rule wp_mono [OF snapped], auto simp: wp_return split: sum.split intro: Suc.IH) blast
  show ?case
    unfolding watchLoop.simps wp_bind
  proof (rule wp_trivial, rule wp_ifI, goal_cases)
    case (2 go v)
    show ?case unfolding wp_bind by (rule wp_trivial, rule wp_ifI) (auto simp: wp_bind wp_return intro: poll)
  qed (simp add: wp_return)
qed (simp add: wp_return)

lemma Watch_error:
  assumes "fst (run_state (Watch (\<lambda>_. ret None) snap clk c opts) w) = Inl e"
  shows "(\<exists>v n e' pre. fst (run_state (snap c n) v) = Inl e' \<and> e = wrapf pre e') \<or> e = Leaf OutOfFuel ''health watch: out of fuel''"
proof -
  have snapped: "wp (snap c n) (\<lambda>r _. \<forall>e. r = Inl e \<longrightarrow> (\<exists>v n. fst (run_state (snap c n) v) = Inl e)) v" for n v
    by (rule wpI) (metis fst_conv)
  have "wp (Watch (\<lambda>_. ret None) snap clk c opts) (\<lambda>r _. \<forall>e. r = Inl e \<longrightarrow>
      (\<exists>v n e' pre. fst (run_state (snap c n) v) = Inl e' \<and> e = wrapf pre e') \<or> e = Leaf OutOfFuel ''health watch: out of fuel'') w"
    unfolding Watch_def
  proof (intro wp_ifI wp_bindI, goal_cases)
    case 2
    show ?case
    proof (rule wp_mono [OF snapped], goal_cases)
      case (1 r v)
      show ?case
      proof (cases r)
        case (Inl x)
        with 1 show ?thesis by (auto simp: wp_return)
      next
        case (Inr baseline)
        show ?thesis
          unfolding Inr sum.case
          by (intro wp_ifI wp_bindI wp_trivial [where m = "Now clk"] wp_mono [OF wp_watchLoop_error])
            (auto simp: wp_return split: option.splits, blast)
      qed
    qed
  qed (simp add: wp_return)
  with assms show ?thesis by (auto simp: wp_def split: prod.splits)
qed

lemma watchEnds_not_canceled:
  assumes "\<And>w n e. fst (run_state (TakeSnapshot d (WithCancel c False) n) w) = Inl e \<Longrightarrow> \<not> errIs e Canceled"
    and "watchEnds d c stacks projects i None (Inl e)"
  shows "\<not> errIs e Canceled"
proof -
  from assms(2) obtain w where "fst (run_state (Watch (\<lambda>_. ret None) (TakeSnapshot d) (Clk d) (WithCancel c False)
      (healthOptions (Cfg d) (k_ProjectName (stacks ! i)) (expectsContainers projects i))) w) = Inl e"
    by (auto simp: watchEnds_def)
  from Watch_error [OF this] show ?thesis
  proof (elim disjE exE conjE)
    fix v n e' pre assume "fst (run_state (TakeSnapshot d (WithCancel c False) n) v) = Inl e'" "e = wrapf pre e'"
    with assms(1) show ?thesis by simp
  qed (simp add: errIs_def)
qed

text \<open>While the caller's context goes on, the watches are cancelled only because one of them has seen an
  unhealthy stack, and none reports a cancellation before.\<close>

definition cancelledForCause :: "watches \<Rightarrow> bool" where
  "cancelledForCause p \<longleftrightarrow>
     (wt_parent p = None \<and> wt_err p \<noteq> None \<longrightarrow>
        (\<exists>i o'. pl_slots p i = Some o' \<and> swo_err o' = None \<and> w_Outcome (swo_result o') \<noteq> Healthy))
   \<and> (\<forall>i o' e. pl_slots p i = Some o' \<and> swo_err o' = Some e \<and> errIs e Canceled \<longrightarrow> wt_err p \<noteq> None)"

lemma cancelledForCause_step:
  assumes ends: "\<And>i e. ends i None (Inl e) \<Longrightarrow> \<not> errIs e Canceled"
    and step: "watchStep ends stacks p q" and inv: "cancelledForCause p" and idle: "orderly n p"
  shows "cancelledForCause q"
  using step
proof (cases rule: watchStep.cases)
  case Admitted
  with inv show ?thesis by (simp add: cancelledForCause_def launch_def)
next
  case (Refused e)
  have "pl_slots p (pl_next p) = None" using idle by (auto simp: orderly_def)
  with Refused inv show ?thesis by (auto simp: cancelledForCause_def passOver_def) (metis option.distinct(1))
next
  case (Watched i r)
  have free: "pl_slots p i = None" using idle Watched(2) by (auto simp: orderly_def)
  show ?thesis
  proof (cases r)
    case (Inl e)
    with Watched inv free ends show ?thesis
      by (auto simp: cancelledForCause_def watched_def settle_def) (metis option.distinct(1))+
  next
    case (Inr res)
    with Watched inv free show ?thesis
      by (auto simp: cancelledForCause_def watched_def settle_def cancelWatches_def Let_def) (metis option.distinct(1))+
  qed
next
  case (CallerEnds e)
  with inv show ?thesis by (simp add: cancelledForCause_def cancelWatches_def)
qed

lemma cancelledForCause_steps:
  assumes "\<And>i e. ends i None (Inl e) \<Longrightarrow> \<not> errIs e Canceled"
    and "\<And>p k q. fresh p \<Longrightarrow> (watchStep ends stacks ^^ k) p q \<Longrightarrow> orderly (length stacks) q"
    and "fresh p" and "wt_err p = None" and "(watchStep ends stacks ^^ k) p q"
  shows "cancelledForCause q"
  using assms(5)
proof (induction k arbitrary: q)
  case 0
  with assms(3,4) show ?case by (simp add: cancelledForCause_def fresh_def)
next
  case (Suc k)
  then obtain r where r: "(watchStep ends stacks ^^ k) p r" "watchStep ends stacks r q" by auto
  show ?case by (rule cancelledForCause_step [OF assms(1) r(2) Suc.IH [OF r(1)] assms(2) [OF assms(3) r(1)]])
qed

text \<open>The loop over the outcomes, with the caller's context in a known state.\<close>

lemma wp_combineOutcomes_exact:
  assumes ctx: "\<And>w. run_state (CtxErr d c) w = (ce, w)"
  shows "wp (combineOutcomes d c os sm) (\<lambda>r _. \<forall>sm'. r = Inr sm' \<longrightarrow>
     (w_Outcome (ws_combined sm') = Healthy \<longleftrightarrow> w_Outcome (ws_combined sm) = Healthy
        \<and> (\<forall>o' \<in> set os. swo_err o' = None \<longrightarrow> w_Outcome (swo_result o') = Healthy))
     \<and> (\<forall>o' \<in> set os. \<forall>e. swo_err o' = Some e \<longrightarrow> ce = None \<and> errIs e Canceled)) w"
proof (induction os arbitrary: sm w)
  case (Cons o' os)
  have over: "wp (ended d c) (\<lambda>over _. over \<longleftrightarrow> ce \<noteq> None) v" for v
    by (simp add: ended_def wp_def ctx)
  show ?case
  proof (cases "swo_err o'")
    case None
    show ?thesis
      unfolding combineOutcomes.simps Let_def None option.case
      by (rule wp_mono [OF Cons.IH]) (auto simp: None split: if_splits)
  next
    case (Some e)
    show ?thesis
      unfolding combineOutcomes.simps Let_def Some option.case
      by (intro wp_bindI wp_mono [OF over] wp_ifI wp_mono [OF Cons.IH]) (auto simp: Some wp_return)
  qed
qed (simp add: wp_return)

text \<open>The slice of outcomes after the wait.\<close>

definition outcomes :: "Stack list \<Rightarrow> watches \<Rightarrow> stackWatchOutcome list" where
  "outcomes stacks p = map (\<lambda>i. case pl_slots p i of Some o' \<Rightarrow> o'
     | None \<Rightarrow> \<lparr>swo_stack = stacks ! i, swo_result = zeroResult, swo_err = None\<rparr>) [0..<length stacks]"

text \<open>Whether a watch of stack \<open>i\<close> can come out with this verdict.\<close>

definition watchVerdict :: "'w Deps \<Rightarrow> ctx \<Rightarrow> Stack list \<Rightarrow> Project list \<Rightarrow> nat \<Rightarrow> WatchResult \<Rightarrow> bool" where
  "watchVerdict d c stacks projects i r \<longleftrightarrow> (\<exists>e. watchEnds d c stacks projects i e (Inr r))"

lemma watches_joined:
  assumes snap: "\<And>w n e. fst (run_state (TakeSnapshot d (WithCancel c False) n) w) = Inl e \<Longrightarrow> \<not> errIs e Canceled"
    and start: "fresh p" "wt_parent p = None" "wt_err p = None"
    and run: "(watchStep (watchEnds d c stacks projects) stacks ^^ k) p q" and over: "waited (length stacks) q"
    and ctx: "\<And>w. run_state (CtxErr d c) w = (wt_parent q, w)"
    and joined: "fst (run_state (joinOutcomes d c (outcomes stacks q)) w) = Inr (res, base)"
  shows "if w_Outcome res = Healthy
    then \<forall>i < length stacks. \<exists>r. watchVerdict d c stacks projects i r \<and> w_Outcome r = Healthy
    else \<exists>i < length stacks. \<exists>r. watchVerdict d c stacks projects i r \<and> w_Outcome r \<noteq> Healthy"
proof -
  let ?sm = "\<lparr>ws_combined = zeroResult\<lparr>w_Outcome := Healthy\<rparr>, ws_baselines = Map.empty, ws_reasons = [], ws_notEvaluated = []\<rparr>"
  obtain sm where sm: "fst (run_state (combineOutcomes d c (outcomes stacks q) ?sm) w) = Inr sm" and res: "w_Outcome res = w_Outcome (ws_combined sm)"
    using joined by (auto simp: joinOutcomes_def Let_def split: sum.splits prod.splits)
  have exact: "w_Outcome (ws_combined sm) = Healthy \<longleftrightarrow>
      (\<forall>o' \<in> set (outcomes stacks q). swo_err o' = None \<longrightarrow> w_Outcome (swo_result o') = Healthy)"
    and cancelled: "\<And>o' e. o' \<in> set (outcomes stacks q) \<Longrightarrow> swo_err o' = Some e \<Longrightarrow> wt_parent q = None \<and> errIs e Canceled"
    using wp_combineOutcomes_exact [OF ctx, of "outcomes stacks q" ?sm w] sm by (simp_all add: wp_def split: prod.splits)
  note pool = watching.fresh_results [OF start(1) run over]
  have cause: "cancelledForCause q"
    by (rule cancelledForCause_steps [OF watchEnds_not_canceled [OF snap] watching.fresh_run(2) start(1,3) run])
  have nth: "outcomes stacks q ! i = o'" if "pl_slots q i = Some o'" "i < length stacks" for i o'
    using that by (simp add: outcomes_def)
  have len: "length (outcomes stacks q) = length stacks" by (simp add: outcomes_def)
  have slot: "\<exists>o'. pl_slots q i = Some o' \<and> o' \<in> set (outcomes stacks q) \<and> outcomeOf (watchEnds d c stacks projects) stacks i o'"
    if "i < length stacks" for i
    using pool [OF that] that nth len by (metis nth_mem)
  have mine: "\<exists>i < length stacks. pl_slots q i = Some o'" if "o' \<in> set (outcomes stacks q)" for o'
    using that pool nth len by (metis in_set_conv_nth)
  have inside: "i < length stacks" if "pl_slots q i = Some o'" for i o'
    using watching.all_written [OF watching.fresh_run(2) [OF start(1) run] over] that by blast
  show ?thesis
  proof (cases "w_Outcome res = Healthy")
    case True
    have good: "swo_err o' = None \<longrightarrow> w_Outcome (swo_result o') = Healthy" if "o' \<in> set (outcomes stacks q)" for o'
      using exact True res that by simp
    have "swo_err o' = None" if "o' \<in> set (outcomes stacks q)" for o'
    proof (rule ccontr)
      assume "swo_err o' \<noteq> None"
      then obtain e where e: "swo_err o' = Some e" by auto
      with cancelled [OF that] have "wt_parent q = None" "errIs e Canceled" by auto
      with cause e mine [OF that] obtain i b where "pl_slots q i = Some b" "swo_err b = None" "w_Outcome (swo_result b) \<noteq> Healthy"
        unfolding cancelledForCause_def by blast
      with good nth inside len show False by (metis nth_mem)
    qed
    with good slot True show ?thesis unfolding outcomeOf_def watchVerdict_def by (metis (full_types))
  next
    case False
    with exact res obtain o' where o': "o' \<in> set (outcomes stacks q)" "swo_err o' = None" "w_Outcome (swo_result o') \<noteq> Healthy" by auto
    with mine obtain i where i: "i < length stacks" "pl_slots q i = Some o'" by blast
    with slot [OF i(1)] o'(2) have "watchVerdict d c stacks projects i (swo_result o')" by (auto simp: outcomeOf_def watchVerdict_def)
    with i o' False show ?thesis by auto
  qed
qed

section \<open>Theorems\<close>

text \<open>C22: a snapshot does not depend on how its inspections interleave. At most sixteen of them run at a time, a run
  takes at most two steps a container and can always go on to its end; and at the end it gives the
  snapshot that inspecting the containers one after another gives, or the error of some container when
  that fails.\<close>

theorem concurrent_snapshot_equivalent:
  assumes "fresh p" and "in_err p = None" and "(inspectStep inspect summaries ^^ k) p q"
  shows "length (pl_running q) \<le> 16 \<and> k \<le> 2 * length summaries
    \<and> (\<exists>r. (inspectStep inspect summaries)\<^sup>*\<^sup>* q r \<and> waited (length summaries) r)
    \<and> (waited (length summaries) q \<longrightarrow>
        (case buildSnapshot inspect summaries now of
           Inr s \<Rightarrow> collected summaries now q = Inr s
         | Inl _ \<Rightarrow> \<exists>s \<in> set summaries. \<exists>e. inspectOne inspect s = Inl e \<and> collected summaries now q = Inl e))"
  using inspecting.fresh_run [OF assms(1,3)] collected_waited [OF assms] by (auto simp: maxConcurrentInspects_def)

text \<open>Two containers, the second of which has gone by the time it is inspected; the inspections end in reverse order.\<close>

definition twoSummaries :: "ContainerSummary list" where
  "twoSummaries = map (\<lambda>i. \<lparr>s_ID = i, s_Service = i, s_State = ''running'', s_Health = [], s_ExitCode = 0\<rparr>) [''a'', ''b'']"

definition twoAnswers :: "string \<Rightarrow> err + int" where
  "twoAnswers i = (if i = ''a'' then Inr 3 else Inl (Leaf NotFound ''no such container''))"

definition noInspections :: inspections where
  "noInspections = \<lparr>pl_next = 0, pl_running = [], pl_slots = Map.empty, in_err = None\<rparr>"

lemma two_inspections:
  "\<exists>q. (inspectStep twoAnswers twoSummaries ^^ 4) noInspections q \<and> waited 2 q"
proof -
  let ?S = "inspectStep twoAnswers twoSummaries" and ?q2 = "launch (launch noInspections)"
  let ?q3 = "inspected 1 (inspectOne twoAnswers (twoSummaries ! 1)) ?q2"
  let ?q4 = "inspected 0 (inspectOne twoAnswers (twoSummaries ! 0)) ?q3"
  have s: "?S noInspections (launch noInspections)" "?S (launch noInspections) ?q2"
    by (rule inspectStep.Go; simp add: noInspections_def twoSummaries_def maxConcurrentInspects_def)+
  have run3: "pl_running ?q3 = [0]" "pl_next ?q3 = 2"
    by (simp_all add: inspected_def noInspections_def inspectOne_def twoAnswers_def twoSummaries_def isNotFound_def errIs_def)
  have "?S ?q2 ?q3" by (rule inspectStep.Inspected) (simp add: noInspections_def)
  moreover have "?S ?q3 ?q4" by (rule inspectStep.Inspected) (simp add: run3 [simplified])
  ultimately have "(?S ^^ 4) noInspections ?q4"
    using s by (auto simp: numeral_eq_Suc intro!: relcomppI)
  moreover have "waited 2 ?q4"
    using run3 by (simp add: waited_def inspected_def split: sum.split)
  ultimately show ?thesis by blast
qed

theorem concurrent_snapshot_equivalent_witness:
  "\<exists>q. (inspectStep twoAnswers twoSummaries ^^ 4) noInspections q
     \<and> collected twoSummaries 0 q = buildSnapshot twoAnswers twoSummaries 0"
proof -
  obtain q where q: "(inspectStep twoAnswers twoSummaries ^^ 4) noInspections q" "waited 2 q" using two_inspections by blast
  have two: "length twoSummaries = 2" by (simp add: twoSummaries_def)
  obtain s where s: "buildSnapshot twoAnswers twoSummaries 0 = Inr s"
    by (simp add: buildSnapshot_def twoSummaries_def twoAnswers_def isNotFound_def errIs_def)
  have "fresh noInspections" "in_err noInspections = None" by (simp_all add: fresh_def noInspections_def)
  from concurrent_snapshot_equivalent [OF this q(1), of 0] have "collected twoSummaries 0 q = Inr s"
    using q(2) by (simp add: s two)
  with s q(1) show ?thesis by auto
qed

text \<open>C11: stopping the watches early never hides a stack. The watches run at most sixteen at a time, in any
  interleaving, and the first unhealthy stack cancels the others, which are then left out of the verdict. Still the combined verdict is
  healthy only if every single stack has been watched to a healthy end, and otherwise some watch has
  seen its stack unhealthy. The hypotheses are that a snapshot fails with a cancellation only if its context was cancelled, and that
  the caller's context has the same error when the outcomes are read as after the wait.\<close>

theorem watch_verdict_sound:
  assumes "\<And>w n e. fst (run_state (TakeSnapshot d (WithCancel c False) n) w) = Inl e \<Longrightarrow> \<not> errIs e Canceled"
    and "fresh p" and "wt_parent p = None" and "wt_err p = None"
    and "(watchStep (watchEnds d c stacks projects) stacks ^^ k) p q" and "waited (length stacks) q"
    and "\<And>w. run_state (CtxErr d c) w = (wt_parent q, w)"
    and "fst (run_state (joinOutcomes d c (outcomes stacks q)) w) = Inr (res, base)"
  shows "if w_Outcome res = Healthy
    then \<forall>i < length stacks. \<exists>r. watchVerdict d c stacks projects i r \<and> w_Outcome r = Healthy
    else \<exists>i < length stacks. \<exists>r. watchVerdict d c stacks projects i r \<and> w_Outcome r \<noteq> Healthy"
  using watches_joined [OF assms] .

text \<open>Two stacks: the watch of the first one sees a container exit before the second one has got a slot.\<close>

definition twoStacks :: "Stack list" where
  "twoStacks = [bareStack ''a'', bareStack ''b'']"

definition noWatches :: watches where
  "noWatches = \<lparr>pl_next = 0, pl_running = [], pl_slots = Map.empty, wt_parent = None, wt_err = None\<rparr>"

definition exitedWatch :: "err + WatchResult" where
  "exitedWatch = fst (run_state (Watch (\<lambda>_. ret None) (TakeSnapshot exitedDeps) (Clk exitedDeps) (WithCancel CallerCtx False)
     (healthOptions (Cfg exitedDeps) (k_ProjectName (twoStacks ! 0)) (expectsContainers [] 0))) ())"

definition secondRefused :: watches where
  "secondRefused =
     (let p = watched twoStacks 0 exitedWatch (launch noWatches)
      in passOver \<lparr>swo_stack = twoStacks ! pl_next p, swo_result = zeroResult, swo_err = Some contextCanceled\<rparr> p)"

lemma refused_run: "(watchStep (watchEnds exitedDeps CallerCtx twoStacks []) twoStacks ^^ 3) noWatches secondRefused"
proof -
  let ?S = "watchStep (watchEnds exitedDeps CallerCtx twoStacks []) twoStacks"
  have "?S noWatches (launch noWatches)"
    by (rule watchStep.Admitted) (simp_all add: noWatches_def twoStacks_def maxConcurrentWatches_def)
  moreover have "watchEnds exitedDeps CallerCtx twoStacks [] 0 None exitedWatch"
    by (auto simp: watchEnds_def exitedWatch_def)
  then have "?S (launch noWatches) (watched twoStacks 0 exitedWatch (launch noWatches))"
    by (intro watchStep.Watched) (simp_all add: noWatches_def launch_def)
  moreover have "pl_next (watched twoStacks 0 exitedWatch (launch noWatches)) = 1"
    "wt_err (watched twoStacks 0 exitedWatch (launch noWatches)) = Some contextCanceled" by code_simp+
  then have "?S (watched twoStacks 0 exitedWatch (launch noWatches)) secondRefused"
    unfolding secondRefused_def Let_def by (intro watchStep.Refused) (simp_all add: twoStacks_def)
  ultimately show ?thesis by (auto simp: numeral_eq_Suc intro!: relcomppI)
qed

theorem watch_verdict_sound_witness:
  "w_Outcome (fst (projr (fst (run_state (joinOutcomes exitedDeps CallerCtx (outcomes twoStacks secondRefused)) ())))) = Unhealthy
   \<and> (\<exists>i < 2. \<exists>r. watchVerdict exitedDeps CallerCtx twoStacks [] i r \<and> w_Outcome r \<noteq> Healthy)"
proof -
  let ?join = "fst (run_state (joinOutcomes exitedDeps CallerCtx (outcomes twoStacks secondRefused)) ())"
  have joined: "\<not> isl ?join \<and> w_Outcome (fst (projr ?join)) = Unhealthy" by code_simp
  then obtain res base where res: "?join = Inr (res, base)" "w_Outcome res = Unhealthy" by (cases ?join) auto
  have start: "fresh noWatches" "wt_parent noWatches = None" "wt_err noWatches = None" by (simp_all add: noWatches_def fresh_def)
  have over: "waited (length twoStacks) secondRefused" by code_simp
  have ctx: "run_state (CtxErr exitedDeps CallerCtx) w = (wt_parent secondRefused, w)" for w
  proof -
    have "wt_parent secondRefused = None" by code_simp
    then show ?thesis by (simp add: exitedDeps_def demoDeps_def State_Monad.return_def)
  qed
  have snap: "fst (run_state (TakeSnapshot exitedDeps (WithCancel CallerCtx False) n) w) \<noteq> Inl e" for n w e
    by (simp add: exitedDeps_def demoDeps_def State_Monad.return_def)
  have two: "length twoStacks = 2" by (simp add: twoStacks_def)
  have "\<exists>i < length twoStacks. \<exists>r. watchVerdict exitedDeps CallerCtx twoStacks [] i r \<and> w_Outcome r \<noteq> Healthy"
    using watch_verdict_sound [OF _ start refused_run over ctx res(1)] snap res(2) by simp
  with joined show ?thesis unfolding two by blast
qed

text \<open>Tearing stacks down: where the outcome for a project does not depend on when it is taken down, every
  interleaving of the goroutines gives the error that \<open>tearDownStacks\<close> gives.\<close>

lemma run_downAll:
  assumes "\<And>n w. fst (run_state (downStack d c n) w) = f n"
  shows "fst (run_state (downAll d c stacks) w) = (\<lambda>i. if i < length stacks then f (k_ProjectName (stacks ! i)) else None)"
proof -
  have loop: "wp (foldM (\<lambda>i failures. do { r \<leftarrow> downStack d c (k_ProjectName (stacks ! i)); ret (failures(i := r)) }) is fs)
      (\<lambda>fs' _. fs' = (\<lambda>i. if i \<in> set is then f (k_ProjectName (stacks ! i)) else fs i)) v" for "is" fs v
  proof (induction "is" arbitrary: fs v)
    case (Cons i "is" fs v)
    have "wp (downStack d c (k_ProjectName (stacks ! i))) (\<lambda>r _. r = f (k_ProjectName (stacks ! i))) v"
      using assms by (simp add: wp_def split: prod.splits) (metis fst_conv)
    then show ?case
      unfolding foldM.simps wp_bind wp_return by (rule wp_mono) (auto intro!: wp_mono [OF Cons.IH] split: if_splits)
  qed (simp add: wp_return)
  have "wp (downAll d c stacks) (\<lambda>fs' _. fs' = (\<lambda>i. if i < length stacks then f (k_ProjectName (stacks ! i)) else None)) w"
    unfolding downAll_def by (intro wp_bindI wp_trivial [where m = "Schedule _ _"] wp_mono [OF loop]) auto
  then show ?thesis by (simp add: wp_def split: prod.splits)
qed

theorem teardown_interleavings_agree:
  assumes answers: "\<And>n w. fst (run_state (downStack d (WithoutCancel c) n) w) = f n"
    and "fresh p" and "(teardownStep (downAnswers d (WithoutCancel c)) stacks ^^ k) p q" and "waited (length stacks) q"
  shows "teardownErrors stacks (failures q) = fst (run_state (tearDownStacks d c stacks) w)"
proof -
  have inside: "pl_slots q i = None" if "\<not> i < length stacks" for i
    using tearing.all_written [OF tearing.fresh_run(2) [OF assms(2,3)] assms(4)] that by blast
  have "failures q i = (if i < length stacks then f (k_ProjectName (stacks ! i)) else None)" for i
    using tearing.fresh_results [OF assms(2,3,4), of i] inside [of i] by (auto simp: failures_def downAnswers_def answers)
  then have "failures q = fst (run_state (downAll d (WithoutCancel c) stacks) w)"
    unfolding run_downAll [OF answers] by (rule ext)
  then show ?thesis by (simp add: tearDownStacks_def teardownErrors_def Let_def split: prod.split)
qed

end
