(* ===== verification/DiscoverHeap.thy ===== *)
theory DiscoverHeap
  imports DiscoverCached
begin

text \<open>
  The cache of stack discovery with its aliasing: \<^verbatim>\<open>Discover\<close> and \<^verbatim>\<open>cloneStacks\<close> of
  \<^verbatim>\<open>internal/compose/discover.go\<close> over an explicit heap of arrays. The cache keeps a slice, and every caller gets
  a deep copy, so that no caller can reach the cached arrays: what the program computes is what \<open>Discover\<close> of theory
  \<open>Discover\<close> computes, where the cache is a value.
\<close>

section \<open>The heap\<close>

text \<open>
  A slice is the address of its array; nil is the address \<open>0\<close>, whose array stays empty. A \<^verbatim>\<open>Stack\<close> in memory holds the
  address of its \<^verbatim>\<open>Files\<close>.
\<close>

type_synonym addr = nat

record StackCell =
  cl_ProjectName :: string
  cl_Dir :: string
  cl_Files :: addr

record heap =
  hp_stacks :: "addr \<Rightarrow> StackCell list"
  hp_files :: "addr \<Rightarrow> string list"
  hp_next :: addr

definition newFiles :: "string list \<Rightarrow> heap \<Rightarrow> addr \<times> heap" where
  "newFiles xs h = (hp_next h, h\<lparr>hp_files := (hp_files h)(hp_next h := xs), hp_next := Suc (hp_next h)\<rparr>)"

definition newStacks :: "StackCell list \<Rightarrow> heap \<Rightarrow> addr \<times> heap" where
  "newStacks cs h = (hp_next h, h\<lparr>hp_stacks := (hp_stacks h)(hp_next h := cs), hp_next := Suc (hp_next h)\<rparr>)"

text \<open>What a slice of stacks holds.\<close>

definition view :: "heap \<Rightarrow> addr \<Rightarrow> Stack list" where
  "view h a = map (\<lambda>s. \<lparr>k_ProjectName = cl_ProjectName s, k_Dir = cl_Dir s, k_Files = hp_files h (cl_Files s)\<rparr>) (hp_stacks h a)"

text \<open>The slice that \<^verbatim>\<open>discover\<close> builds, every array of it new.\<close>

fun newCells :: "Stack list \<Rightarrow> heap \<Rightarrow> StackCell list \<times> heap" where
  "newCells [] h = ([], h)"
| "newCells (s # ss) h =
     (let (f, h1) = newFiles (k_Files s) h; (cs, h2) = newCells ss h1
      in (\<lparr>cl_ProjectName = k_ProjectName s, cl_Dir = k_Dir s, cl_Files = f\<rparr> # cs, h2))"

definition buildStacks :: "Stack list \<Rightarrow> heap \<Rightarrow> addr \<times> heap" where
  "buildStacks ss h = (let (cs, h1) = newCells ss h in newStacks cs h1)"

text \<open>\<^verbatim>\<open>cloneStacks\<close>: a new array of the same cells, then cell by cell a new array for its files.\<close>

definition cloneFilesAt :: "addr \<Rightarrow> nat \<Rightarrow> heap \<Rightarrow> heap" where
  "cloneFilesAt out i h =
     (let s = hp_stacks h out ! i; (f, h1) = newFiles (hp_files h (cl_Files s)) h
      in h1\<lparr>hp_stacks := (hp_stacks h1)(out := (hp_stacks h1 out)[i := s\<lparr>cl_Files := f\<rparr>])\<rparr>)"

definition cloneStacks :: "addr \<Rightarrow> heap \<Rightarrow> addr \<times> heap" where
  "cloneStacks a h =
     (let (out, h1) = newStacks (hp_stacks h a) h
      in (out, fold (cloneFilesAt out) [0..<length (hp_stacks h1 out)] h1))"

section \<open>The cache\<close>

text \<open>
  The memory of the process: the heap, the package variable \<^verbatim>\<open>cache\<close>, and, for the sake of the theorems, the addresses that
  callers of \<open>Discover\<close> have been given.
\<close>

record memory =
  m_heap :: heap
  m_key :: string
  m_fingerprint :: string
  m_stacks :: addr
  m_handed :: "addr list"

text \<open>A program on the world outside, and one on the memory.\<close>

definition onHost :: "('w, 'a) state \<Rightarrow> ('w \<times> 'm, 'a) state" where
  "onHost m = State (\<lambda>(w, x). case run_state m w of (a, w') \<Rightarrow> (a, (w', x)))"

definition onMemory :: "('m \<Rightarrow> 'a \<times> 'm) \<Rightarrow> ('w \<times> 'm, 'a) state" where
  "onMemory f = State (\<lambda>(w, x). case f x of (a, x') \<Rightarrow> (a, (w, x')))"

definition onHeap :: "(heap \<Rightarrow> addr \<times> heap) \<Rightarrow> memory \<Rightarrow> addr \<times> memory" where
  "onHeap f m = (case f (m_heap m) of (a, h) \<Rightarrow> (a, m\<lparr>m_heap := h\<rparr>))"

text \<open>Returning a slice to the caller gives it the array and those of the files.\<close>

definition handOver :: "addr \<Rightarrow> memory \<Rightarrow> addr \<times> memory" where
  "handOver a m = (a, m\<lparr>m_handed := a # map cl_Files (hp_stacks (m_heap m) a) @ m_handed m\<rparr>)"

definition DiscoverIn :: "'w Host \<Rightarrow> string \<Rightarrow> string \<Rightarrow> ('w \<times> memory, err + addr) state" where
  "DiscoverIn host composeDir base = do {
     let key = composeDir @ [CHR 0x00] @ base;
     fp \<leftarrow> onHost (fingerprint host composeDir);
     hit \<leftarrow> (case fp of
        Inl _ \<Rightarrow> ret None
      | Inr f \<Rightarrow> onMemory (\<lambda>m. (if m_key m = key \<and> m_fingerprint m = f then Some (m_stacks m) else None, m)));
     case hit of
       Some stacks \<Rightarrow> do {
         out \<leftarrow> onMemory (onHeap (cloneStacks stacks));
         a \<leftarrow> onMemory (handOver out);
         ret (Inr a)
       }
     | None \<Rightarrow> do {
         r \<leftarrow> onHost (discover host composeDir base);
         case r of
           Inl e \<Rightarrow> ret (Inl e)
         | Inr found \<Rightarrow> do {
             stacks \<leftarrow> onMemory (onHeap (buildStacks found));
             _ \<leftarrow> (case fp of
                Inl _ \<Rightarrow> ret ()
              | Inr f \<Rightarrow> onMemory (\<lambda>m. ((), m\<lparr>m_key := key, m_fingerprint := f, m_stacks := stacks\<rparr>)));
             out \<leftarrow> onMemory (onHeap (cloneStacks stacks));
             a \<leftarrow> onMemory (handOver out);
             ret (Inr a)
           }
       }
   }"

section \<open>The callers\<close>

text \<open>
  What can happen to the memory: a call of \<open>Discover\<close>, whose answer is what the returned slice holds; a caller writing
  an element of a slice of stacks or of files that it was given (any other address is out of its
  reach); and something outside, such as a new checkout, changing the world.
\<close>

datatype 'w move = Call string string | WriteStack addr nat StackCell | WriteFile addr nat string | Outside 'w

fun act :: "'w Host \<Rightarrow> 'w move \<Rightarrow> 'w \<times> memory \<Rightarrow> (err + Stack list) option \<times> 'w \<times> memory" where
  "act host (Call dir base) s =
     (case run_state (DiscoverIn host dir base) s of
        (r, (w, m)) \<Rightarrow> (Some (map_sum id (view (m_heap m)) r), w, m))"
| "act host (WriteStack a i c) (w, m) =
     (None, w, if a \<in> set (m_handed m) then m\<lparr>m_heap := (m_heap m)\<lparr>hp_stacks := (hp_stacks (m_heap m))(a := (hp_stacks (m_heap m) a)[i := c])\<rparr>\<rparr> else m)"
| "act host (WriteFile a i x) (w, m) =
     (None, w, if a \<in> set (m_handed m) then m\<lparr>m_heap := (m_heap m)\<lparr>hp_files := (hp_files (m_heap m))(a := (hp_files (m_heap m) a)[i := x])\<rparr>\<rparr> else m)"
| "act host (Outside w') (w, m) = (None, w', m)"

fun acts :: "'w Host \<Rightarrow> 'w move list \<Rightarrow> 'w \<times> memory \<Rightarrow> (err + Stack list) option list \<times> 'w \<times> memory" where
  "acts host [] s = ([], s)"
| "acts host (x # xs) s = (let (r, s') = act host x s; (rs, s'') = acts host xs s' in (r # rs, s''))"

text \<open>The specification: the cache is a variable that holds a value, and writes of callers are nobody else's business.\<close>

definition valueHost :: "'w Host \<Rightarrow> ('w \<times> DiscoverCache) Host" where
  "valueHost h = \<lparr>
     ReadFile = (\<lambda>p. onHost (ReadFile h p)), ReadDir = (\<lambda>p. onHost (ReadDir h p)), StatIsDir = (\<lambda>p. onHost (StatIsDir h p)),
     cacheGet = onMemory (\<lambda>c. (c, c)), cachePut = (\<lambda>c. onMemory (\<lambda>_. ((), c))),
     yamlDecode = yamlDecode h, schemaValidate = schemaValidate h, sha256 = sha256 h, Getwd = Getwd h\<rparr>"

fun specAct :: "'w Host \<Rightarrow> 'w move \<Rightarrow> 'w \<times> DiscoverCache \<Rightarrow> (err + Stack list) option \<times> 'w \<times> DiscoverCache" where
  "specAct host (Call dir base) s = (case run_state (Discover (valueHost host) dir base) s of (r, s') \<Rightarrow> (Some r, s'))"
| "specAct host (WriteStack a i c) s = (None, s)"
| "specAct host (WriteFile a i x) s = (None, s)"
| "specAct host (Outside w') s = (None, w', snd s)"

fun specActs :: "'w Host \<Rightarrow> 'w move list \<Rightarrow> 'w \<times> DiscoverCache \<Rightarrow> (err + Stack list) option list \<times> 'w \<times> DiscoverCache" where
  "specActs host [] s = ([], s)"
| "specActs host (x # xs) s = (let (r, s') = specAct host x s; (rs, s'') = specActs host xs s' in (r # rs, s''))"

section \<open>Copies\<close>

text \<open>Allocation leaves what there is as it is.\<close>

definition grows :: "heap \<Rightarrow> heap \<Rightarrow> bool" where
  "grows h h' \<longleftrightarrow> hp_next h \<le> hp_next h' \<and> (\<forall>a < hp_next h. hp_stacks h' a = hp_stacks h a \<and> hp_files h' a = hp_files h a)"

lemma grows_refl [simp]: "grows h h"
  by (simp add: grows_def)

lemma grows_trans: "grows h h' \<Longrightarrow> grows h' h'' \<Longrightarrow> grows h h''"
  by (auto simp: grows_def)

text \<open>Everything a slice reaches has been allocated, from \<open>low\<close> on.\<close>

definition reach :: "heap \<Rightarrow> addr \<Rightarrow> addr set" where
  "reach h a = insert a (cl_Files ` set (hp_stacks h a))"

definition allocated :: "addr \<Rightarrow> heap \<Rightarrow> addr \<Rightarrow> bool" where
  "allocated low h a \<longleftrightarrow> reach h a \<subseteq> {low..<hp_next h}"

lemma allocated_file: "allocated low h a \<Longrightarrow> i < length (hp_stacks h a) \<Longrightarrow> cl_Files (hp_stacks h a ! i) < hp_next h"
  by (auto simp: allocated_def reach_def subset_iff)

lemma grows_reach: "grows h h' \<Longrightarrow> allocated 0 h a \<Longrightarrow> reach h' a = reach h a \<and> view h' a = view h a \<and> allocated 0 h' a"
  by (auto simp: grows_def allocated_def reach_def view_def subset_iff)

lemma newCells_cells:
  "newCells ss h = (cs, h') \<Longrightarrow> grows h h' \<and> hp_stacks h' = hp_stacks h
     \<and> map (\<lambda>s. \<lparr>k_ProjectName = cl_ProjectName s, k_Dir = cl_Dir s, k_Files = hp_files h' (cl_Files s)\<rparr>) cs = ss
     \<and> cl_Files ` set cs \<subseteq> {hp_next h..<hp_next h'}"
proof (induction ss arbitrary: h h' cs)
  case (Cons s ss h h' cs)
  obtain cs2 h2 where rec: "newCells ss (snd (newFiles (k_Files s) h)) = (cs2, h2)" by fastforce
  have h': "h' = h2" and cs: "cs = \<lparr>cl_ProjectName = k_ProjectName s, cl_Dir = k_Dir s, cl_Files = hp_next h\<rparr> # cs2"
    using Cons.prems rec by (auto simp: newFiles_def Let_def)
  from Cons.IH [OF rec] show ?case
    by (auto simp: h' cs grows_def newFiles_def subset_iff)
qed simp

lemma buildStacks_new:
  assumes "buildStacks ss h = (a, h')"
  shows "grows h h' \<and> view h' a = ss \<and> allocated (hp_next h) h' a"
proof -
  obtain cs h1 where cs: "newCells ss h = (cs, h1)" by fastforce
  with assms newCells_cells [OF this] show ?thesis
    by (auto simp: buildStacks_def newStacks_def grows_def view_def allocated_def reach_def image_subset_iff less_Suc_eq)
qed

text \<open>The loop of \<open>cloneStacks\<close>: the first \<open>k\<close> cells have new files with the old contents.\<close>

definition copied :: "heap \<Rightarrow> addr \<Rightarrow> addr \<Rightarrow> nat \<Rightarrow> heap \<Rightarrow> bool" where
  "copied h a out k h' \<longleftrightarrow> grows h h' \<and> hp_next h = out \<and> out < hp_next h' \<and> length (hp_stacks h' out) = length (hp_stacks h a)
     \<and> (\<forall>i < length (hp_stacks h a). cl_ProjectName (hp_stacks h' out ! i) = cl_ProjectName (hp_stacks h a ! i)
          \<and> cl_Dir (hp_stacks h' out ! i) = cl_Dir (hp_stacks h a ! i)
          \<and> hp_files h' (cl_Files (hp_stacks h' out ! i)) = hp_files h (cl_Files (hp_stacks h a ! i))
          \<and> (if i < k then cl_Files (hp_stacks h' out ! i) \<in> {out<..<hp_next h'}
             else cl_Files (hp_stacks h' out ! i) = cl_Files (hp_stacks h a ! i)))"

lemma copied_step:
  assumes "copied h a out k h'" and "allocated 0 h a" and "k < length (hp_stacks h a)"
  shows "copied h a out (Suc k) (cloneFilesAt out k h')"
proof -
  let ?n = "length (hp_stacks h a)" and ?h = "cloneFilesAt out k h'"
  have c: "grows h h'" "hp_next h = out" "out < hp_next h'" "length (hp_stacks h' out) = ?n"
      "k < length (hp_stacks h' out)"
    using assms(1,3) by (auto simp: copied_def)
  have h: "hp_next ?h = Suc (hp_next h')" "hp_files ?h = (hp_files h')(hp_next h' := hp_files h' (cl_Files (hp_stacks h' out ! k)))"
      "hp_stacks ?h = (hp_stacks h')(out := (hp_stacks h' out)[k := (hp_stacks h' out ! k)\<lparr>cl_Files := hp_next h'\<rparr>])"
    by (simp_all add: cloneFilesAt_def newFiles_def Let_def)
  have "grows h ?h" using c by (auto simp: grows_def h)
  moreover have "cl_ProjectName (hp_stacks ?h out ! i) = cl_ProjectName (hp_stacks h a ! i)
      \<and> cl_Dir (hp_stacks ?h out ! i) = cl_Dir (hp_stacks h a ! i)
      \<and> hp_files ?h (cl_Files (hp_stacks ?h out ! i)) = hp_files h (cl_Files (hp_stacks h a ! i))
      \<and> (if i < Suc k then cl_Files (hp_stacks ?h out ! i) \<in> {out<..<hp_next ?h}
         else cl_Files (hp_stacks ?h out ! i) = cl_Files (hp_stacks h a ! i))" if i: "i < ?n" for i
  proof -
    have old: "cl_ProjectName (hp_stacks h' out ! i) = cl_ProjectName (hp_stacks h a ! i)"
        "cl_Dir (hp_stacks h' out ! i) = cl_Dir (hp_stacks h a ! i)"
        "hp_files h' (cl_Files (hp_stacks h' out ! i)) = hp_files h (cl_Files (hp_stacks h a ! i))"
        "if i < k then cl_Files (hp_stacks h' out ! i) \<in> {out<..<hp_next h'}
         else cl_Files (hp_stacks h' out ! i) = cl_Files (hp_stacks h a ! i)"
      using assms(1) i unfolding copied_def by auto
    have "cl_Files (hp_stacks h' out ! i) \<noteq> hp_next h'"
      using old(4) allocated_file [OF assms(2) i] c(2,3) by (auto split: if_splits)
    then show ?thesis using old c(3,5) by (cases "i = k") (auto simp: h nth_list_update)
  qed
  moreover have "length (hp_stacks ?h out) = ?n" "out < hp_next ?h" using c by (simp_all add: h)
  ultimately show ?thesis unfolding copied_def using c(2) by blast
qed

lemma cloneStacks_new:
  assumes "cloneStacks a h = (out, h')" and "allocated 0 h a"
  shows "grows h h' \<and> view h' out = view h a \<and> allocated (hp_next h) h' out"
proof -
  let ?n = "length (hp_stacks h a)" and ?h1 = "snd (newStacks (hp_stacks h a) h)"
  have out: "out = hp_next h" and h': "h' = fold (cloneFilesAt out) [0..<?n] ?h1"
    using assms(1) by (auto simp: cloneStacks_def newStacks_def Let_def)
  have "copied h a out k (fold (cloneFilesAt out) [0..<k] ?h1)" if "k \<le> ?n" for k
    using that
  proof (induction k)
    case 0
    have "cl_Files (hp_stacks h a ! i) < hp_next h" if "i < ?n" for i
      using allocated_file [OF assms(2) that] .
    then show ?case by (auto simp: copied_def newStacks_def grows_def out)
  next
    case (Suc k)
    then show ?case using copied_step [OF Suc.IH assms(2)] by simp
  qed
  from this [of ?n] have c: "copied h a out ?n h'" by (simp add: h')
  then have "view h' out = view h a" by (auto simp: view_def copied_def intro!: nth_equalityI)
  moreover have "cl_Files x \<in> {out<..<hp_next h'}" if "x \<in> set (hp_stacks h' out)" for x
    using c that by (auto simp: copied_def in_set_conv_nth)
  then have "allocated (hp_next h) h' out" using c by (force simp: allocated_def reach_def copied_def out)
  ultimately show ?thesis using c by (simp add: copied_def)
qed

section \<open>Programs on the world outside\<close>

text \<open>Discovery on a host whose world holds the cache as well is discovery on the host, the cache untouched.\<close>

lemma onHost_ret: "onHost (ret a) = ret a"
  by (simp add: onHost_def State_Monad.return_def)

lemma onHost_bind: "onHost (m \<bind> f) = onHost m \<bind> (\<lambda>a. onHost (f a))"
  by (auto simp: onHost_def State_Monad.bind_def split: prod.split)

lemmas onHost_simps = onHost_ret onHost_bind if_distrib [of onHost] option.case_distrib [of onHost] sum.case_distrib [of onHost]
  prod.case_distrib [of onHost] list.case_distrib [of onHost] Let_def

lemmas branches = sum.case_cong option.case_cong list.case_cong prod.case_cong if_cong

lemma valueHost_simps [simp]:
  "ReadFile (valueHost h) p = onHost (ReadFile h p)" "ReadDir (valueHost h) p = onHost (ReadDir h p)"
  "StatIsDir (valueHost h) p = onHost (StatIsDir h p)" "cacheGet (valueHost h) = onMemory (\<lambda>c. (c, c))"
  "cachePut (valueHost h) c = onMemory (\<lambda>_. ((), c))" "yamlMappings (valueHost h) = yamlMappings h"
  "schemaValidate (valueHost h) = schemaValidate h" "sha256 (valueHost h) = sha256 h"
  by (simp_all add: valueHost_def yamlMappings_def fun_eq_iff)

lemma value_entry:
  "isComposeCandidate (valueHost h) dir e = onHost (isComposeCandidate h dir e)"
  "subDirOf (valueHost h) dir e = onHost (subDirOf h dir e)"
  by (simp_all add: isComposeCandidate_def subDirOf_def entryIsDir_def onHost_simps cong: branches)

lemma value_check: "checkComposeFile (valueHost h) p = onHost (checkComposeFile h p)"
  by (simp add: checkComposeFile_def onHost_simps cong: branches)

lemma value_collect: "collectFiles (valueHost h) dir es = onHost (collectFiles h dir es)"
  by (induction es) (simp_all add: value_entry value_check onHost_simps cong: branches)

lemma value_files: "composeFilesIn (valueHost h) dir es = onHost (composeFilesIn h dir es)"
  by (simp add: composeFilesIn_def value_collect onHost_simps cong: branches)

lemma value_subs: "discoverSubs (valueHost h) dir base es = onHost (discoverSubs h dir base es)"
  by (induction es) (simp_all add: value_entry value_files onHost_simps cong: branches)

lemma value_discover: "discover (valueHost h) dir base = onHost (discover h dir base)"
  by (simp add: discover_def value_subs value_files onHost_simps cong: branches)

lemma value_hash: "hashComposeFiles (valueHost h) dir es = onHost (hashComposeFiles h dir es)"
  by (induction es) (simp_all add: value_entry onHost_simps cong: branches)

lemma value_hashSubs: "hashSubDirs (valueHost h) dir es = onHost (hashSubDirs h dir es)"
  by (induction es) (simp_all add: value_entry value_hash onHost_simps cong: branches)

lemma value_fingerprint: "fingerprint (valueHost h) dir = onHost (fingerprint h dir)"
  by (simp add: fingerprint_def value_hash value_hashSubs onHost_simps cong: branches)

section \<open>The copies keep callers apart\<close>

text \<open>What the cache reaches has been allocated, and nothing of it has been handed to a caller.\<close>

definition apart :: "memory \<Rightarrow> bool" where
  "apart m \<longleftrightarrow> allocated 0 (m_heap m) (m_stacks m) \<and> set (m_handed m) \<subseteq> {..<hp_next (m_heap m)}
     \<and> reach (m_heap m) (m_stacks m) \<inter> set (m_handed m) = {}"

definition cacheValue :: "memory \<Rightarrow> DiscoverCache" where
  "cacheValue m = \<lparr>dc_key = m_key m, dc_fingerprint = m_fingerprint m, dc_stacks = view (m_heap m) (m_stacks m)\<rparr>"

text \<open>Copying a slice and giving the copy away.\<close>

definition giveCopy :: "addr \<Rightarrow> memory \<Rightarrow> addr \<times> memory" where
  "giveCopy a m = (case onHeap (cloneStacks a) m of (out, m') \<Rightarrow> handOver out m')"

lemma giveCopy_apart:
  assumes "apart m" and a: "allocated 0 (m_heap m) a" and "giveCopy a m = (out, m')"
  shows "apart m' \<and> cacheValue m' = cacheValue m \<and> view (m_heap m') out = view (m_heap m) a \<and> grows (m_heap m) (m_heap m')"
proof -
  obtain h' where c: "cloneStacks a (m_heap m) = (out, h')" and m': "m' = m\<lparr>m_heap := h', m_handed := out # map cl_Files (hp_stacks h' out) @ m_handed m\<rparr>"
    using assms(3) by (auto simp: giveCopy_def onHeap_def handOver_def split: prod.splits)
  have old: "allocated 0 (m_heap m) (m_stacks m)" using assms(1) by (simp add: apart_def)
  note new = cloneStacks_new [OF c a] and same = grows_reach [OF conjunct1 [OF cloneStacks_new [OF c a]] old]
  have handed: "set (m_handed m') = reach h' out \<union> set (m_handed m)" by (auto simp: m' reach_def)
  have "reach h' (m_stacks m) \<inter> reach h' out = {}"
    using old new same by (force simp: allocated_def)
  moreover have "reach h' out \<union> set (m_handed m) \<subseteq> {..<hp_next h'}"
    using assms(1) new by (auto simp: apart_def allocated_def grows_def subset_iff)
  ultimately have "apart m'"
    using assms(1) same unfolding apart_def handed by (auto simp: m')
  with new same show ?thesis by (auto simp: cacheValue_def m')
qed

text \<open>Storing a slice that has just been built.\<close>

lemma stored_apart:
  assumes "apart m" and "onHeap (buildStacks found) m = (a, m')"
  shows "apart m' \<and> apart (m'\<lparr>m_key := k, m_fingerprint := f, m_stacks := a\<rparr>) \<and> grows (m_heap m) (m_heap m')
    \<and> cacheValue m' = cacheValue m \<and> view (m_heap m') a = found \<and> m_handed m' = m_handed m
    \<and> allocated 0 (m_heap m') a \<and> reach (m_heap m') a \<inter> set (m_handed m) = {}"
proof -
  obtain h' where b: "buildStacks found (m_heap m) = (a, h')" and m': "m' = m\<lparr>m_heap := h'\<rparr>"
    using assms(2) by (auto simp: onHeap_def split: prod.splits)
  have old: "allocated 0 (m_heap m) (m_stacks m)" using assms(1) by (simp add: apart_def)
  note new = buildStacks_new [OF b] and same = grows_reach [OF conjunct1 [OF buildStacks_new [OF b]] old]
  have "set (m_handed m) \<subseteq> {..<hp_next h'}" using assms(1) new by (auto simp: apart_def grows_def)
  moreover have "reach h' a \<inter> set (m_handed m) = {}" using assms(1) new by (fastforce simp: apart_def allocated_def)
  ultimately show ?thesis
    using assms(1) new same by (auto simp: apart_def cacheValue_def m' allocated_def)
qed

lemma run_onHost [simp]: "run_state (onHost m) (w, x) = (case run_state m w of (a, w') \<Rightarrow> (a, (w', x)))"
  by (simp add: onHost_def)

lemma run_onMemory [simp]: "run_state (onMemory f) (w, x) = (case f x of (a, x') \<Rightarrow> (a, (w, x')))"
  by (simp add: onMemory_def)

text \<open>Whether a cache with this key and fingerprint is a hit.\<close>

definition hits :: "err + string \<Rightarrow> string \<Rightarrow> string \<Rightarrow> string \<Rightarrow> bool" where
  "hits fp key k f \<longleftrightarrow> (case fp of Inl _ \<Rightarrow> False | Inr f' \<Rightarrow> k = key \<and> f = f')"

text \<open>Both versions of \<open>Discover\<close>, in terms of what is read.\<close>

lemma run_DiscoverIn:
  assumes fp: "run_state (fingerprint host dir) w = (fp, w1)" and d: "run_state (discover host dir base) w1 = (r, w2)"
  shows "run_state (DiscoverIn host dir base) (w, m) =
    (if hits fp (dir @ CHR 0x00 # base) (m_key m) (m_fingerprint m)
        then (case giveCopy (m_stacks m) m of (out, m') \<Rightarrow> (Inr out, (w1, m')))
        else case r of
          Inl e \<Rightarrow> (Inl e, (w2, m))
        | Inr found \<Rightarrow>
            (case onHeap (buildStacks found) m of
               (a, m1) \<Rightarrow> (case giveCopy a (case fp of Inl _ \<Rightarrow> m1
                   | Inr f \<Rightarrow> m1\<lparr>m_key := dir @ CHR 0x00 # base, m_fingerprint := f, m_stacks := a\<rparr>) of
                 (out, m') \<Rightarrow> (Inr out, (w2, m')))))"
  by (cases fp; cases r) (simp_all add: DiscoverIn_def giveCopy_def hits_def Let_def fp d split: prod.split)

lemma run_Discover_value:
  assumes fp: "run_state (fingerprint host dir) w = (fp, w1)" and d: "run_state (discover host dir base) w1 = (r, w2)"
  shows "run_state (Discover (valueHost host) dir base) (w, c) =
    (if hits fp (dir @ CHR 0x00 # base) (dc_key c) (dc_fingerprint c)
        then (Inr (dc_stacks c), (w1, c))
        else (r, (w2, case (fp, r) of (Inr f, Inr found) \<Rightarrow> \<lparr>dc_key = dir @ CHR 0x00 # base, dc_fingerprint = f, dc_stacks = found\<rparr> | _ \<Rightarrow> c)))"
  by (cases fp; cases r) (simp_all add: Discover_def value_fingerprint value_discover hits_def Let_def fp d)

text \<open>One move keeps the cache apart and does what the specification says.\<close>

lemma call_refines:
  assumes "apart m" and "run_state (DiscoverIn host dir base) (w, m) = (r, (w', m'))"
  shows "apart m' \<and> grows (m_heap m) (m_heap m')
    \<and> run_state (Discover (valueHost host) dir base) (w, cacheValue m) = (map_sum id (view (m_heap m')) r, (w', cacheValue m'))"
proof -
  obtain fp w1 where fp: "run_state (fingerprint host dir) w = (fp, w1)" by fastforce
  obtain f w2 where d: "run_state (discover host dir base) w1 = (f, w2)" by fastforce
  let ?key = "dir @ CHR 0x00 # base"
  note run = run_DiscoverIn [OF fp d, of m] and spec = run_Discover_value [OF fp d, of "cacheValue m"]
  have old: "allocated 0 (m_heap m) (m_stacks m)" using assms(1) by (simp add: apart_def)
  show ?thesis
  proof (cases "hits fp ?key (m_key m) (m_fingerprint m)")
    case True
    then have same: "hits fp ?key (dc_key (cacheValue m)) (dc_fingerprint (cacheValue m))"
      by (simp add: cacheValue_def)
    obtain out m1 where g: "giveCopy (m_stacks m) m = (out, m1)" by fastforce
    with run True assms(2) have r: "r = Inr out" "w' = w1" "m' = m1" by simp_all
    from giveCopy_apart [OF assms(1) old g] show ?thesis
      using spec same by (simp add: r) (simp add: cacheValue_def)
  next
    case False
    then have diff: "\<not> hits fp ?key (dc_key (cacheValue m)) (dc_fingerprint (cacheValue m))"
      by (simp add: cacheValue_def)
    show ?thesis
    proof (cases f)
      case (Inl e)
      with run False assms spec diff show ?thesis by (auto split: sum.splits)
    next
      case (Inr found)
      obtain a m1 where b: "onHeap (buildStacks found) m = (a, m1)" by fastforce
      let ?m2 = "case fp of Inl _ \<Rightarrow> m1 | Inr f \<Rightarrow> m1\<lparr>m_key := ?key, m_fingerprint := f, m_stacks := a\<rparr>"
      obtain out m3 where g: "giveCopy a ?m2 = (out, m3)" by fastforce
      with run False assms(2) Inr b have r: "r = Inr out" "w' = w2" "m' = m3" by simp_all
      note stored = stored_apart [OF assms(1) b]
      have two: "apart ?m2" "allocated 0 (m_heap ?m2) a" "m_heap ?m2 = m_heap m1"
        using stored by (simp_all split: sum.split)
      have "cacheValue ?m2 = (case (fp, f) of (Inr f, Inr found) \<Rightarrow> \<lparr>dc_key = ?key, dc_fingerprint = f, dc_stacks = found\<rparr> | _ \<Rightarrow> cacheValue m)"
        using stored Inr by (simp split: sum.split) (simp add: cacheValue_def)
      moreover note giveCopy_apart [OF two(1,2) g]
      ultimately show ?thesis
        using spec diff stored Inr two(3) grows_trans [of "m_heap m" "m_heap m1" "m_heap m3"] by (simp add: r)
    qed
  qed
qed

lemma write_apart:
  assumes "apart m" and "a \<in> set (m_handed m)"
  shows "apart (m\<lparr>m_heap := (m_heap m)\<lparr>hp_stacks := (hp_stacks (m_heap m))(a := cs)\<rparr>\<rparr>)
       \<and> cacheValue (m\<lparr>m_heap := (m_heap m)\<lparr>hp_stacks := (hp_stacks (m_heap m))(a := cs)\<rparr>\<rparr>) = cacheValue m"
    and "apart (m\<lparr>m_heap := (m_heap m)\<lparr>hp_files := (hp_files (m_heap m))(a := xs)\<rparr>\<rparr>)
       \<and> cacheValue (m\<lparr>m_heap := (m_heap m)\<lparr>hp_files := (hp_files (m_heap m))(a := xs)\<rparr>\<rparr>) = cacheValue m"
proof -
  have out: "a \<noteq> m_stacks m" "a \<notin> cl_Files ` set (hp_stacks (m_heap m) (m_stacks m))"
    using assms by (auto simp: apart_def reach_def)
  then show "apart (m\<lparr>m_heap := (m_heap m)\<lparr>hp_stacks := (hp_stacks (m_heap m))(a := cs)\<rparr>\<rparr>)
       \<and> cacheValue (m\<lparr>m_heap := (m_heap m)\<lparr>hp_stacks := (hp_stacks (m_heap m))(a := cs)\<rparr>\<rparr>) = cacheValue m"
    using assms(1) by (simp add: apart_def allocated_def reach_def cacheValue_def view_def)
  show "apart (m\<lparr>m_heap := (m_heap m)\<lparr>hp_files := (hp_files (m_heap m))(a := xs)\<rparr>\<rparr>)
       \<and> cacheValue (m\<lparr>m_heap := (m_heap m)\<lparr>hp_files := (hp_files (m_heap m))(a := xs)\<rparr>\<rparr>) = cacheValue m"
    using assms(1) out by (auto simp: apart_def allocated_def reach_def cacheValue_def view_def)
qed

lemma act_refines:
  assumes "apart m" and "act host x (w, m) = (r, (w', m'))"
  shows "apart m' \<and> specAct host x (w, cacheValue m) = (r, (w', cacheValue m'))"
proof (cases x)
  case (Call dir base)
  obtain a w1 m1 where run: "run_state (DiscoverIn host dir base) (w, m) = (a, (w1, m1))" by (metis prod_cases3)
  with call_refines [OF assms(1) run] assms(2) show ?thesis by (auto simp: Call)
next
  case (WriteStack a i c)
  with assms write_apart(1) [OF assms(1)] show ?thesis by (auto split: if_splits)
next
  case (WriteFile a i s)
  with assms write_apart(2) [OF assms(1)] show ?thesis by (auto split: if_splits)
next
  case (Outside v)
  with assms show ?thesis by auto
qed

lemma acts_refine:
  "apart m \<Longrightarrow> acts host xs (w, m) = (rs, (w', m')) \<Longrightarrow>
     apart m' \<and> specActs host xs (w, cacheValue m) = (rs, (w', cacheValue m'))"
proof (induction xs arbitrary: w m rs)
  case (Cons x xs)
  obtain r w1 m1 where one: "act host x (w, m) = (r, (w1, m1))" by (metis prod_cases3)
  obtain rs1 w2 m2 where more: "acts host xs (w1, m1) = (rs1, (w2, m2))" by (metis prod_cases3)
  from Cons.prems(2) one more have "rs = r # rs1" "w' = w2" "m' = m2" by (simp_all add: Let_def)
  with act_refines [OF Cons.prems(1) one] Cons.IH [of m1 w1 rs1] more show ?case by (simp add: Let_def)
qed simp

section \<open>Theorem\<close>

definition noMemory :: memory where
  "noMemory = \<lparr>m_heap = \<lparr>hp_stacks = \<lambda>_. [], hp_files = \<lambda>_. [], hp_next = 1\<rparr>, m_key = [], m_fingerprint = [],
     m_stacks = 0, m_handed = []\<rparr>"

lemma noMemory_apart: "apart noMemory" "cacheValue noMemory = emptyCache"
  by (simp_all add: noMemory_def apart_def allocated_def reach_def cacheValue_def view_def emptyCache_def)

text \<open>C21: the cached slices are out of everybody's reach. Whatever callers write into the slices that \<open>Discover\<close> has returned
  to them, and however these writes, calls and changes of the directory are ordered, every call returns
  what it returns when the cache is a value and nobody writes anything; and a call changes
  no slice that a caller has already got.\<close>

theorem cache_not_aliased:
  assumes "acts host xs (w, noMemory) = (rs, (w', m))"
  shows "fst (specActs host xs (w, emptyCache)) = rs
    \<and> (\<forall>dir base. case act host (Call dir base) (w', m) of (_, (_, m')) \<Rightarrow>
        \<forall>a \<in> set (m_handed m). hp_stacks (m_heap m') a = hp_stacks (m_heap m) a \<and> hp_files (m_heap m') a = hp_files (m_heap m) a)"
proof -
  have a: "apart m" and s: "specActs host xs (w, emptyCache) = (rs, (w', cacheValue m))"
    using acts_refine [OF noMemory_apart(1) assms] by (simp_all add: noMemory_apart(2))
  have "\<forall>a \<in> set (m_handed m). hp_stacks (m_heap m') a = hp_stacks (m_heap m) a \<and> hp_files (m_heap m') a = hp_files (m_heap m) a"
    if run: "act host (Call dir base) (w', m) = (r, (w1, m'))" for dir base r w1 m'
  proof -
    obtain x where "run_state (DiscoverIn host dir base) (w', m) = (x, (w1, m'))" using run by (auto split: prod.splits)
    from call_refines [OF a this] have "grows (m_heap m) (m_heap m')" by simp
    with a show ?thesis by (auto simp: apart_def grows_def)
  qed
  with s show ?thesis by (auto split: prod.split)
qed

text \<open>A caller overwrites the file name in its answer, which is at address \<open>4\<close>, and the next one gets the right name all the same.\<close>

definition scribbling :: "DiscoverCache move list" where
  "scribbling = [Call ''/d'' ''p'', WriteFile 4 0 ''oops.yml'', Call ''/d'' ''p'']"

theorem cache_not_aliased_witness:
  "let answer = Some (Inr [\<lparr>k_ProjectName = ''p'', k_Dir = ''/d'', k_Files = [''/d/compose.yml'']\<rparr>])
    in fst (acts cacheHost scribbling (emptyCache, noMemory)) = [answer, None, answer]
       \<and> fst (specActs cacheHost scribbling (emptyCache, emptyCache)) = [answer, None, answer]
       \<and> hp_files (m_heap (snd (snd (acts cacheHost scribbling (emptyCache, noMemory))))) 4 = [''oops.yml'']"
proof -
  let ?answer = "Some (Inr [\<lparr>k_ProjectName = ''p'', k_Dir = ''/d'', k_Files = [''/d/compose.yml'']\<rparr>])"
  obtain rs w m where run: "acts cacheHost scribbling (emptyCache, noMemory) = (rs, (w, m))" by (metis prod_cases3)
  have "fst (acts cacheHost scribbling (emptyCache, noMemory)) = [?answer, None, ?answer]"
    "hp_files (m_heap (snd (snd (acts cacheHost scribbling (emptyCache, noMemory))))) 4 = [''oops.yml'']" by code_simp+
  with cache_not_aliased [OF run] run show ?thesis by (simp add: Let_def)
qed

end
