(* ===== verification/Readers.thy ===== *)
theory Readers
  imports Processes CliMain
begin

text \<open>
  Processes that share the state lock: a status, a check and a dry run take it with \<^verbatim>\<open>TryRLock\<close> (\<open>sharedLock\<close>,
  \<^verbatim>\<open>cmd/composelock/setup.go\<close>), the other commands for themselves. Locale \<open>shared_exclusive\<close> extends \<open>exclusive\<close> to such a lock; with
  it, whoever has the lock to look at the system, no deployment changes it meanwhile. It does not hold
  two dry runs apart, which write the state in some cases all the same.
\<close>

section \<open>A lock for readers and writers\<close>

text \<open>It is granted only while the others that hold it, if any, share it as well.\<close>

definition sharedLaw :: "(nat \<Rightarrow> bool) \<Rightarrow> event \<Rightarrow> event \<Rightarrow> history \<Rightarrow> bool" where
  "sharedLaw writer acq rel tr \<longleftrightarrow>
     (\<forall>xs p ys. tr = xs @ (p, Some acq) # ys \<longrightarrow> (\<forall>q. holds acq rel q xs \<longrightarrow> q = p \<or> \<not> writer p \<and> \<not> writer q))"

text \<open>Where everybody writes it is the law of an exclusive lock.\<close>

lemma sharedLaw_writers: "sharedLaw (\<lambda>_. True) acq rel tr \<longleftrightarrow> lockLaw acq rel tr"
  by (simp add: sharedLaw_def lockLaw_def)

locale shared_exclusive = exclusive +
  fixes writer :: "nat \<Rightarrow> bool"
begin

lemma sharedLaw_prefix:
  assumes "sharedLaw writer acq rel (tr @ tr')"
  shows "sharedLaw writer acq rel tr"
  unfolding sharedLaw_def
proof (intro allI impI)
  fix xs p ys q
  assume tr: "tr = xs @ (p, Some acq) # ys" and q: "holds acq rel q xs"
  have "tr @ tr' = xs @ (p, Some acq) # ys @ tr'" using tr by simp
  with assms q show "q = p \<or> \<not> writer p \<and> \<not> writer q" unfolding sharedLaw_def by blast
qed

lemma sharedLaw_last:
  "sharedLaw writer acq rel (tr @ [(p, Some acq)]) \<Longrightarrow> holds acq rel q tr \<Longrightarrow> q = p \<or> \<not> writer p \<and> \<not> writer q"
  unfolding sharedLaw_def by blast

text \<open>Two that hold the lock at the same time share it.\<close>

lemma holders_share:
  "sharedLaw writer acq rel tr \<Longrightarrow> holds acq rel p tr \<Longrightarrow> holds acq rel q tr \<Longrightarrow> p = q \<or> \<not> writer p \<and> \<not> writer q"
proof (induction tr rule: rev_induct)
  case (snoc x tr)
  obtain r y where x: "x = (r, y)" by (cases x)
  have "p = q \<or> \<not> writer p \<and> \<not> writer q" if "holds acq rel p tr" "holds acq rel q tr"
    using snoc.IH [OF sharedLaw_prefix [OF snoc.prems(1)]] that by blast
  moreover have "s = r \<or> \<not> writer r \<and> \<not> writer s" if "y = Some acq" "holds acq rel s tr" for s
    using sharedLaw_last snoc.prems(1) that unfolding x by blast
  ultimately show ?case using snoc.prems(2,3) unfolding x holds_snoc by (auto split: if_splits)
qed simp

end

interpretation state_flock: shared_exclusive "EvLock True" EvUnlock writer for writer
  by unfold_locales

section \<open>Processes that only look\<close>

text \<open>What a process logs that shares the lock: the status command, and runs that are dry, with what they send.\<close>

inductive readerLog :: "'w Deps \<Rightarrow> event list \<Rightarrow> bool" for d where
  fresh: "readerLog d []"
| status: "readerLog d es \<Longrightarrow> run_state (cmdStatus marshalState (traced d) c path) ([], w) = (r, (es', w')) \<Longrightarrow> readerLog d (es @ es')"
| dry_run: "readerLog d es \<Longrightarrow> op_DryRun opts \<Longrightarrow> run_state (Reconcile (traced d) c opts) ([], w) = (r, (es', w')) \<Longrightarrow>
    readerLog d (es @ es')"
| notify: "readerLog d es \<Longrightarrow> readerLog d (es @ [EvSend k])"

text \<open>A machine with both kinds; \<open>writer p\<close> says which one process \<open>p\<close> is.\<close>

definition mixedHistory :: "(nat \<Rightarrow> bool) \<Rightarrow> (nat \<Rightarrow> 'w Deps) \<Rightarrow> history \<Rightarrow> bool" where
  "mixedHistory writer deps tr \<longleftrightarrow> (\<forall>xs p e ys. tr = xs @ (p, Some e) # ys \<longrightarrow> (p, None) \<notin> set xs)
     \<and> (\<forall>p. \<exists>es. (if writer p then processLog (deps p) es else readerLog (deps p) es) \<and> prefix (eventsOf p tr) es)"

lemma writer_holds:
  assumes "mixedHistory writer deps tr" and "writer p" and "Lock (deps p) = Some l" and "tr = xs @ (p, Some e) # ys" and "acting e"
  shows "holds (EvLock True) EvUnlock p xs"
proof -
  obtain es where log: "processLog (deps p) es" and "prefix (eventsOf p tr) es" and alive: "(p, None) \<notin> set xs"
    using assms(1,2,4) unfolding mixedHistory_def by metis
  then obtain zs where "es = eventsOf p xs @ e # zs" by (auto simp: assms(4) prefix_def)
  moreover obtain tryLock unlock where "Lock (deps p) = Some (tryLock, unlock)" using assms(3) by (cases l) auto
  from processLog_disciplined [OF log this] have "lockDisciplined es" .
  ultimately show ?thesis using assms(5) alive unfolding lockDisciplined_def holds_def by blast
qed

text \<open>Those who share the lock leave Docker alone.\<close>

lemma readerLog_spares: "readerLog d es \<Longrightarrow> list_all sparing es"
proof (induction rule: readerLog.induct)
  case (status es marshalState c path w r es' w')
  then have "run_state (cmdStatus marshalState (traced d) c path) ([], w) = (r, (es', w'))" by simp
  from keepsD [OF keeps_cmdStatus [where ?es0.0 = "[]"] _ this] have "list_all lockOnly es'" by simp
  then have "list_all sparing es'" by (rule list.pred_mono_strong) (auto elim!: permits.elims)
  with status.IH show ?case by simp
next
  case (dry_run es opts c w r es' w')
  from keepsD [OF keeps_sparing_Reconcile [OF dry_run.hyps(2), where ?es0.0 = "[]"] _ dry_run.hyps(3)] dry_run.IH show ?case by simp
qed simp_all

lemma reader_spares:
  assumes "mixedHistory writer deps tr" and "\<not> writer p" and "(p, Some e) \<in> set tr"
  shows "sparing e"
proof -
  obtain es where "readerLog (deps p) es" "prefix (eventsOf p tr) es" using assms(1,2) unfolding mixedHistory_def by metis
  moreover from assms(3) have "e \<in> set (eventsOf p tr)" by (auto dest!: split_list)
  ultimately show ?thesis using readerLog_spares set_mono_prefix by (fastforce simp: list_all_iff)
qed

text \<open>C7: nobody deploys behind the back of a command that looks: while any process, a status or a check for one, holds the state
  lock, no other process touches a container or pulls an image, and no other process that takes the lock for itself, to deploy, to pause or
  to resume, checks anything out or writes the state, however many processes of both kinds there are and
  whenever they are killed. (Dry runs, which share the lock, do move the checkout and write the state at times, also while
  another one holds it: \<open>dry_runs_overlap\<close>.)\<close>

theorem no_change_behind_a_reader:
  assumes "mixedHistory writer deps tr" and "sharedLaw writer (EvLock True) EvUnlock tr"
    and "tr = xs @ (p, Some e) # ys" and "Lock (deps p) \<noteq> None" and "holds (EvLock True) EvUnlock q xs" and "q \<noteq> p"
  shows "e \<noteq> EvUp \<and> e \<noteq> EvPull \<and> (\<forall>n. e \<noteq> EvDown n) \<and> \<not> (writer p \<and> acting e)"
proof (cases "writer p")
  case True
  have "\<not> acting e"
  proof
    assume "acting e"
    obtain l where "Lock (deps p) = Some l" using assms(4) by blast
    from writer_holds [OF assms(1) True this assms(3) \<open>acting e\<close>] have "holds (EvLock True) EvUnlock p xs" .
    moreover have "sharedLaw writer (EvLock True) EvUnlock xs"
      using assms(2) unfolding assms(3) by (rule state_flock.sharedLaw_prefix)
    ultimately show False using state_flock.holders_share assms(5,6) True by blast
  qed
  then show ?thesis by auto
next
  case False
  from reader_spares [OF assms(1) False, of e] assms(3) have "sparing e" by simp
  with False show ?thesis by auto
qed

section \<open>Witnesses\<close>

lemma lockLaw_sharedLaw: "lockLaw acq rel tr \<Longrightarrow> sharedLaw writer acq rel tr"
  unfolding lockLaw_def sharedLaw_def by blast

text \<open>Process 1 begins to deploy while process 0 shows the status.\<close>

abbreviation machine0 :: "repo Deps" where
  "machine0 \<equiv> repoDeps ''docker-compose.yml'' (upFailsAt ''bbbb'')"

definition statusLog :: "event list" where
  "statusLog = fst (snd (run_state (cmdStatus (\<lambda>_. Inr ''{}'') (traced machine0) CallerCtx ''c.json'') ([], repoAt demoState)))"

lemma statusLog_reader: "readerLog machine0 statusLog"
proof -
  let ?run = "run_state (cmdStatus (\<lambda>_. Inr ''{}'') (traced machine0) CallerCtx ''c.json'') ([], repoAt demoState)"
  obtain r es w where "?run = (r, (es, w))" by (cases ?run) auto
  from readerLog.status [OF readerLog.fresh this] show ?thesis using \<open>?run = (r, (es, w))\<close> by (simp add: statusLog_def)
qed

lemma holding_took: "holding acq rel False es \<Longrightarrow> acq \<in> set es"
proof (induction es)
  case (Cons e es)
  then show ?case by (cases "e = acq") (auto split: if_splits)
qed simp

theorem no_change_behind_a_reader_witness:
  "\<exists>tr xs e ys. mixedHistory (\<lambda>p. p = 1) (\<lambda>_. machine0) tr \<and> sharedLaw (\<lambda>p. p = 1) (EvLock True) EvUnlock tr
     \<and> tr = xs @ (1, Some e) # ys \<and> holds (EvLock True) EvUnlock 0 xs
     \<and> e \<noteq> EvUp \<and> e \<noteq> EvPull \<and> (\<forall>n. e \<noteq> EvDown n) \<and> \<not> acting e"
proof -
  obtain r es w where run: "repoRun ''docker-compose.yml'' ''bbbb'' demoOpts demoState = (r, (es, w))"
    "run_state (Reconcile (traced machine0) CallerCtx demoOpts) ([], repoAt demoState) = (r, (es, w))"
    by (rule repoRun_traced)
  have "case fst (snd (repoRun ''docker-compose.yml'' ''bbbb'' demoOpts demoState)) of e # _ \<Rightarrow> e \<noteq> EvLock True | [] \<Rightarrow> False"
    by code_simp
  then obtain e es' where es: "es = e # es'" and e: "e \<noteq> EvLock True" using run(1) by (auto split: list.splits)
  define pre where "pre = takeWhile (\<lambda>e. e \<noteq> EvUnlock) statusLog"
  have held: "holding (EvLock True) EvUnlock False pre" unfolding pre_def by code_simp
  define tr where "tr = tagged 0 pre @ [(1, Some e)]"
  have events: "eventsOf p tr = (if p = 0 then pre else if p = 1 then [e] else [])" for p by (simp add: tr_def)
  have "prefix pre statusLog" unfolding pre_def by (metis prefixI takeWhile_dropWhile_id)
  moreover have "processLog machine0 es" using processLog.reconcile [OF processLog.fresh run(2)] by simp
  ultimately have logs: "\<exists>es. (if p = 1 then processLog machine0 es else readerLog machine0 es) \<and> prefix (eventsOf p tr) es" for p
    using statusLog_reader readerLog.fresh [of machine0]
    by (intro exI [of _ "if p = 0 then statusLog else if p = 1 then es else []"]) (auto simp: events es)
  have ends: "(p, None) \<notin> set tr" for p by (simp add: tr_def)
  with logs have hist: "mixedHistory (\<lambda>p. p = 1) (\<lambda>_. machine0) tr" unfolding mixedHistory_def by auto
  have law: "sharedLaw (\<lambda>p. p = 1) (EvLock True) EvUnlock tr"
    unfolding sharedLaw_def
  proof (intro allI impI disjI1)
    fix xs p ys q
    assume tr: "tr = xs @ (p, Some (EvLock True)) # ys" and "holds (EvLock True) EvUnlock q xs"
    then have "EvLock True \<in> set (eventsOf q tr)" "EvLock True \<in> set (eventsOf p tr)" by (auto simp: holds_def dest: holding_took)
    with e show "q = p" unfolding events by (auto split: if_splits)
  qed
  have some: "Lock machine0 \<noteq> None" by (simp add: repoDeps_def)
  have "holds (EvLock True) EvUnlock 0 (tagged 0 pre)" using held ends [of 0] by (simp add: holds_def tr_def)
  moreover from no_change_behind_a_reader [OF hist law tr_def some this]
  have "e \<noteq> EvUp \<and> e \<noteq> EvPull \<and> (\<forall>n. e \<noteq> EvDown n) \<and> \<not> acting e" by simp
  ultimately show ?thesis using hist law tr_def by blast
qed

section \<open>Dry runs that overlap\<close>

text \<open>The lock does not hold two dry runs apart, although a dry run saves the state when no stack has changed: two checks
  at the same time both save it, the one in the middle of the other.\<close>

definition dryLog :: "event list" where
  "dryLog = fst (snd (repoRun ''README.md'' ''bbbb'' (demoOpts\<lparr>op_DryRun := True\<rparr>) demoState))"

theorem dry_runs_overlap:
  "\<exists>tr xs ys zs st st'. mixedHistory (\<lambda>_. False) (\<lambda>_. repoDeps ''README.md'' (upFailsAt ''bbbb'')) tr
     \<and> sharedLaw (\<lambda>_. False) (EvLock True) EvUnlock tr
     \<and> tr = xs @ (1, Some (EvSave st True)) # ys @ (0, Some (EvSave st' True)) # zs
     \<and> holds (EvLock True) EvUnlock 0 xs \<and> holds (EvLock True) EvUnlock 1 xs"
proof -
  let ?d = "repoDeps ''README.md'' (upFailsAt ''bbbb'')" and ?opts = "demoOpts\<lparr>op_DryRun := True\<rparr>"
  obtain r es w where run: "repoRun ''README.md'' ''bbbb'' ?opts demoState = (r, (es, w))"
    "run_state (Reconcile (traced ?d) CallerCtx ?opts) ([], repoAt demoState) = (r, (es, w))"
    by (rule repoRun_traced)
  have es: "es = dryLog" using run(1) by (simp add: dryLog_def)
  have "op_DryRun ?opts" by simp
  from readerLog.dry_run [OF readerLog.fresh this run(2)] have log: "readerLog ?d dryLog" by (simp add: es)
  have "case dropWhile (\<lambda>e. case e of EvSave st True \<Rightarrow> False | _ \<Rightarrow> True) dryLog of EvSave st True # _ \<Rightarrow> True | _ \<Rightarrow> False"
    by code_simp
  then obtain st post where post: "dropWhile (\<lambda>e. case e of EvSave st True \<Rightarrow> False | _ \<Rightarrow> True) dryLog = EvSave st True # post"
    by (auto split: list.splits event.splits bool.splits)
  define pre where "pre = takeWhile (\<lambda>e. case e of EvSave st True \<Rightarrow> False | _ \<Rightarrow> True) dryLog"
  have dry: "dryLog = pre @ EvSave st True # post" unfolding pre_def post [symmetric] by simp
  have held: "holding (EvLock True) EvUnlock False pre" unfolding pre_def by code_simp
  define tr where "tr = (tagged 0 pre @ tagged 1 pre) @ (1, Some (EvSave st True)) # tagged 1 post @ (0, Some (EvSave st True)) # tagged 0 post"
  have events: "eventsOf p tr = (if p = 0 \<or> p = 1 then dryLog else [])" for p
    by (auto simp: tr_def dry)
  have "mixedHistory (\<lambda>_. False) (\<lambda>_. ?d) tr"
    unfolding mixedHistory_def
  proof (intro conjI allI impI)
    show "(p, None) \<notin> set xs" if "tr = xs @ (p, Some e) # ys" for xs p e ys
    proof -
      have "(p, None) \<notin> set tr" by (simp add: tr_def)
      with that show ?thesis by simp
    qed
    show "\<exists>es. (if False then processLog ?d es else readerLog ?d es) \<and> prefix (eventsOf p tr) es" for p
      using log readerLog.fresh [of ?d] by (auto simp: events)
  qed
  moreover have "sharedLaw (\<lambda>_. False) (EvLock True) EvUnlock tr" by (simp add: sharedLaw_def)
  moreover have "holds (EvLock True) EvUnlock p (tagged 0 pre @ tagged 1 pre)" if "p = 0 \<or> p = 1" for p
    using held that by (auto simp: holds_def)
  ultimately show ?thesis unfolding tr_def by blast
qed

end
