(* ===== verification/Spec2Isabelle.thy ===== *)
theory Spec2Isabelle
  imports RunRecovery RunLocks RunOutcomes Findings CliMain StoreSpec DiscoverCached Goroutines ConfigWarnings StateOnDisk
    Pools DiscoverHeap Daemons Readers
begin

text \<open>
  \<^bold>\<open>ComposeLock.\<close> A GitOps agent for Docker Compose. A run fetches a branch, decides whether the new commit
  concerns the configured compose stacks, refuses to touch an unhealthy deployment, checks the commit
  out, brings the changed stacks up, watches their containers and either promotes the commit to \<^emph>\<open>last
  healthy\<close> or rolls back to the last healthy one. What it has to remember across runs and crashes is one
  JSON file. Runs are started by hand, by a polling daemon, or by pushes to a webhook.

  \<^bold>\<open>How the parts interact.\<close> \<^verbatim>\<open>cmd/composelock\<close> parses the command line, loads and validates the
  configuration, builds the dependencies of a run (\<^verbatim>\<open>reconcile.Deps\<close>) and calls a command. Every command that
  changes something ends in \<^verbatim>\<open>reconcile.Reconcile\<close>, which takes the state lock, loads the state, resumes an
  interrupted deployment if there is one, and otherwise runs the normal path over the git client, the
  compose service and the health watcher. State writes, checkouts and Docker operations alternate so that
  the file always says how to go on after a crash. The monitor looks at the same stacks between runs;
  the notifier and the heartbeat report.

  \<^bold>\<open>Conventions.\<close> A Go function with effects is a \<open>State_Monad\<close> program over an abstract world \<open>'w\<close>; the
  interfaces it is given (runner, compose service, snapshotter, clock, store, lock, host) are records of
  such programs, and nothing is known about them but what a theorem assumes. A function returning an error
  returns \<open>err option\<close> or \<open>err + 'a\<close>; a pointer receiver that is changed is returned. \<open>CL_Prelude\<close> explains the
  types, and gives the judgements \<open>wp\<close> and \<open>keeps\<close> that all effect proofs use.

  \<^bold>\<open>Theories and sources\<close> (paths below \<^verbatim>\<open>src/\<close>).
  \<^item> \<open>CL_Prelude\<close>: strings, durations, errors, contexts, the monad, shared lemmas.
  \<^item> \<open>StateFile\<close>, \<^verbatim>\<open>internal/state/state.go\<close>: the state record, its operations, its JSON document, the file store
    on a disk whose system calls fail one by one, the memory store. \<open>StoreSpec\<close>: both stores refine a variable.
  \<^item> \<open>Health\<close>, \<^verbatim>\<open>internal/health\<close>: evaluation of snapshots, the watch loop, the real clock.
  \<^item> \<open>Paths\<close>: the lexical path functions and \<open>pathUnder\<close>. \<open>GitSync\<close>, \<^verbatim>\<open>internal/git/git.go\<close>: all git commands.
  \<^item> \<open>ComposeProject\<close>, \<open>Discover\<close>, \<open>DiscoverCached\<close>, \<open>Inputs\<close>, \<open>Clients\<close>, \<^verbatim>\<open>internal/compose\<close>: projects, stack
    discovery and its cache, the files a project depends on, the service over the Docker Compose SDK; \<open>Clients\<close>
    also holds the snapshotter and the reading of HTTP answers. \<open>DiscoverHeap\<close>: the cache in a memory of shared arrays, with
    the writes of callers into the slices they were given. \<open>Execx\<close>, \<^verbatim>\<open>internal/execx\<close>: redaction and the runner.
  \<^item> \<open>Config\<close>, \<^verbatim>\<open>internal/config\<close>: defaults, loading, overrides, validation, the deploy window.
    \<open>ConfigWarnings\<close>: the warnings of loading. \<open>ConfigInit\<close>: the document that init writes.
  \<^item> \<open>Notify\<close>, \<open>Delivery\<close>, \<^verbatim>\<open>internal/notify\<close>: embeds within Discord's limits, throttling, delivery; the JSON payloads and
    the requests that carry them.
  \<^item> \<open>Deps\<close>, \<open>ReconcileBase\<close>, \<open>Revert\<close>, \<open>ApplyRun\<close>, \<open>Reconcile\<close>, \<^verbatim>\<open>internal/reconcile\<close>: the dependencies with a
    version that logs every effect (\<open>traced\<close>), the building blocks, the rollback, the normal run, crash recovery
    and the entry point with its locks. \<open>Monitor\<close>: \<^verbatim>\<open>monitor.go\<close>.
  \<^item> \<open>Webhook\<close>, \<^verbatim>\<open>internal/webhook/server.go\<close>: the routes and handlers, and the server with its queue, its worker, the
    window timer and the shutdown as the step relation \<open>serverStep\<close>.
  \<^item> \<open>CliFlags\<close>, \<open>Cli\<close>, \<open>CliMain\<close>, \<^verbatim>\<open>cmd/composelock\<close>: flags, commands, setup, dispatch and \<open>runMain\<close>, the whole
    process; \<open>buildDeps\<close> there puts the modelled components together as the program does: the file store on the disk
    of the world, the notifier, the git client over the runner, the compose service and the snapshotter.
    \<open>Daemons\<close>: the goroutines of the poll command, and \<^verbatim>\<open>pprof.go\<close>.
    \<open>StateOnDisk\<close>: every command on such dependencies keeps the state file usable, killed at any moment or not.
  \<^item> \<open>Contract\<close>, \<open>Traces\<close>: the contract of a run and its readings. \<open>RunProperties\<close>, \<open>RunRecovery\<close>, \<open>RunLocks\<close>,
    \<open>RunOutcomes\<close>: the theorems on runs. \<open>Processes\<close>: histories of several processes over one state file;
    \<open>Goroutines\<close>: histories of the goroutines of a process, with the mutexes and activity counters it keeps per
    state file; \<open>Readers\<close>: histories in which some processes share the lock. \<open>Pools\<close>: the bounded pools of goroutines that
    inspect, watch and tear down. \<open>Findings\<close>: concrete runs on which code and documentation part.

  \<^bold>\<open>Interfaces.\<close> \<open>querying_deps\<close>, \<open>reading_deps\<close>, \<open>acting_deps\<close>, \<open>revert_contract\<close> and \<open>run_contract\<close> (theory \<open>Contract\<close>) state what
  dependencies promise about an invariant of the world, and every operation of a run is proved once to
  keep it; the interpretations in \<open>Traces\<close> instantiate the invariant at the log of the traced dependencies, and
  each gives one reading of all runs. \<open>state_store\<close> is the contract of \<^verbatim>\<open>state.Store\<close>, \<open>capped_log\<close> that of the two
  bounded lists of the state, \<open>advancing_clock\<close> that of a clock under which a watch ends, \<open>exclusive\<close> that of a lock, which the
  state lock and the mutex of a process keep, \<open>shared_exclusive\<close> its extension to a lock with readers, and \<open>bounded_pool\<close>
  that of a loop that starts at most so many goroutines at a time, each with a result slot of its own.

  \<^bold>\<open>What is shown.\<close>
  \<^item> Rollback and promotion: a rollback goes to the last healthy commit only; a new commit is applied only when the
    snapshots of all deployed stacks pass the gate; once stacks are brought up, a commit is promoted only after they have come up and
    a watch came out healthy, and it is promoted when everything succeeds; a failed one is remembered as bad and skipped; an
    infrastructure error of any stack, which is told apart from the program's own time limit, condemns no commit.
  \<^item> Crash safety: pending work is saved before containers are touched; a save that is cut off anywhere leaves
    the old or the new state, and no command ever leaves a file that does not load; at most
    three recoveries that wrote the state leave a rollback pending.
  \<^item> Isolation: effects happen under the lock only, so that the changes of two processes that deploy never overlap,
    nobody touches a container while another process holds the lock, and no process that takes it for itself acts while a reader
    holds it (two dry runs share it, and can both save the state: \<open>dry_runs_overlap\<close>); commands run on validated
    configurations with the lock of their kind; the monitor never takes a change under way for an incident; dry runs, status, a paused
    system, a degraded system and the monitor do what they claim and no more; git gets only commit ids to
    check out; credentials never show.
  \<^item> Functional correctness: the failed-commit memory, path containment, the deploy window and its next opening,
    unique project names, the cached discovery against the uncached one and its cache against aliasing, concurrent
    inspections and watches against sequential ones, one alert per incident whatever the checks find, throttling,
    message limits, flags that take effect as documented, the verdict of a watch.
  \<^item> Liveness: watches, lock waits and recovery end; no webhook trigger is lost, and a run put off by the deploy
    window is resumed unless the server exits; a shutdown waits for the run under way, and the poll command for its goroutines.

  \<^bold>\<open>Bounds.\<close> The watch loop has fuel, \<open>watchFuel\<close>: the number of poll intervals in the watch and two more, enough on
  every clock that does not run backwards and sleeps as long as it is asked to
  (\<open>watch_terminates_on_real_clock\<close>). The retries of a fetch and the depth of included files are bounded by
  the code, and are recursion arguments. The lock wait and the poll loop may run forever and are partial
  functions into \<open>option\<close>; the monitor and the webhook command take the number of ticks and of triggers from the
  environment. Durations are 64-bit numbers that wrap where the code multiplies.
  Local time is an offset from UTC at every instant, so that the deploy window sees the clocks change: \<open>Date\<close> and \<open>AddDay\<close> are
  \<^verbatim>\<open>time.Date\<close> and \<^verbatim>\<open>AddDate\<close> in such a location.

  \<^bold>\<open>Concurrency.\<close> A run is a sequential program whose effects are logged one by one. \<open>Processes\<close> and \<open>Goroutines\<close>
  interleave such logs event by event in any order, subject only to the law of the lock they share and, within
  a process, to its mutex and counter; a process may be killed at any event. The webhook server is an
  interleaving of its events. The goroutines of a concurrent inspection, watch or teardown share no state but the result
  slots. In a run, the order of the watches and teardowns is drawn from the oracle \<open>Schedule\<close> and each runs to its end;
  \<open>Pools\<close> has them in any interleaving of their starts, refusals, ends and cancellations, and shows what the result
  may depend on. \<open>pollerStep\<close> interleaves the loop of the poll command with its notifications, monitor and profiling server. Context
  cancellation can happen between any two effects and is an oracle of the world (\<open>CtxErr\<close>). Within one command,
  a notification that the code sends in the background is sent in place; \<open>serverStep\<close> and \<open>threadLog\<close> have it as an
  event of its own.

  \<^bold>\<open>Not modelled.\<close> Log output other than the warnings of loading; help texts; the sockets of the HTTP server and the
  wildcards of its routes; the profiles that the profiling endpoint serves; a failure of \<^verbatim>\<open>json.MarshalIndent\<close> on the state, and the
  replacement of invalid UTF-8 in JSON texts: strings are raw bytes. Parameters of the model, since their code is
  not in the repository: the Docker Compose SDK and Docker client, git itself, YAML, JSON text, number and URL
  parsing, SHA-256 and HMAC, file locks, the HTTP client, the operating system's files.
\<close>

end
